(* ===== verification/Prelude.thy ===== *)
theory Prelude
  imports Main "HOL-Library.Word" "HOL-Library.State_Monad" "HOL-Library.Monad_Syntax"
begin

text \<open>
  Shared vocabulary of the development: bytes, big-endian integers and decimal
  rendering; the state monad of the library with a weakest-precondition
  calculus for it; and the locale \<open>effect_order\<close>, which lifts a reflexive and
  transitive relation on states ("nothing sealed is lost", "no handle leaks")
  from single calls to whole commands.
\<close>

unbundle bit_operations_syntax

named_theorems effect_intros "rules that push an effect bound through a command"
named_theorems wp_simps "weakest preconditions of the calls of the model"

section \<open>Bytes and machine integers\<close>

type_synonym u8 = "8 word"
type_synonym u16 = "16 word"
type_synonym u32 = "32 word"
type_synonym u64 = "64 word"
type_synonym bytes = "8 word list"

text \<open>The bytes of an ASCII literal, without the terminating NUL (\<open>sizeof(s) - 1\<close>).\<close>

definition ascii :: "string \<Rightarrow> bytes" where
  "ascii s = map of_char s"

lemma length_ascii [simp]: "length (ascii s) = length s"
  by (simp add: ascii_def)

lemma ascii_append [simp]: "ascii (s @ t) = ascii s @ ascii t"
  by (simp add: ascii_def)

text \<open>A run of zero bytes, as \<open>TEE_MemFill (p, 0, n)\<close> leaves it.\<close>

abbreviation zeros :: "nat \<Rightarrow> bytes" where
  "zeros n \<equiv> replicate n 0"

text \<open>The string a C buffer holds: up to its first NUL.\<close>

definition c_string :: "bytes \<Rightarrow> bytes" where
  "c_string buf = takeWhile (\<lambda>b. b \<noteq> 0) buf"

lemma length_c_string: "length (c_string u) \<le> length u"
  by (simp add: c_string_def length_takeWhile_le)

text \<open>Left-pad with zero bytes to width \<open>n\<close>.\<close>

definition lpad :: "nat \<Rightarrow> bytes \<Rightarrow> bytes" where
  "lpad n bs = zeros (n - length bs) @ bs"

lemma length_lpad [simp]: "length bs \<le> n \<Longrightarrow> length (lpad n bs) = n"
  by (simp add: lpad_def)

text \<open>Big-endian value of a byte string.\<close>

fun be_val :: "bytes \<Rightarrow> nat" where
  "be_val [] = 0"
| "be_val (b # bs) = unat b * 256 ^ length bs + be_val bs"

lemma be_val_append: "be_val (xs @ ys) = be_val xs * 256 ^ length ys + be_val ys"
  by (induction xs) (simp_all add: algebra_simps power_add)

lemma be_val_zeros [simp]: "be_val (zeros n) = 0"
  by (induction n) simp_all

lemma be_val_bound: "be_val bs < 256 ^ length bs"
proof (induction bs)
  case Nil
  then show ?case by simp
next
  case (Cons b bs)
  have "unat b \<le> 255"
    using unsigned_less [of b, where 'a = nat] by simp
  then have "unat b * 256 ^ length bs \<le> 255 * 256 ^ length bs"
    by (rule mult_le_mono1)
  with Cons.IH have "unat b * 256 ^ length bs + be_val bs < 256 * 256 ^ length bs"
    by linarith
  then show ?case by simp
qed

text \<open>Padding on the left does not change the value: the point of the fixed-width encoding.\<close>

lemma be_val_lpad: "be_val (lpad n bs) = be_val bs"
  by (simp add: lpad_def be_val_append)

text \<open>Byte \<open>i\<close> of an \<open>n\<close>-byte big-endian encoding of a word.\<close>

definition be_bytes :: "nat \<Rightarrow> 'w::len word \<Rightarrow> bytes" where
  "be_bytes n w = map (\<lambda>i. ucast (drop_bit (8 * (n - 1 - i)) w)) [0..<n]"

lemma length_be_bytes [simp]: "length (be_bytes n w) = n"
  by (simp add: be_bytes_def)

subsection \<open>Decimal rendering (the \<open>%d\<close> and \<open>%u\<close> of \<open>snprintf\<close>)\<close>

fun dec_nat :: "nat \<Rightarrow> bytes" where
  "dec_nat n = (if n < 10 then [48 + of_nat n] else dec_nat (n div 10) @ [48 + of_nat (n mod 10)])"

declare dec_nat.simps [simp del]

definition dec_int :: "int \<Rightarrow> bytes" where
  "dec_int i = (if i < 0 then 45 # dec_nat (nat (- i)) else dec_nat (nat i))"

lemma length_dec_nat_le: "n < 10 ^ k \<Longrightarrow> 0 < k \<Longrightarrow> length (dec_nat n) \<le> k"
proof (induction n arbitrary: k rule: dec_nat.induct)
  case (1 n)
  show ?case
  proof (cases "n < 10")
    case True
    with "1.prems" show ?thesis by (simp add: dec_nat.simps [of n])
  next
    case False
    obtain j where k: "k = Suc j" and j: "0 < j"
      using "1.prems" False by (cases k; cases "k - 1") auto
    from "1.prems"(1) k have "n div 10 < 10 ^ j"
      by (simp add: less_mult_imp_div_less)
    with "1.IH" [OF False this j] False k show ?thesis
      by (simp add: dec_nat.simps [of n])
  qed
qed

text \<open>A signed 32-bit value prints in at most 11 characters.\<close>

lemma length_dec_int_s32: "length (dec_int (sint (w :: 32 word))) \<le> 11"
proof -
  have lo: "- (2 ^ 31) \<le> sint w" and hi: "sint w < 2 ^ 31"
    using sint_ge [of w] sint_lt [of w] by simp_all
  have "nat (- sint w) < 10 ^ 10" "nat (sint w) < 10 ^ 10"
    using lo hi by simp_all
  then have "length (dec_nat (nat (- sint w))) \<le> 10" "length (dec_nat (nat (sint w))) \<le> 10"
    by (simp_all add: length_dec_nat_le)
  then show ?thesis
    by (simp add: dec_int_def)
qed

subsection \<open>Decimal parsing (\<open>atoi\<close>)\<close>

text \<open>Values beyond \<open>int\<close>, which C leaves undefined, are not cut off here.\<close>

definition is_space :: "u8 \<Rightarrow> bool" where
  "is_space b \<longleftrightarrow> b = 32 \<or> 9 \<le> b \<and> b \<le> 13"

definition is_digit :: "u8 \<Rightarrow> bool" where
  "is_digit b \<longleftrightarrow> 48 \<le> b \<and> b \<le> 57"

definition digits_val :: "bytes \<Rightarrow> int" where
  "digits_val s = foldl (\<lambda>n d. 10 * n + (int (unat d) - 48)) 0 (takeWhile is_digit s)"

definition atoi :: "bytes \<Rightarrow> int" where
  "atoi s = (let t = dropWhile is_space s in
     if t \<noteq> [] \<and> hd t = 45 then - digits_val (tl t)
     else if t \<noteq> [] \<and> hd t = 43 then digits_val (tl t)
     else digits_val t)"

lemma digits_val_snoc: "list_all is_digit ds \<Longrightarrow> is_digit d \<Longrightarrow>
    digits_val (ds @ [d]) = 10 * digits_val ds + (int (unat d) - 48)"
proof -
  assume d: "list_all is_digit ds" "is_digit d"
  then have "takeWhile is_digit ds = ds" "takeWhile is_digit (ds @ [d]) = ds @ [d]"
    by (simp_all add: list_all_iff takeWhile_eq_all_conv)
  then show ?thesis by (simp only: digits_val_def foldl_append foldl.simps)
qed

lemma dec_nat_digits: "list_all is_digit (dec_nat n) \<and> digits_val (dec_nat n) = int n \<and> dec_nat n \<noteq> []"
proof (induction n rule: dec_nat.induct)
  case (1 n)
  have digit: "is_digit (48 + of_nat m) \<and> int (unat (48 + of_nat m :: u8)) = 48 + int m" if "m < 10" for m
  proof -
    have "unat (48 + of_nat m :: u8) = 48 + m"
      using that by (simp add: unat_word_ariths unat_of_nat)
    with that show ?thesis by (simp add: is_digit_def word_le_nat_alt)
  qed
  show ?case
  proof (cases "n < 10")
    case True
    with digit [OF True] show ?thesis by (simp add: dec_nat.simps [of n] digits_val_def)
  next
    case False
    have "n mod 10 < 10" by simp
    note d = digit [OF this]
    have "10 * int (n div 10) + int (n mod 10) = int n"
      by presburger
    with "1.IH" [OF False] d digits_val_snoc [of "dec_nat (n div 10)" "48 + of_nat (n mod 10)"] False show ?thesis
      by (simp add: dec_nat.simps [of n])
  qed
qed

text \<open>What \<open>%u\<close> prints, \<open>atoi\<close> reads.\<close>

lemma atoi_dec_nat: "atoi (dec_nat n) = int n"
proof -
  obtain d ds where n: "dec_nat n = d # ds" using dec_nat_digits [of n] by (cases "dec_nat n") auto
  with dec_nat_digits [of n] have d: "is_digit d" by simp
  then have "\<not> is_space d" "d \<noteq> 45" "d \<noteq> 43"
    by (auto simp: is_digit_def is_space_def word_le_nat_alt)
  with dec_nat_digits [of n] n show ?thesis by (simp add: atoi_def Let_def)
qed

section \<open>Memory\<close>

text \<open>Overwrite \<open>length d\<close> bytes of \<open>buf\<close> at offset \<open>off\<close>, as \<open>memcpy\<close> does in range.\<close>

definition splice :: "nat \<Rightarrow> bytes \<Rightarrow> bytes \<Rightarrow> bytes" where
  "splice off d buf = take off buf @ d @ drop (off + length d) buf"

lemma length_splice [simp]:
  "off + length d \<le> length buf \<Longrightarrow> length (splice off d buf) = length buf"
  by (simp add: splice_def)

lemma take_splice_0 [simp]: "take (length d) (splice 0 d buf) = d"
  by (simp add: splice_def)

lemma take_splice_before: "n \<le> off \<Longrightarrow> off \<le> length buf \<Longrightarrow> take n (splice off d buf) = take n buf"
  by (simp add: splice_def)

lemma take_drop_splice: "off \<le> length buf \<Longrightarrow> take (length d) (drop off (splice off d buf)) = d"
  by (simp add: splice_def)

lemma nth_update_if: "xs[i := y] ! j = (if i = j \<and> j < length xs then y else xs ! j)"
  by (cases "i = j"; cases "j < length xs") (simp_all add: list_update_beyond)

text \<open>What an extended map still holds.\<close>

lemma map_le_Some: "m \<subseteq>\<^sub>m n \<Longrightarrow> m k = Some v \<Longrightarrow> n k = Some v"
  by (metis domI map_le_def)

section \<open>Weakest preconditions for the state monad\<close>

definition wp :: "('s, 'a) state \<Rightarrow> ('a \<Rightarrow> 's \<Rightarrow> bool) \<Rightarrow> 's \<Rightarrow> bool" where
  "wp m Q s = (case run_state m s of (a, s') \<Rightarrow> Q a s')"

definition gets :: "('s \<Rightarrow> 'a) \<Rightarrow> ('s, 'a) state" where
  "gets f = State (\<lambda>s. (f s, s))"

definition modify :: "('s \<Rightarrow> 's) \<Rightarrow> ('s, unit) state" where
  "modify f = State (\<lambda>s. ((), f s))"

lemma run_state_gets [simp]: "run_state (gets f) s = (f s, s)"
  by (simp add: gets_def)

lemma run_state_modify [simp]: "run_state (modify f) s = ((), f s)"
  by (simp add: modify_def)

lemma wp_return [simp, wp_simps]: "wp (State_Monad.return a) Q s = Q a s"
  by (simp add: wp_def)

lemma wp_bind [simp, wp_simps]: "wp (m \<bind> f) Q s = wp m (\<lambda>a. wp (f a) Q) s"
  by (simp add: wp_def split: prod.splits)

lemma wp_gets [simp, wp_simps]: "wp (gets f) Q s = Q (f s) s"
  by (simp add: wp_def)

lemma wp_modify [simp, wp_simps]: "wp (modify f) Q s = Q () (f s)"
  by (simp add: wp_def)

lemma wp_if [simp, wp_simps]:
  "wp (if b then m else n) Q s = (if b then wp m Q s else wp n Q s)"
  by simp

lemma wp_mono: "wp m Q s \<Longrightarrow> (\<And>a s'. Q a s' \<Longrightarrow> R a s') \<Longrightarrow> wp m R s"
  by (auto simp: wp_def split: prod.splits)

lemma wp_conj: "wp m Q s \<Longrightarrow> wp m R s \<Longrightarrow> wp m (\<lambda>a s'. Q a s' \<and> R a s') s"
  by (auto simp: wp_def split: prod.splits)

lemma wp_run: "wp m Q s \<Longrightarrow> run_state m s = (a, s') \<Longrightarrow> Q a s'"
  by (simp add: wp_def)

lemma wp_self: "wp m (\<lambda>a s'. run_state m s = (a, s') \<longrightarrow> Q a s') s \<Longrightarrow> wp m Q s"
  by (auto simp: wp_def split: prod.splits)

lemma wp_runI: "(\<And>a s'. run_state m s = (a, s') \<Longrightarrow> Q a s') \<Longrightarrow> wp m Q s"
  by (auto simp: wp_def split: prod.splits)

section \<open>Effect bounds\<close>

text \<open>
  \<open>bounded R m\<close>: whatever \<open>m\<close> does, the state after it is related by \<open>R\<close> to the
  state before. For a preorder \<open>R\<close> this is closed under sequencing, so the bound of a
  command follows from the bounds of its calls.
\<close>

definition bounded :: "('s \<Rightarrow> 's \<Rightarrow> bool) \<Rightarrow> ('s, 'a) state \<Rightarrow> bool" where
  "bounded R m = (\<forall>s. R s (snd (run_state m s)))"

lemma boundedI: "(\<And>s a s'. run_state m s = (a, s') \<Longrightarrow> R s s') \<Longrightarrow> bounded R m"
  by (auto simp: bounded_def intro: prod.collapse [symmetric])

lemma boundedD: "bounded R m \<Longrightarrow> run_state m s = (a, s') \<Longrightarrow> R s s'"
  by (metis bounded_def snd_conv)

lemma bounded_mono: "bounded R m \<Longrightarrow> (\<And>s t. R s t \<Longrightarrow> S s t) \<Longrightarrow> bounded S m"
  by (simp add: bounded_def)

lemma bounded_conj: "bounded R m \<Longrightarrow> bounded S m \<Longrightarrow> bounded (\<lambda>s t. R s t \<and> S s t) m"
  by (simp add: bounded_def)

lemma bounded_wp: "bounded R m \<longleftrightarrow> (\<forall>s. wp m (\<lambda>_ t. R s t) s)"
  by (simp add: bounded_def wp_def case_prod_beta)

locale effect_order =
  fixes R :: "'s \<Rightarrow> 's \<Rightarrow> bool"
  assumes R_refl: "R s s"
    and R_trans: "R s t \<Longrightarrow> R t u \<Longrightarrow> R s u"
begin

lemma bounded_return: "bounded R (State_Monad.return a)"
  by (simp add: bounded_def R_refl)

lemma bounded_gets: "bounded R (gets f)"
  by (simp add: bounded_def R_refl)

lemma bounded_bind:
  assumes "bounded R m" and "\<And>a. bounded R (f a)"
  shows "bounded R (m \<bind> f)"
proof (rule boundedI)
  fix s b u
  assume "run_state (m \<bind> f) s = (b, u)"
  then obtain a t where m: "run_state m s = (a, t)" and f: "run_state (f a) t = (b, u)"
    by (auto split: prod.splits)
  from boundedD [OF assms(1) m] boundedD [OF assms(2) f] show "R s u"
    by (rule R_trans)
qed

lemma bounded_if:
  assumes "b \<Longrightarrow> bounded R m" and "\<not> b \<Longrightarrow> bounded R n"
  shows "bounded R (if b then m else n)"
  using assms by simp

lemma bounded_modify: "(\<And>s. R s (f s)) \<Longrightarrow> bounded R (modify f)"
  by (simp add: bounded_def)

lemma bounded_case_option:
  assumes "x = None \<Longrightarrow> bounded R m" and "\<And>y. x = Some y \<Longrightarrow> bounded R (f y)"
  shows "bounded R (case x of None \<Rightarrow> m | Some y \<Rightarrow> f y)"
  using assms by (cases x) simp_all

lemma bounded_case_prod:
  assumes "\<And>x y. p = (x, y) \<Longrightarrow> bounded R (f x y)"
  shows "bounded R (case p of (x, y) \<Rightarrow> f x y)"
  using assms by (cases p) simp

lemmas bounded_rules =
  bounded_return bounded_gets bounded_bind bounded_if bounded_case_option bounded_case_prod

end

end
