(* ===== verification/Protocol.thy ===== *)
theory Protocol
  imports Prelude
begin

text \<open>
  The constants and byte formats both ends of the attestation protocol share: the
  sizes and labels of confidential_iot_ta.h, the three signed or quoted pre-images, the
  sealed identity blob, and the 8-byte counter that is the GCM additional data. The
  pre-images are stated here the way the management server builds them; TaIdentity and
  TaHandshake prove that the device hashes the same bytes.
\<close>

section \<open>Constants of confidential_iot_ta.h\<close>

definition ECDH_PUBKEY_SIZE :: nat where [simp]: "ECDH_PUBKEY_SIZE = 65"
definition SESSION_KEY_SIZE :: nat where [simp]: "SESSION_KEY_SIZE = 32"
definition TRANSCRIPT_HASH_SIZE :: nat where [simp]: "TRANSCRIPT_HASH_SIZE = 32"
definition SERVER_SIG_SIZE :: nat where [simp]: "SERVER_SIG_SIZE = 64"
definition SEQ_AAD_SIZE :: nat where [simp]: "SEQ_AAD_SIZE = 8"
definition TA_SIG_SIZE :: nat where [simp]: "TA_SIG_SIZE = 64"
definition EVIDENCE_BLOCK_SIZE :: nat where [simp]:
  "EVIDENCE_BLOCK_SIZE = TRANSCRIPT_HASH_SIZE + TA_SIG_SIZE"
definition EC_SCALAR_SIZE :: nat where [simp]: "EC_SCALAR_SIZE = 32"
definition DEVICE_ID_MAX :: nat where [simp]: "DEVICE_ID_MAX = 63"
definition TA_IDENTITY_BLOB_SIZE :: nat where [simp]: "TA_IDENTITY_BLOB_SIZE = 160"
definition NONCE_MAX :: nat where [simp]: "NONCE_MAX = 64"
definition READING_MAX :: nat where [simp]: "READING_MAX = 256"
definition SENSOR_SECRET_SIZE :: nat where [simp]: "SENSOR_SECRET_SIZE = 32"

definition CMD_AUTHENTICATE_SENSOR :: nat where [simp]: "CMD_AUTHENTICATE_SENSOR = 0"
definition CMD_READ_AND_PROTECT :: nat where [simp]: "CMD_READ_AND_PROTECT = 1"
definition CMD_GENERATE_ATTESTATION_EVIDENCE :: nat where [simp]: "CMD_GENERATE_ATTESTATION_EVIDENCE = 3"
definition CMD_HANDSHAKE_COMPLETE :: nat where [simp]: "CMD_HANDSHAKE_COMPLETE = 4"
definition CMD_PROVISION_SENSOR_SECRET :: nat where [simp]: "CMD_PROVISION_SENSOR_SECRET = 5"
definition CMD_GENERATE_TA_IDENTITY :: nat where [simp]: "CMD_GENERATE_TA_IDENTITY = 6"

definition SERVER_IDENTITY_LABEL :: bytes where
  "SERVER_IDENTITY_LABEL = ascii ''CC-IOT-1 server-identity''"

definition TA_IDENTITY_LABEL :: bytes where
  "TA_IDENTITY_LABEL = ascii ''CC-IOT-1 ta-identity''"

definition HKDF_INFO :: bytes where
  "HKDF_INFO = ascii ''CC-IOT-1 device-aead''"

definition SERVER_PUBKEY_OBJID :: string where
  "SERVER_PUBKEY_OBJID = ''ciot.server.pubkey''"

definition TA_IDENTITY_OBJID :: string where
  "TA_IDENTITY_OBJID = ''ciot.ta.identity''"

definition SENSOR_PSK_OBJID :: string where
  "SENSOR_PSK_OBJID = ''ciot.sensor.psk''"

lemma objids_distinct [simp]:
  "SERVER_PUBKEY_OBJID \<noteq> TA_IDENTITY_OBJID" "TA_IDENTITY_OBJID \<noteq> SERVER_PUBKEY_OBJID"
  "SERVER_PUBKEY_OBJID \<noteq> SENSOR_PSK_OBJID" "SENSOR_PSK_OBJID \<noteq> SERVER_PUBKEY_OBJID"
  "TA_IDENTITY_OBJID \<noteq> SENSOR_PSK_OBJID" "SENSOR_PSK_OBJID \<noteq> TA_IDENTITY_OBJID"
  by (simp_all add: SERVER_PUBKEY_OBJID_def TA_IDENTITY_OBJID_def SENSOR_PSK_OBJID_def)

lemma label_lengths [simp]:
  "length SERVER_IDENTITY_LABEL = 24" "length TA_IDENTITY_LABEL = 20" "length HKDF_INFO = 20"
  by (simp_all add: SERVER_IDENTITY_LABEL_def TA_IDENTITY_LABEL_def HKDF_INFO_def)

section \<open>Pre-images\<close>

definition transcript_preimage :: "bytes \<Rightarrow> bytes \<Rightarrow> bytes \<Rightarrow> bytes" where
  "transcript_preimage nonce server_pub device_pub = nonce @ server_pub @ device_pub"

definition server_identity_preimage :: "bytes \<Rightarrow> bytes \<Rightarrow> bytes \<Rightarrow> bytes" where
  "server_identity_preimage nonce server_pub device_pub =
     SERVER_IDENTITY_LABEL @ nonce @ server_pub @ device_pub"

definition ta_identity_preimage :: "bytes \<Rightarrow> bytes \<Rightarrow> bytes \<Rightarrow> bytes \<Rightarrow> bytes" where
  "ta_identity_preimage device_id nonce server_pub device_pub =
     TA_IDENTITY_LABEL @ nonce @ server_pub @ device_pub @ device_id"

text \<open>
  The two labels differ at a byte that neither encoding can move, so no message signed
  in one role is ever a message of the other role, whatever the lengths of the fields.
\<close>

lemma labels_separate: "SERVER_IDENTITY_LABEL @ xs \<noteq> TA_IDENTITY_LABEL @ ys"
proof
  assume "SERVER_IDENTITY_LABEL @ xs = TA_IDENTITY_LABEL @ ys"
  then have "(SERVER_IDENTITY_LABEL @ xs) ! 9 = (TA_IDENTITY_LABEL @ ys) ! 9"
    by simp
  then show False
    by (simp add: SERVER_IDENTITY_LABEL_def TA_IDENTITY_LABEL_def nth_append ascii_def)
qed

text \<open>With the nonce length fixed, as the server fixes it, each encoding is injective.\<close>

lemma server_identity_preimage_inj:
  assumes "server_identity_preimage n s d = server_identity_preimage n' s' d'"
    and "length s = length s'" "length d = length d'"
  shows "n = n' \<and> s = s' \<and> d = d'"
proof -
  from assms have eq: "n @ s @ d = n' @ s' @ d'"
    by (simp add: server_identity_preimage_def)
  then have "length n = length n'"
    using assms(2,3) by (metis (no_types, lifting) add_right_cancel length_append)
  with eq assms(2,3) show ?thesis by simp
qed

lemma ta_identity_preimage_inj:
  assumes "ta_identity_preimage i n s d = ta_identity_preimage i' n' s' d'"
    and "length n = length n'" "length s = length s'" "length d = length d'"
  shows "i = i' \<and> n = n' \<and> s = s' \<and> d = d'"
  using assms by (simp add: ta_identity_preimage_def)

section \<open>The sealed identity blob\<close>

definition TA_ID_OFF_D :: nat where [simp]: "TA_ID_OFF_D = 0"
definition TA_ID_OFF_X :: nat where [simp]: "TA_ID_OFF_X = TA_ID_OFF_D + EC_SCALAR_SIZE"
definition TA_ID_OFF_Y :: nat where [simp]: "TA_ID_OFF_Y = TA_ID_OFF_X + EC_SCALAR_SIZE"
definition TA_ID_OFF_IDLEN :: nat where [simp]: "TA_ID_OFF_IDLEN = TA_ID_OFF_Y + EC_SCALAR_SIZE"
definition TA_ID_OFF_ID :: nat where [simp]: "TA_ID_OFF_ID = TA_ID_OFF_IDLEN + 1"

definition sub :: "nat \<Rightarrow> nat \<Rightarrow> bytes \<Rightarrow> bytes" where
  "sub off n buf = take n (drop off buf)"

lemma length_sub [simp]: "off + n \<le> length buf \<Longrightarrow> length (sub off n buf) = n"
  by (simp add: sub_def)

text \<open>Decoding: the fields of a 160-byte blob.\<close>

definition blob_d :: "bytes \<Rightarrow> bytes" where "blob_d b = sub TA_ID_OFF_D EC_SCALAR_SIZE b"
definition blob_x :: "bytes \<Rightarrow> bytes" where "blob_x b = sub TA_ID_OFF_X EC_SCALAR_SIZE b"
definition blob_y :: "bytes \<Rightarrow> bytes" where "blob_y b = sub TA_ID_OFF_Y EC_SCALAR_SIZE b"
definition blob_idlen :: "bytes \<Rightarrow> nat" where "blob_idlen b = unat (b ! TA_ID_OFF_IDLEN)"
definition blob_id :: "bytes \<Rightarrow> bytes" where "blob_id b = sub TA_ID_OFF_ID (blob_idlen b) b"

text \<open>The uncompressed SEC1 point of the sealed public half.\<close>

definition ta_identity_blob_to_sec1 :: "bytes \<Rightarrow> bytes" where
  "ta_identity_blob_to_sec1 blob = 0x04 # blob_x blob @ blob_y blob"

lemma length_blob_to_sec1 [simp]:
  "length blob = TA_IDENTITY_BLOB_SIZE \<Longrightarrow> length (ta_identity_blob_to_sec1 blob) = ECDH_PUBKEY_SIZE"
  by (simp add: ta_identity_blob_to_sec1_def blob_x_def blob_y_def)

text \<open>Encoding: the layout the header documents.\<close>

definition identity_blob :: "bytes \<Rightarrow> bytes \<Rightarrow> bytes \<Rightarrow> bytes \<Rightarrow> bytes" where
  "identity_blob d x y i =
     d @ x @ y @ [of_nat (length i)] @ i @ zeros (DEVICE_ID_MAX - length i)"

definition blob_wf :: "bytes \<Rightarrow> bool" where
  "blob_wf b \<longleftrightarrow> length b = TA_IDENTITY_BLOB_SIZE \<and>
     blob_idlen b \<noteq> 0 \<and> blob_idlen b \<le> DEVICE_ID_MAX"

lemma identity_blob_fields:
  assumes "length d = 32" "length x = 32" "length y = 32"
    and "0 < length i" "length i \<le> DEVICE_ID_MAX"
  shows "blob_wf (identity_blob d x y i)"
    and "blob_d (identity_blob d x y i) = d"
    and "blob_x (identity_blob d x y i) = x"
    and "blob_y (identity_blob d x y i) = y"
    and "blob_idlen (identity_blob d x y i) = length i"
    and "blob_id (identity_blob d x y i) = i"
proof -
  have len: "unat (of_nat (length i) :: u8) = length i"
    using assms(5) by (simp add: unat_of_nat)
  show idlen: "blob_idlen (identity_blob d x y i) = length i"
    using assms len by (simp add: blob_idlen_def identity_blob_def nth_append)
  show "blob_wf (identity_blob d x y i)"
    using assms idlen by (simp add: blob_wf_def) (simp add: identity_blob_def)
  show "blob_id (identity_blob d x y i) = i"
    using assms idlen by (simp add: blob_id_def sub_def) (simp add: identity_blob_def)
  show "blob_d (identity_blob d x y i) = d" "blob_x (identity_blob d x y i) = x"
    "blob_y (identity_blob d x y i) = y"
    using assms by (simp_all add: blob_d_def blob_x_def blob_y_def sub_def identity_blob_def)
qed

section \<open>The sequence number as additional data\<close>

definition seq_aad :: "u64 \<Rightarrow> bytes" where
  "seq_aad seq = be_bytes SEQ_AAD_SIZE seq"

end
