(* ===== verification/Platform.thy ===== *)
theory Platform
  imports Prelude
begin

text \<open>
  What the C sources call and do not contain: the GlobalPlatform TEE Internal Core
  API and its cryptography, OP-TEE secure storage, the PL011 driver of the secure
  UART, and the Normal World, which can rewrite the shared buffers of a command
  while the command runs. All of it is the record \<open>platform\<close>, an argument of every
  definition that uses it, over an opaque external state \<open>'e\<close>. Nothing is assumed
  of a platform here; the laws some theorems need are the named predicates at the end.
\<close>

section \<open>Result codes, parameters and calls\<close>

text \<open>The \<open>TEE_Result\<close> codes the sources name; every other code is \<open>TEE_OTHER\<close>.\<close>

datatype TEE_Result =
    TEE_SUCCESS
  | TEE_ERROR_GENERIC
  | TEE_ERROR_ACCESS_DENIED
  | TEE_ERROR_ACCESS_CONFLICT
  | TEE_ERROR_BAD_FORMAT
  | TEE_ERROR_BAD_PARAMETERS
  | TEE_ERROR_BAD_STATE
  | TEE_ERROR_ITEM_NOT_FOUND
  | TEE_ERROR_NOT_IMPLEMENTED
  | TEE_ERROR_NOT_SUPPORTED
  | TEE_ERROR_OUT_OF_MEMORY
  | TEE_ERROR_COMMUNICATION
  | TEE_ERROR_SHORT_BUFFER
  | TEE_ERROR_OVERFLOW
  | TEE_ERROR_MAC_INVALID
  | TEE_ERROR_SIGNATURE_INVALID
  | TEE_OTHER u32

text \<open>
  A call either returns, or the trusted application panics: execution stops there and
  none of the code after it, cleanup included, runs.
\<close>

datatype 'a outcome = Ret 'a | Panicked

datatype ptype =
    PT_NONE | PT_VALUE_INPUT | PT_VALUE_OUTPUT | PT_VALUE_INOUT
  | PT_MEMREF_INPUT | PT_MEMREF_OUTPUT | PT_MEMREF_INOUT

fun is_memref :: "ptype \<Rightarrow> bool" where
  "is_memref PT_MEMREF_INPUT = True"
| "is_memref PT_MEMREF_OUTPUT = True"
| "is_memref PT_MEMREF_INOUT = True"
| "is_memref _ = False"

datatype object_type =
    TEE_TYPE_HMAC_SHA256 | TEE_TYPE_ECDSA_KEYPAIR | TEE_TYPE_ECDSA_PUBLIC_KEY
  | TEE_TYPE_ECDH_KEYPAIR | TEE_TYPE_GENERIC_SECRET | TEE_TYPE_HKDF_IKM | TEE_TYPE_AES

datatype algorithm =
    TEE_ALG_SHA256 | TEE_ALG_HMAC_SHA256 | TEE_ALG_ECDSA_P256 | TEE_ALG_ECDH_P256
  | TEE_ALG_HKDF_SHA256_DERIVE_KEY | TEE_ALG_AES_GCM

datatype op_mode =
    TEE_MODE_DIGEST | TEE_MODE_MAC | TEE_MODE_SIGN | TEE_MODE_VERIFY
  | TEE_MODE_DERIVE | TEE_MODE_ENCRYPT

datatype attribute =
    TEE_ATTR_SECRET_VALUE | TEE_ATTR_ECC_PRIVATE_VALUE
  | TEE_ATTR_ECC_PUBLIC_VALUE_X | TEE_ATTR_ECC_PUBLIC_VALUE_Y

datatype data_flag =
    TEE_DATA_FLAG_ACCESS_READ | TEE_DATA_FLAG_ACCESS_WRITE
  | TEE_DATA_FLAG_ACCESS_WRITE_META | TEE_DATA_FLAG_OVERWRITE

text \<open>The calls whose only freedom is the result code they return.\<close>

datatype tee_call =
    MallocSession
  | AllocateTransientObject object_type nat
  | AllocateOperation algorithm op_mode nat
  | PopulateTransientObject object_type
  | SetOperationKey algorithm
  | GenerateKey object_type
  | GetObjectBufferAttribute attribute
  | DigestDoFinal
  | MACCompareFinal
  | AsymmetricVerifyDigest
  | AEInit
  | AEEncryptFinal
  | OpenTASession
  | InvokeTACommand nat

record 'e platform =
  \<comment> \<open>cryptography\<close>
  p_sha256 :: "bytes \<Rightarrow> bytes"
  p_hmac :: "bytes \<Rightarrow> bytes \<Rightarrow> bytes"
  p_verify :: "bytes \<Rightarrow> bytes \<Rightarrow> bytes \<Rightarrow> bytes \<Rightarrow> bool"
  p_sign :: "bytes \<Rightarrow> bytes \<Rightarrow> 'e \<Rightarrow> bytes option \<times> 'e"
  p_ecdh :: "bytes \<Rightarrow> bytes \<Rightarrow> bytes \<Rightarrow> bytes option"
  p_hkdf :: "bytes \<Rightarrow> bytes \<Rightarrow> bytes \<Rightarrow> nat \<Rightarrow> bytes"
  p_gcm :: "bytes \<Rightarrow> bytes \<Rightarrow> bytes \<Rightarrow> bytes \<Rightarrow> bytes \<times> bytes"
  p_random :: "nat \<Rightarrow> 'e \<Rightarrow> bytes \<times> 'e"
  p_keypair :: "'e \<Rightarrow> (bytes \<times> bytes \<times> bytes) \<times> 'e"
  \<comment> \<open>result codes of the other calls\<close>
  p_result :: "tee_call \<Rightarrow> 'e \<Rightarrow> TEE_Result \<times> 'e"
  \<comment> \<open>secure storage\<close>
  p_open :: "string \<Rightarrow> 'e \<Rightarrow> TEE_Result \<times> 'e"
  p_read :: "string \<Rightarrow> nat \<Rightarrow> 'e \<Rightarrow> (TEE_Result \<times> bytes) \<times> 'e"
  p_create :: "string \<Rightarrow> data_flag list \<Rightarrow> bytes \<Rightarrow> 'e \<Rightarrow> TEE_Result \<times> 'e"
  \<comment> \<open>the Normal World, between two accesses to shared memory\<close>
  p_host :: "bytes list \<Rightarrow> 'e \<Rightarrow> bytes list \<times> 'e"
  \<comment> \<open>PL011 driver\<close>
  p_uart_init :: "'e \<Rightarrow> 'e"
  p_uart_putc :: "u8 \<Rightarrow> 'e \<Rightarrow> 'e"
  p_uart_flush :: "'e \<Rightarrow> 'e"
  p_uart_have_rx :: "'e \<Rightarrow> bool \<times> 'e"
  p_uart_getchar :: "'e \<Rightarrow> u8 \<times> 'e"
  p_mdelay :: "nat \<Rightarrow> 'e \<Rightarrow> 'e"

section \<open>The state a trusted application runs in\<close>

text \<open>
  \<open>uart_ready\<close> is the static flag of the sensor_link PTA; \<open>wire\<close> records, in order,
  the bytes the PTA has handed to \<open>putc\<close> and taken from \<open>getchar\<close>, and \<open>waited\<close> the
  milliseconds it has slept, so that link traffic and time-outs can be stated; no code reads
  these two.
\<close>

datatype wire_byte = Sent u8 | Received u8

abbreviation sent :: "bytes \<Rightarrow> wire_byte list" where
  "sent bs \<equiv> map Sent bs"

abbreviation received :: "bytes \<Rightarrow> wire_byte list" where
  "received bs \<equiv> map Received bs"

record 'e world =
  ext :: 'e
  uart_ready :: bool
  wire :: "wire_byte list"
  waited :: nat

text \<open>
  What a command invocation adds: the four memref buffers shared with the Host
  (\<open>shm\<close>), the sizes and values of \<open>params[4]\<close>, which live in the TA's own memory,
  a flag set by any access outside a shared buffer, and the number of handles the TA
  holds (transient objects, operations, persistent objects, TA sessions).
\<close>

record 'e tee_world = "'e world" +
  shm :: "bytes list"
  psize :: "nat list"
  pvalue :: "(u32 \<times> u32) list"
  oob :: bool
  n_objects :: nat
  n_operations :: nat
  n_persistent :: nat
  n_sessions :: nat

definition ext_op :: "('e \<Rightarrow> 'a \<times> 'e) \<Rightarrow> (('e, 'm) world_scheme, 'a) state" where
  "ext_op f = State (\<lambda>s. case f (ext s) of (a, e) \<Rightarrow> (a, s\<lparr>ext := e\<rparr>))"

definition tee_call :: "'e platform \<Rightarrow> tee_call \<Rightarrow> (('e, 'm) world_scheme, TEE_Result) state" where
  "tee_call P c = ext_op (p_result P c)"

section \<open>Handles\<close>

definition alloc_object ::
    "'e platform \<Rightarrow> object_type \<Rightarrow> nat \<Rightarrow> (('e, 'm) tee_world_scheme, TEE_Result) state" where
  "alloc_object P ty bits = do {
     res \<leftarrow> tee_call P (AllocateTransientObject ty bits);
     modify (\<lambda>s. if res = TEE_SUCCESS then s\<lparr>n_objects := Suc (n_objects s)\<rparr> else s);
     State_Monad.return res }"

text \<open>Freeing \<open>TEE_HANDLE_NULL\<close> does nothing; \<open>live\<close> says whether the handle is not null.\<close>

definition free_object :: "bool \<Rightarrow> (('e, 'm) tee_world_scheme, unit) state" where
  "free_object live = modify (\<lambda>s. if live then s\<lparr>n_objects := n_objects s - 1\<rparr> else s)"

definition alloc_operation ::
    "'e platform \<Rightarrow> algorithm \<Rightarrow> op_mode \<Rightarrow> nat \<Rightarrow> (('e, 'm) tee_world_scheme, TEE_Result) state" where
  "alloc_operation P alg mode bits = do {
     res \<leftarrow> tee_call P (AllocateOperation alg mode bits);
     modify (\<lambda>s. if res = TEE_SUCCESS then s\<lparr>n_operations := Suc (n_operations s)\<rparr> else s);
     State_Monad.return res }"

definition free_operation :: "bool \<Rightarrow> (('e, 'm) tee_world_scheme, unit) state" where
  "free_operation live = modify (\<lambda>s. if live then s\<lparr>n_operations := n_operations s - 1\<rparr> else s)"

section \<open>Secure storage\<close>

definition open_persistent ::
    "'e platform \<Rightarrow> string \<Rightarrow> (('e, 'm) tee_world_scheme, TEE_Result) state" where
  "open_persistent P name = do {
     res \<leftarrow> ext_op (p_open P name);
     modify (\<lambda>s. if res = TEE_SUCCESS then s\<lparr>n_persistent := Suc (n_persistent s)\<rparr> else s);
     State_Monad.return res }"

definition read_object_data ::
    "'e platform \<Rightarrow> string \<Rightarrow> nat \<Rightarrow> (('e, 'm) tee_world_scheme, TEE_Result \<times> bytes) state" where
  "read_object_data P name n = ext_op (p_read P name n)"

definition create_persistent ::
    "'e platform \<Rightarrow> string \<Rightarrow> data_flag list \<Rightarrow> bytes \<Rightarrow> (('e, 'm) tee_world_scheme, TEE_Result) state" where
  "create_persistent P name flags d = do {
     res \<leftarrow> ext_op (p_create P name flags d);
     modify (\<lambda>s. if res = TEE_SUCCESS then s\<lparr>n_persistent := Suc (n_persistent s)\<rparr> else s);
     State_Monad.return res }"

definition close_object :: "(('e, 'm) tee_world_scheme, unit) state" where
  "close_object = modify (\<lambda>s. s\<lparr>n_persistent := n_persistent s - 1\<rparr>)"

section \<open>Keys, attributes and randomness\<close>

definition generate_random :: "'e platform \<Rightarrow> nat \<Rightarrow> (('e, 'm) world_scheme, bytes) state" where
  "generate_random P n = ext_op (p_random P n)"

text \<open>The attributes of an elliptic-curve key object, each a big-endian byte string.\<close>

record ec_key =
  ec_d :: bytes
  ec_x :: bytes
  ec_y :: bytes

abbreviation blank_key :: ec_key where
  "blank_key \<equiv> \<lparr>ec_d = [], ec_x = [], ec_y = []\<rparr>"

fun ec_attr :: "attribute \<Rightarrow> ec_key \<Rightarrow> bytes" where
  "ec_attr TEE_ATTR_ECC_PRIVATE_VALUE k = ec_d k"
| "ec_attr TEE_ATTR_ECC_PUBLIC_VALUE_X k = ec_x k"
| "ec_attr TEE_ATTR_ECC_PUBLIC_VALUE_Y k = ec_y k"
| "ec_attr TEE_ATTR_SECRET_VALUE k = []"

definition generate_key ::
    "'e platform \<Rightarrow> object_type \<Rightarrow> (('e, 'm) world_scheme, TEE_Result \<times> ec_key) state" where
  "generate_key P ty = do {
     res \<leftarrow> tee_call P (GenerateKey ty);
     if res \<noteq> TEE_SUCCESS then State_Monad.return (res, blank_key)
     else do {
       (d, x, y) \<leftarrow> ext_op (p_keypair P);
       State_Monad.return (TEE_SUCCESS, \<lparr>ec_d = d, ec_x = x, ec_y = y\<rparr>) } }"

text \<open>\<open>TEE_GetObjectBufferAttribute\<close> into a buffer of \<open>cap\<close> bytes.\<close>

definition get_attribute ::
    "'e platform \<Rightarrow> attribute \<Rightarrow> bytes \<Rightarrow> nat \<Rightarrow> (('e, 'm) world_scheme, TEE_Result \<times> bytes) state" where
  "get_attribute P attr val cap = do {
     res \<leftarrow> tee_call P (GetObjectBufferAttribute attr);
     State_Monad.return
       (if res \<noteq> TEE_SUCCESS then (res, [])
        else if length val > cap then (TEE_ERROR_SHORT_BUFFER, [])
        else (TEE_SUCCESS, val)) }"

section \<open>Shared memory\<close>

definition host_step :: "'e platform \<Rightarrow> (('e, 'm) tee_world_scheme, unit) state" where
  "host_step P = State (\<lambda>s. case p_host P (shm s) (ext s) of (m, e) \<Rightarrow> ((), s\<lparr>shm := m, ext := e\<rparr>))"

text \<open>
  Every read of a shared buffer sees whatever the Normal World has put there by then.
  An access outside the buffer raises \<open>oob\<close>.
\<close>

definition shm_read ::
    "'e platform \<Rightarrow> nat \<Rightarrow> nat \<Rightarrow> nat \<Rightarrow> (('e, 'm) tee_world_scheme, bytes) state" where
  "shm_read P i off n = do {
     host_step P;
     m \<leftarrow> gets shm;
     if i < length m \<and> off + n \<le> length (m ! i)
     then State_Monad.return (take n (drop off (m ! i)))
     else do { modify (\<lambda>s. s\<lparr>oob := True\<rparr>); State_Monad.return (zeros n) } }"

definition shm_write :: "nat \<Rightarrow> nat \<Rightarrow> bytes \<Rightarrow> (('e, 'm) tee_world_scheme, unit) state" where
  "shm_write i off d = modify (\<lambda>s.
     if i < length (shm s) \<and> off + length d \<le> length (shm s ! i)
     then s\<lparr>shm := (shm s)[i := splice off d (shm s ! i)]\<rparr>
     else s\<lparr>oob := True\<rparr>)"

definition get_size :: "nat \<Rightarrow> (('e, 'm) tee_world_scheme, nat) state" where
  "get_size i = gets (\<lambda>s. psize s ! i)"

definition set_size :: "nat \<Rightarrow> nat \<Rightarrow> (('e, 'm) tee_world_scheme, unit) state" where
  "set_size i n = modify (\<lambda>s. s\<lparr>psize := (psize s)[i := n]\<rparr>)"

definition set_value :: "nat \<Rightarrow> u32 \<Rightarrow> u32 \<Rightarrow> (('e, 'm) tee_world_scheme, unit) state" where
  "set_value i a b = modify (\<lambda>s. s\<lparr>pvalue := (pvalue s)[i := (a, b)]\<rparr>)"

section \<open>Preconditions of the calls\<close>

lemma run_state_ext_op [simp]:
  "run_state (ext_op f) s = (fst (f (ext s)), s\<lparr>ext := snd (f (ext s))\<rparr>)"
  by (simp add: ext_op_def case_prod_beta)

lemma wp_ext_op [simp, wp_simps]:
  "wp (ext_op f) Q s = Q (fst (f (ext s))) (s\<lparr>ext := snd (f (ext s))\<rparr>)"
  by (simp add: wp_def)

lemma wp_host_step [simp, wp_simps]:
  "wp (host_step P) Q s =
     Q () (s\<lparr>shm := fst (p_host P (shm s) (ext s)), ext := snd (p_host P (shm s) (ext s))\<rparr>)"
  by (simp add: wp_def host_step_def case_prod_beta)

lemma wp_case_prod [wp_simps]:
  "wp (case p of (a, b) \<Rightarrow> f a b) Q s = (case p of (a, b) \<Rightarrow> wp (f a b) Q s)"
  by (cases p) simp

lemma wp_let [wp_simps]: "wp (Let v f) Q s = wp (f v) Q s"
  by simp

section \<open>Laws of a platform\<close>

text \<open>
  Secure storage: \<open>V e\<close> is the content of the private storage of the TA in the
  external state \<open>e\<close>. No call loses or changes a sealed object; only a create with
  \<open>TEE_DATA_FLAG_OVERWRITE\<close> could. Other sessions of the TA may create objects at any
  time. A create without that flag succeeds only where nothing was stored.
\<close>

type_synonym 'e storage_view = "'e \<Rightarrow> (string \<rightharpoonup> bytes)"

definition seals :: "'e storage_view \<Rightarrow> 'e platform \<Rightarrow> bool" where
  "seals V P \<longleftrightarrow>
     (\<forall>d m e. V e \<subseteq>\<^sub>m V (snd (p_sign P d m e))) \<and>
     (\<forall>n e. V e \<subseteq>\<^sub>m V (snd (p_random P n e))) \<and>
     (\<forall>e. V e \<subseteq>\<^sub>m V (snd (p_keypair P e))) \<and>
     (\<forall>c e. V e \<subseteq>\<^sub>m V (snd (p_result P c e))) \<and>
     (\<forall>i e. V e \<subseteq>\<^sub>m V (snd (p_open P i e))) \<and>
     (\<forall>i n e. V e \<subseteq>\<^sub>m V (snd (p_read P i n e))) \<and>
     (\<forall>i fl d e. TEE_DATA_FLAG_OVERWRITE \<notin> set fl \<longrightarrow> V e \<subseteq>\<^sub>m V (snd (p_create P i fl d e))) \<and>
     (\<forall>m e. V e \<subseteq>\<^sub>m V (snd (p_host P m e))) \<and>
     (\<forall>e. V e \<subseteq>\<^sub>m V (p_uart_init P e)) \<and>
     (\<forall>b e. V e \<subseteq>\<^sub>m V (p_uart_putc P b e)) \<and>
     (\<forall>e. V e \<subseteq>\<^sub>m V (p_uart_flush P e)) \<and>
     (\<forall>e. V e \<subseteq>\<^sub>m V (snd (p_uart_have_rx P e))) \<and>
     (\<forall>e. V e \<subseteq>\<^sub>m V (snd (p_uart_getchar P e))) \<and>
     (\<forall>n e. V e \<subseteq>\<^sub>m V (p_mdelay P n e))"

definition storage_laws :: "'e storage_view \<Rightarrow> 'e platform \<Rightarrow> bool" where
  "storage_laws V P \<longleftrightarrow> seals V P \<and>
     (\<forall>i e. fst (p_open P i e) = TEE_SUCCESS \<longrightarrow> V e i \<noteq> None) \<and>
     (\<forall>i e. fst (p_open P i e) = TEE_ERROR_ITEM_NOT_FOUND \<longrightarrow> V e i = None) \<and>
     (\<forall>i n e c. V e i = Some c \<longrightarrow> fst (fst (p_read P i n e)) = TEE_SUCCESS \<longrightarrow>
        snd (fst (p_read P i n e)) = take n c) \<and>
     (\<forall>i fl d e. TEE_DATA_FLAG_OVERWRITE \<notin> set fl \<longrightarrow> fst (p_create P i fl d e) = TEE_SUCCESS \<longrightarrow>
        V e i = None \<and> V (snd (p_create P i fl d e)) i = Some d) \<and>
     (\<forall>i fl d e. fst (p_create P i fl d e) = TEE_ERROR_ACCESS_CONFLICT \<longrightarrow> V e i \<noteq> None)"

text \<open>The Normal World cannot resize the buffers it shares; a quiet one does not write to them.\<close>

definition host_keeps_sizes :: "'e platform \<Rightarrow> bool" where
  "host_keeps_sizes P \<longleftrightarrow> (\<forall>m e. map length (fst (p_host P m e)) = map length m)"

definition quiet_host :: "'e platform \<Rightarrow> bool" where
  "quiet_host P \<longleftrightarrow> (\<forall>m e. fst (p_host P m e) = m)"

lemma quiet_host_keeps_sizes: "quiet_host P \<Longrightarrow> host_keeps_sizes P"
  by (simp add: quiet_host_def host_keeps_sizes_def)

text \<open>Sizes of what the cryptographic calls return.\<close>

definition crypto_sizes :: "'e platform \<Rightarrow> bool" where
  "crypto_sizes P \<longleftrightarrow>
     (\<forall>m. length (p_sha256 P m) = 32) \<and>
     (\<forall>k m. length (p_hmac P k m) = 32) \<and>
     (\<forall>n e. length (fst (p_random P n e)) = n) \<and>
     (\<forall>d m e sig. fst (p_sign P d m e) = Some sig \<longrightarrow> length sig = 64) \<and>
     (\<forall>i s f n. length (p_hkdf P i s f n) = n) \<and>
     (\<forall>k n a p. length (fst (p_gcm P k n a p)) = length p \<and> length (snd (p_gcm P k n a p)) = 16) \<and>
     (\<forall>e. case fst (p_keypair P e) of (d, x, y) \<Rightarrow> length d \<le> 32 \<and> length x \<le> 32 \<and> length y \<le> 32)"

text \<open>The receive queue of the UART: what is queued is delivered in order.\<close>

definition uart_queue :: "'e platform \<Rightarrow> ('e \<Rightarrow> bytes) \<Rightarrow> bool" where
  "uart_queue P rx \<longleftrightarrow>
     (\<forall>e. fst (p_uart_have_rx P e) = (rx e \<noteq> []) \<and> rx (snd (p_uart_have_rx P e)) = rx e) \<and>
     (\<forall>e. rx e \<noteq> [] \<longrightarrow> fst (p_uart_getchar P e) = hd (rx e) \<and> rx (snd (p_uart_getchar P e)) = tl (rx e))"

section \<open>Effect bounds of the calls\<close>

text \<open>Nothing sealed is lost or changed.\<close>

definition sealed_le :: "'e storage_view \<Rightarrow> ('e, 'm) world_scheme \<Rightarrow> ('e, 'm) world_scheme \<Rightarrow> bool" where
  "sealed_le V s t \<longleftrightarrow> V (ext s) \<subseteq>\<^sub>m V (ext t)"

interpretation sealed: effect_order "sealed_le V" for V
  by unfold_locales (auto simp: sealed_le_def intro: map_le_trans)

text \<open>A link operation leaves alone everything but the external state and the link itself.\<close>

definition link_only :: "('e, 'm) world_scheme \<Rightarrow> ('e, 'm) world_scheme \<Rightarrow> bool" where
  "link_only s t \<longleftrightarrow> world.more t = world.more s"

interpretation link: effect_order link_only
  by unfold_locales (auto simp: link_only_def)

text \<open>An API call leaves the session record of the TA alone.\<close>

definition api_only :: "('e, 'm) tee_world_scheme \<Rightarrow> ('e, 'm) tee_world_scheme \<Rightarrow> bool" where
  "api_only s t \<longleftrightarrow> tee_world.more t = tee_world.more s"

interpretation api: effect_order api_only
  by unfold_locales (auto simp: api_only_def)

lemma link_only_ext_op [effect_intros]: "bounded link_only (ext_op f)"
  by (simp add: bounded_def link_only_def)

lemma sealed_le_ext_op: "(\<And>e. V e \<subseteq>\<^sub>m V (snd (f e))) \<Longrightarrow> bounded (sealed_le V) (ext_op f)"
  by (simp add: bounded_def sealed_le_def)

lemma sealed_le_modify:
  "(\<And>s. ext (f s) = ext s) \<Longrightarrow> bounded (sealed_le V) (modify f)"
  by (simp add: bounded_def sealed_le_def)

lemma api_only_ext_op: "bounded api_only (ext_op f)"
  by (simp add: bounded_def api_only_def)

end
