(* ===== verification/Link.thy ===== *)
theory Link
  imports Prelude
begin

text \<open>
  The wire format of the secure UART, as pta_sensor_link.h and sensor_link_proto.h
  both define it: framing constants, the 3-byte header, and the READING payload.
\<close>

section \<open>Constants\<close>

definition FRAME_CHALLENGE :: u8 where "FRAME_CHALLENGE = 0x01"
definition FRAME_CHALLENGE_RESPONSE :: u8 where "FRAME_CHALLENGE_RESPONSE = 0x02"
definition FRAME_READING :: u8 where "FRAME_READING = 0x03"
definition FRAME_SECRET_REQUEST :: u8 where "FRAME_SECRET_REQUEST = 0x04"
definition FRAME_SECRET :: u8 where "FRAME_SECRET = 0x05"

lemmas frame_types =
  FRAME_CHALLENGE_def FRAME_CHALLENGE_RESPONSE_def FRAME_READING_def
  FRAME_SECRET_REQUEST_def FRAME_SECRET_def

definition FRAME_HDR_SIZE :: nat where [simp]: "FRAME_HDR_SIZE = 3"
definition CHALLENGE_SIZE :: nat where [simp]: "CHALLENGE_SIZE = 32"
definition HMAC_SIZE :: nat where [simp]: "HMAC_SIZE = 32"
definition LINK_SECRET_SIZE :: nat where [simp]: "LINK_SECRET_SIZE = 32"
definition LINK_READING_MAX :: nat where [simp]: "LINK_READING_MAX = 256"
definition READING_VALUE_SIZE :: nat where [simp]: "READING_VALUE_SIZE = 4"
definition READING_UNIT_MAX :: nat where [simp]: "READING_UNIT_MAX = 32"

section \<open>Frames\<close>

text \<open>\<open>[1B type][2B length BE]\<close>\<close>

definition frame_header :: "u8 \<Rightarrow> u16 \<Rightarrow> bytes" where
  "frame_header ty len = [ty, ucast (drop_bit 8 len), ucast (len AND 0xff)]"

definition frame_length :: "bytes \<Rightarrow> u16" where
  "frame_length hdr = push_bit 8 (ucast (hdr ! 1)) OR ucast (hdr ! 2)"

text \<open>Decoding loses nothing: a header is what its type and length encode.\<close>

lemma frame_header_decode:
  assumes "length hdr = 3"
  shows "frame_header (hdr ! 0) (frame_length hdr) = hdr"
proof -
  from assms obtain a b c where h: "hdr = [a, b, c]"
    by (auto simp: numeral_3_eq_3 length_Suc_conv)
  have no: "\<not> bit x k" if "8 \<le> k" for x :: u8 and k
    using that bit_imp_le_length [of x k] by auto
  have m: "(0xff :: u16) = mask 8"
    by (simp add: mask_eq_exp_minus_1)
  have "(ucast (drop_bit 8 (frame_length hdr)) :: u8) = b"
    by (rule bit_word_eqI) (auto simp: h frame_length_def bit_simps no)
  moreover have "(ucast (frame_length hdr AND 0xff) :: u8) = c"
    by (rule bit_word_eqI) (auto simp: h frame_length_def m bit_simps)
  ultimately show ?thesis
    by (simp add: h frame_header_def)
qed

text \<open>A whole frame, as either side puts it on the wire.\<close>

definition encode_frame :: "u8 \<Rightarrow> bytes \<Rightarrow> bytes" where
  "encode_frame ty payload = frame_header ty (of_nat (length payload)) @ payload"

lemma length_frame_header [simp]: "length (frame_header ty len) = 3"
  by (simp add: frame_header_def)

lemma frame_header_type [simp]: "frame_header ty len ! 0 = ty"
  by (simp add: frame_header_def)

lemma frame_length_header [simp]: "frame_length (frame_header ty len @ rest) = len"
proof -
  have "push_bit 8 (ucast (ucast (drop_bit 8 len) :: u8)) OR ucast (ucast (len AND 0xff) :: u8) = len"
    (is "?l = len")
  proof (rule bit_word_eqI)
    fix n :: nat
    have m: "(0xff :: u16) = mask 8"
      by (simp add: mask_eq_exp_minus_1)
    assume "n < LENGTH(16)"
    then show "bit ?l n = bit len n"
      by (cases "n < 8") (auto simp: m bit_simps)
  qed
  then show ?thesis
    by (simp add: frame_length_def frame_header_def)
qed

lemma frame_length_header0 [simp]: "frame_length (frame_header ty len) = len"
  using frame_length_header [of ty len "[]"] by simp

lemma length_encode_frame [simp]: "length (encode_frame ty p) = 3 + length p"
  by (simp add: encode_frame_def)

lemma unat_frame_len: "n < 65536 \<Longrightarrow> unat (of_nat n :: u16) = n"
  by (simp add: unat_of_nat)

section \<open>READING payload\<close>

text \<open>\<open>[4B big-endian int32 value][1B unit_len][unit_len ASCII unit]\<close>\<close>

definition be32 :: "u32 \<Rightarrow> bytes" where
  "be32 w = [ucast (drop_bit 24 w), ucast (drop_bit 16 w), ucast (drop_bit 8 w), ucast w]"

definition from_be32 :: "bytes \<Rightarrow> u32" where
  "from_be32 p = push_bit 24 (ucast (p ! 0)) OR push_bit 16 (ucast (p ! 1)) OR
     push_bit 8 (ucast (p ! 2)) OR ucast (p ! 3)"

lemma length_be32 [simp]: "length (be32 w) = 4"
  by (simp add: be32_def)

lemma from_be32_be32 [simp]: "from_be32 (be32 w @ rest) = w"
proof -
  have "push_bit 24 (ucast (ucast (drop_bit 24 w) :: u8)) OR
        push_bit 16 (ucast (ucast (drop_bit 16 w) :: u8)) OR
        push_bit 8 (ucast (ucast (drop_bit 8 w) :: u8)) OR ucast (ucast w :: u8) = w"
    (is "?l = w")
  proof (rule bit_word_eqI)
    fix n :: nat
    assume "n < LENGTH(32)"
    then show "bit ?l n = bit w n"
      by (cases "n < 8"; cases "n < 16"; cases "n < 24") (auto simp: bit_simps)
  qed
  then show ?thesis
    by (simp add: from_be32_def be32_def)
qed

lemma be32_from_be32 [simp]: "be32 (from_be32 [a, b, c, d]) = [a, b, c, d]"
proof -
  let ?w = "from_be32 [a, b, c, d]"
  have no: "\<not> bit x k" if "8 \<le> k" for x :: u8 and k
    using that bit_imp_le_length [of x k] by auto
  have w: "bit ?w k \<longleftrightarrow> k < 32 \<and>
      (24 \<le> k \<and> bit a (k - 24) \<or> 16 \<le> k \<and> bit b (k - 16) \<or> 8 \<le> k \<and> bit c (k - 8) \<or> bit d k)" for k
    by (auto simp: from_be32_def bit_simps)
  have byte: "(ucast (drop_bit m ?w) :: u8) = x" if "\<And>n. n < 8 \<Longrightarrow> bit ?w (m + n) = bit x n" for m x
    by (rule bit_word_eqI) (simp add: bit_simps that)
  have "(ucast (drop_bit 24 ?w) :: u8) = a" "(ucast (drop_bit 16 ?w) :: u8) = b"
    "(ucast (drop_bit 8 ?w) :: u8) = c" "(ucast (drop_bit 0 ?w) :: u8) = d"
    by (rule byte; simp add: w no)+
  then show ?thesis by (simp add: be32_def)
qed

definition reading_payload :: "u32 \<Rightarrow> bytes \<Rightarrow> bytes" where
  "reading_payload v u = be32 v @ [of_nat (length u)] @ u"

text \<open>Every byte string of the shape the TA accepts is such a payload.\<close>

lemma reading_payload_parse:
  assumes "length p = 5 + unat (p ! 4)"
  shows "reading_payload (from_be32 p) (drop 5 p) = p"
proof -
  have "Suc (Suc (Suc (Suc (Suc 0)))) \<le> length p"
    using assms by simp
  then obtain a b c d l rest where p: "p = a # b # c # d # l # rest"
    by (auto simp: Suc_le_length_iff)
  have "from_be32 p = from_be32 [a, b, c, d]"
    by (simp add: p from_be32_def)
  moreover from assms have "(of_nat (length rest) :: u8) = l"
    by (simp add: p)
  ultimately show ?thesis
    by (simp add: reading_payload_def p)
qed

lemma reading_payload_fields:
  assumes "length u \<le> 255"
  shows "length (reading_payload v u) = 5 + length u" "unat (reading_payload v u ! 4) = length u"
    "from_be32 (reading_payload v u) = v" "drop 5 (reading_payload v u) = u"
proof -
  have "unat (of_nat (length u) :: u8) = length u"
    using assms by (simp add: unat_of_nat)
  then show "unat (reading_payload v u ! 4) = length u"
    by (simp add: reading_payload_def nth_append)
qed (simp_all add: reading_payload_def)

end
