(* ===== verification/SensorLinkPta.thy ===== *)
theory SensorLinkPta
  imports Platform Link
begin

text \<open>
  The sensor_link pseudo-TA (project/optee_os_ext/core/pta/sensor_link.c): bounded
  polling reads of the secure UART, framing, the three commands, and the caller check
  at session open.
\<close>

definition READ_TIMEOUT_MS :: nat where [simp]: "READ_TIMEOUT_MS = 2000"
definition POLL_STEP_MS :: nat where [simp]: "POLL_STEP_MS = 1"

text \<open>A memref parameter of a command of the PTA: its buffer lies in secure memory.\<close>

record memref =
  mbuf :: bytes
  msize :: nat

section \<open>UART access\<close>

definition sensor_uart_ensure_init :: "'e platform \<Rightarrow> (('e, 'm) world_scheme, unit) state" where
  "sensor_uart_ensure_init P = do {
     ready \<leftarrow> gets uart_ready;
     if ready then State_Monad.return ()
     else do {
       ext_op (\<lambda>e. ((), p_uart_init P e));
       modify (\<lambda>s. s\<lparr>uart_ready := True\<rparr>) } }"

definition uart_putc :: "'e platform \<Rightarrow> u8 \<Rightarrow> (('e, 'm) world_scheme, unit) state" where
  "uart_putc P b = do {
     ext_op (\<lambda>e. ((), p_uart_putc P b e));
     modify (\<lambda>s. s\<lparr>wire := wire s @ [Sent b]\<rparr>) }"

primrec uart_put_all :: "'e platform \<Rightarrow> bytes \<Rightarrow> (('e, 'm) world_scheme, unit) state" where
  "uart_put_all P [] = State_Monad.return ()"
| "uart_put_all P (b # bs) = do { uart_putc P b; uart_put_all P bs }"

definition uart_write :: "'e platform \<Rightarrow> bytes \<Rightarrow> (('e, 'm) world_scheme, unit) state" where
  "uart_write P buf = do {
     uart_put_all P buf;
     ext_op (\<lambda>e. ((), p_uart_flush P e)) }"

definition uart_getchar :: "'e platform \<Rightarrow> (('e, 'm) world_scheme, u8) state" where
  "uart_getchar P = do {
     c \<leftarrow> ext_op (p_uart_getchar P);
     modify (\<lambda>s. s\<lparr>wire := wire s @ [Received c]\<rparr>);
     State_Monad.return c }"

definition mdelay :: "'e platform \<Rightarrow> nat \<Rightarrow> (('e, 'm) world_scheme, unit) state" where
  "mdelay P n = do {
     ext_op (\<lambda>e. ((), p_mdelay P n e));
     modify (\<lambda>s. s\<lparr>waited := waited s + n\<rparr>) }"

text \<open>
  The polling loop: \<open>got\<close> holds the bytes stored so far, \<open>waited_ms\<close> the local time-out
  counter. Either a byte arrives or the counter grows, so the loop ends.
\<close>

function uart_read_loop ::
    "'e platform \<Rightarrow> nat \<Rightarrow> bytes \<Rightarrow> nat \<Rightarrow> (('e, 'm) world_scheme, bool \<times> bytes) state" where
  "uart_read_loop P len got waited_ms =
     (if length got < len then do {
        rx \<leftarrow> ext_op (p_uart_have_rx P);
        if rx then do {
          c \<leftarrow> uart_getchar P;
          uart_read_loop P len (got @ [c]) waited_ms }
        else if waited_ms \<ge> READ_TIMEOUT_MS then State_Monad.return (False, got)
        else do {
          mdelay P POLL_STEP_MS;
          uart_read_loop P len got (waited_ms + POLL_STEP_MS) } }
      else State_Monad.return (True, got))"
  by pat_completeness auto
termination
  by (relation "measure (\<lambda>(P, len, got, w). (len - length got) + (READ_TIMEOUT_MS - w))") auto

declare uart_read_loop.simps [simp del]

definition uart_read :: "'e platform \<Rightarrow> nat \<Rightarrow> (('e, 'm) world_scheme, bool \<times> bytes) state" where
  "uart_read P len = uart_read_loop P len [] 0"

section \<open>Frames\<close>

definition write_frame :: "'e platform \<Rightarrow> u8 \<Rightarrow> bytes \<Rightarrow> (('e, 'm) world_scheme, unit) state" where
  "write_frame P ty payload = do {
     uart_write P (frame_header ty (of_nat (length payload)));
     if length payload \<noteq> 0 then uart_write P payload else State_Monad.return () }"

text \<open>
  The result is the success flag and the bytes stored into the caller's buffer; on
  success their number is the payload length.
\<close>

definition read_frame ::
    "'e platform \<Rightarrow> u8 \<Rightarrow> nat \<Rightarrow> (('e, 'm) world_scheme, bool \<times> bytes) state" where
  "read_frame P want_type payload_size = do {
     (ok, hdr) \<leftarrow> uart_read P FRAME_HDR_SIZE;
     if \<not> ok then State_Monad.return (False, [])
     else if hdr ! 0 \<noteq> want_type then State_Monad.return (False, [])
     else let len = unat (frame_length hdr) in
       if len > LINK_READING_MAX \<or> len > payload_size then State_Monad.return (False, [])
       else if len \<noteq> 0 then uart_read P len
       else State_Monad.return (True, []) }"

section \<open>Commands\<close>

definition store_out :: "nat \<Rightarrow> bytes \<Rightarrow> memref list \<Rightarrow> memref list" where
  "store_out i d ps = ps[i := (ps ! i)\<lparr>mbuf := splice 0 d (mbuf (ps ! i))\<rparr>]"

definition set_out_size :: "nat \<Rightarrow> nat \<Rightarrow> memref list \<Rightarrow> memref list" where
  "set_out_size i n ps = ps[i := (ps ! i)\<lparr>msize := n\<rparr>]"

definition sensor_link_challenge ::
    "'e platform \<Rightarrow> ptype list \<Rightarrow> memref list \<Rightarrow> (('e, 'm) world_scheme, TEE_Result \<times> memref list) state" where
  "sensor_link_challenge P types params =
     (if types \<noteq> [PT_MEMREF_INPUT, PT_MEMREF_OUTPUT, PT_NONE, PT_NONE]
      then State_Monad.return (TEE_ERROR_BAD_PARAMETERS, params)
      else if msize (params ! 0) \<noteq> CHALLENGE_SIZE
      then State_Monad.return (TEE_ERROR_BAD_PARAMETERS, params)
      else if msize (params ! 1) < HMAC_SIZE
      then State_Monad.return (TEE_ERROR_SHORT_BUFFER, params)
      else do {
        sensor_uart_ensure_init P;
        write_frame P FRAME_CHALLENGE (take CHALLENGE_SIZE (mbuf (params ! 0)));
        (ok, got) \<leftarrow> read_frame P FRAME_CHALLENGE_RESPONSE (msize (params ! 1));
        let params = store_out 1 got params;
        if \<not> ok then State_Monad.return (TEE_ERROR_COMMUNICATION, params)
        else if length got \<noteq> HMAC_SIZE then State_Monad.return (TEE_ERROR_COMMUNICATION, params)
        else State_Monad.return (TEE_SUCCESS, set_out_size 1 (length got) params) })"

definition sensor_link_read ::
    "'e platform \<Rightarrow> ptype list \<Rightarrow> memref list \<Rightarrow> (('e, 'm) world_scheme, TEE_Result \<times> memref list) state" where
  "sensor_link_read P types params =
     (if types \<noteq> [PT_MEMREF_OUTPUT, PT_NONE, PT_NONE, PT_NONE]
      then State_Monad.return (TEE_ERROR_BAD_PARAMETERS, params)
      else if msize (params ! 0) < LINK_READING_MAX
      then State_Monad.return (TEE_ERROR_SHORT_BUFFER, params)
      else do {
        sensor_uart_ensure_init P;
        (ok, got) \<leftarrow> read_frame P FRAME_READING (msize (params ! 0));
        let params = store_out 0 got params;
        if \<not> ok then State_Monad.return (TEE_ERROR_COMMUNICATION, params)
        else State_Monad.return (TEE_SUCCESS, set_out_size 0 (length got) params) })"

text \<open>The bounce buffer is local: the caller's buffer is written on success only.\<close>

definition sensor_link_fetch_secret ::
    "'e platform \<Rightarrow> ptype list \<Rightarrow> memref list \<Rightarrow> (('e, 'm) world_scheme, TEE_Result \<times> memref list) state" where
  "sensor_link_fetch_secret P types params =
     (if types \<noteq> [PT_MEMREF_OUTPUT, PT_NONE, PT_NONE, PT_NONE]
      then State_Monad.return (TEE_ERROR_BAD_PARAMETERS, params)
      else if msize (params ! 0) < LINK_SECRET_SIZE
      then State_Monad.return (TEE_ERROR_SHORT_BUFFER, params)
      else do {
        sensor_uart_ensure_init P;
        write_frame P FRAME_SECRET_REQUEST [];
        (ok, buf) \<leftarrow> read_frame P FRAME_SECRET LINK_SECRET_SIZE;
        if \<not> ok then State_Monad.return (TEE_ERROR_COMMUNICATION, params)
        else if length buf = 0 then State_Monad.return (TEE_ERROR_ACCESS_DENIED, params)
        else if length buf \<noteq> LINK_SECRET_SIZE then State_Monad.return (TEE_ERROR_COMMUNICATION, params)
        else State_Monad.return
          (TEE_SUCCESS, set_out_size 0 LINK_SECRET_SIZE (store_out 0 buf params)) })"

section \<open>Session open and dispatch\<close>

definition SENSOR_LINK_ALLOWED_CALLER_UUID :: bytes where
  "SENSOR_LINK_ALLOWED_CALLER_UUID =
     [0x7d, 0x9f, 0x6d, 0x20, 0x5f, 0x11, 0x4d, 0x0c,
      0x9a, 0x17, 0x61, 0xc9, 0xc9, 0x1c, 0x00, 0x01]"

text \<open>\<open>ts_get_calling_session()\<close>: the caller's session, with its context.\<close>

record ts_caller =
  is_user_ta :: bool
  caller_uuid :: bytes

definition open_session :: "ts_caller option \<Rightarrow> TEE_Result" where
  "open_session caller =
     (case caller of
        None \<Rightarrow> TEE_ERROR_ACCESS_DENIED
      | Some s \<Rightarrow>
          if \<not> is_user_ta s then TEE_ERROR_ACCESS_DENIED
          else if caller_uuid s \<noteq> SENSOR_LINK_ALLOWED_CALLER_UUID then TEE_ERROR_ACCESS_DENIED
          else TEE_SUCCESS)"

definition PTA_CMD_CHALLENGE :: nat where [simp]: "PTA_CMD_CHALLENGE = 0"
definition PTA_CMD_READ :: nat where [simp]: "PTA_CMD_READ = 1"
definition PTA_CMD_FETCH_SECRET :: nat where [simp]: "PTA_CMD_FETCH_SECRET = 2"

definition invoke_command ::
    "'e platform \<Rightarrow> nat \<Rightarrow> ptype list \<Rightarrow> memref list \<Rightarrow> (('e, 'm) world_scheme, TEE_Result \<times> memref list) state" where
  "invoke_command P cmd_id types params =
     (if cmd_id = PTA_CMD_CHALLENGE then sensor_link_challenge P types params
      else if cmd_id = PTA_CMD_READ then sensor_link_read P types params
      else if cmd_id = PTA_CMD_FETCH_SECRET then sensor_link_fetch_secret P types params
      else State_Monad.return (TEE_ERROR_NOT_IMPLEMENTED, params))"

section \<open>What the reads guarantee\<close>

text \<open>
  Whatever the UART delivers, a read stores at most \<open>len\<close> bytes, exactly \<open>len\<close> when it
  reports success, and never sleeps past the time-out; when it fails it has slept for all of it.
\<close>

lemma uart_read_loop_bounds:
  assumes "run_state (uart_read_loop P len got w) s = ((ok, bs), t)"
    and "length got \<le> len" "w \<le> READ_TIMEOUT_MS"
  shows "length bs \<le> len \<and> (ok \<longleftrightarrow> length bs = len) \<and>
    waited s \<le> waited t \<and> waited t + w \<le> waited s + READ_TIMEOUT_MS \<and>
    (\<not> ok \<longrightarrow> waited t + w = waited s + READ_TIMEOUT_MS) \<and>
    world.more t = world.more s \<and> uart_ready t = uart_ready s \<and>
    (\<exists>new. bs = got @ new \<and> wire t = wire s @ received new)"
  using assms
proof (induction P len got w arbitrary: s rule: uart_read_loop.induct)
  case (1 P len got w)
  show ?case
  proof (cases "length got < len")
    case False
    with "1.prems" show ?thesis by (auto simp: uart_read_loop.simps [of P len got])
  next
    case len: True
    let ?s1 = "s\<lparr>ext := snd (p_uart_have_rx P (ext s))\<rparr>"
    show ?thesis
    proof (cases "fst (p_uart_have_rx P (ext s))")
      case True
      let ?c = "fst (p_uart_getchar P (ext ?s1))"
      let ?s2 = "?s1\<lparr>ext := snd (p_uart_getchar P (ext ?s1)), wire := wire s @ [Received ?c]\<rparr>"
      from "1.prems"(1) len True
      have "run_state (uart_read_loop P len (got @ [?c]) w) ?s2 = ((ok, bs), t)"
        by (simp add: uart_read_loop.simps [of P len got] uart_getchar_def)
      note ih = "1.IH"(1) [OF len True this]
      then obtain new where new: "bs = (got @ [?c]) @ new" "wire t = wire ?s2 @ received new"
        using len "1.prems"(3) by auto
      have "bs = got @ (?c # new)" "wire t = wire s @ received (?c # new)"
        using new by simp_all
      then have "\<exists>new. bs = got @ new \<and> wire t = wire s @ received new" by blast
      with ih len "1.prems"(3) show ?thesis by simp
    next
      case norx: False
      show ?thesis
      proof (cases "READ_TIMEOUT_MS \<le> w")
        case True
        with "1.prems" len norx show ?thesis
          by (auto simp: uart_read_loop.simps [of P len got])
      next
        case False
        let ?s2 = "?s1\<lparr>ext := p_mdelay P POLL_STEP_MS (ext ?s1), waited := waited s + POLL_STEP_MS\<rparr>"
        from "1.prems"(1) len norx False
        have "run_state (uart_read_loop P len got (w + POLL_STEP_MS)) ?s2 = ((ok, bs), t)"
          by (simp add: uart_read_loop.simps [of P len got] mdelay_def)
        from "1.IH"(2) [of False, OF len _ _ this] norx False len show ?thesis
          by (simp; linarith)
      qed
    qed
  qed
qed

lemma uart_read_bounds:
  assumes "run_state (uart_read P len) s = ((ok, bs), t)"
  shows "length bs \<le> len" "ok \<longleftrightarrow> length bs = len"
    "waited s \<le> waited t" "waited t \<le> waited s + READ_TIMEOUT_MS"
    "\<not> ok \<Longrightarrow> waited t = waited s + READ_TIMEOUT_MS"
    "world.more t = world.more s" "wire t = wire s @ received bs"
  using uart_read_loop_bounds [OF assms [unfolded uart_read_def]] by simp_all

text \<open>With the bytes already queued the read takes exactly them, without sleeping.\<close>

lemma uart_read_loop_queued:
  assumes "uart_queue P rx" "len - length got \<le> length (rx (ext s))" "length got \<le> len"
  shows "\<exists>t. run_state (uart_read_loop P len got w) s =
      ((True, got @ take (len - length got) (rx (ext s))), t) \<and>
    rx (ext t) = drop (len - length got) (rx (ext s)) \<and> waited t = waited s \<and>
    world.more t = world.more s \<and> uart_ready t = uart_ready s"
  using assms
proof (induction P len got w arbitrary: s rule: uart_read_loop.induct)
  case (1 P len got w)
  show ?case
  proof (cases "length got < len")
    case False
    with "1.prems" show ?thesis by (simp add: uart_read_loop.simps [of P len got])
  next
    case len: True
    from len "1.prems"(2) obtain c cs where rx: "rx (ext s) = c # cs"
      by (cases "rx (ext s)") auto
    define s2 where "s2 = s\<lparr>ext := snd (p_uart_getchar P (snd (p_uart_have_rx P (ext s)))), wire := wire s @ [Received c]\<rparr>"
    have hv: "fst (p_uart_have_rx P (ext s))"
      and c: "fst (p_uart_getchar P (snd (p_uart_have_rx P (ext s)))) = c"
      and rx2: "rx (ext s2) = cs"
      using "1.prems"(1) rx by (simp_all add: uart_queue_def s2_def)
    have frame: "waited s2 = waited s" "world.more s2 = world.more s"
      "uart_ready s2 = uart_ready s"
      by (simp_all add: s2_def)
    have step: "run_state (uart_read_loop P len got w) s = run_state (uart_read_loop P len (got @ [c]) w) s2"
      using len hv c by (simp add: uart_read_loop.simps [of P len got] uart_getchar_def s2_def)
    from len obtain k where k: "len - length got = Suc k" "len - length (got @ [c]) = k"
      by (cases "len - length got") simp_all
    have fits: "len - length (got @ [c]) \<le> length (rx (ext s2))"
      using "1.prems"(2) rx rx2 k by simp
    from "1.IH"(1) [of True c s2, OF len _ "1.prems"(1) fits] len
    obtain t where "run_state (uart_read_loop P len (got @ [c]) w) s2 =
        ((True, (got @ [c]) @ take k cs), t) \<and> rx (ext t) = drop k cs \<and> waited t = waited s2 \<and>
        world.more t = world.more s2 \<and> uart_ready t = uart_ready s2"
      unfolding k rx2 by auto
    then show ?thesis
      unfolding step rx k frame by (intro exI [of _ t]) simp
  qed
qed

lemma uart_read_queued:
  assumes "uart_queue P rx" "len \<le> length (rx (ext s))"
  shows "\<exists>t. run_state (uart_read P len) s = ((True, take len (rx (ext s))), t) \<and>
    rx (ext t) = drop len (rx (ext s)) \<and> waited t = waited s \<and> world.more t = world.more s \<and>
    uart_ready t = uart_ready s"
  using uart_read_loop_queued [OF assms(1), of len "[]" s 0] assms(2)
  by (auto simp: uart_read_def)

section \<open>What the frames guarantee\<close>

lemma uart_put_all_run:
  "run_state (uart_put_all P bs) s = (u, t) \<Longrightarrow> wire t = wire s @ sent bs \<and>
     waited t = waited s \<and> uart_ready t = uart_ready s \<and> world.more t = world.more s"
proof (induction bs arbitrary: s)
  case Nil
  then show ?case by simp
next
  case (Cons b bs)
  let ?s1 = "s\<lparr>ext := p_uart_putc P b (ext s), wire := wire s @ [Sent b]\<rparr>"
  from Cons.prems have "run_state (uart_put_all P bs) ?s1 = (u, t)"
    by (simp add: uart_putc_def)
  from Cons.IH [OF this] show ?case by simp
qed

lemma uart_write_run:
  assumes "run_state (uart_write P bs) s = (u, t)"
  shows "wire t = wire s @ sent bs \<and> waited t = waited s \<and> uart_ready t = uart_ready s \<and>
    world.more t = world.more s"
proof -
  obtain v s1 where 1: "run_state (uart_put_all P bs) s = (v, s1)"
    by (metis prod.exhaust)
  with assms have "t = s1\<lparr>ext := p_uart_flush P (ext s1)\<rparr>"
    by (simp add: uart_write_def)
  with uart_put_all_run [OF 1] show ?thesis by simp
qed

text \<open>A frame is on the wire as header and payload, and nothing else changes.\<close>

lemma write_frame_run:
  assumes "run_state (write_frame P ty p) s = (u, t)"
  shows "wire t = wire s @ sent (encode_frame ty p) \<and> waited t = waited s \<and>
    uart_ready t = uart_ready s \<and> world.more t = world.more s"
proof -
  obtain v s1 where 1: "run_state (uart_write P (frame_header ty (of_nat (length p)))) s = (v, s1)"
    by (metis prod.exhaust)
  note h = uart_write_run [OF 1]
  show ?thesis
  proof (cases "p = []")
    case True
    with assms 1 h show ?thesis by (simp add: write_frame_def encode_frame_def)
  next
    case False
    with assms 1 have 2: "run_state (uart_write P p) s1 = (u, t)"
      by (simp add: write_frame_def)
    from uart_write_run [OF 2] h show ?thesis by (simp add: encode_frame_def)
  qed
qed

lemma ensure_init_run:
  assumes "run_state (sensor_uart_ensure_init P) s = (u, t)"
  shows "uart_ready t \<and> wire t = wire s \<and> waited t = waited s \<and> world.more t = world.more s"
  using assms by (auto simp: sensor_uart_ensure_init_def split: if_splits)

text \<open>
  No frame a sensor can send makes the PTA store more than the caller's buffer holds,
  or more than 256 bytes.
\<close>

text \<open>
  All a read takes off the wire is recorded; when it succeeds that is one whole frame of
  the wanted type with the returned payload.
\<close>

lemma read_frame_bounds:
  assumes "run_state (read_frame P ty cap) s = ((ok, bs), t)"
  shows "length bs \<le> cap" "length bs \<le> LINK_READING_MAX"
    "waited t \<le> waited s + 2 * READ_TIMEOUT_MS" "world.more t = world.more s"
    "\<exists>rx. wire t = wire s @ received rx"
    "ok \<Longrightarrow> wire t = wire s @ received (encode_frame ty bs)"
proof -
  obtain ok1 hdr s1 where 1: "run_state (uart_read P FRAME_HDR_SIZE) s = ((ok1, hdr), s1)"
    by (metis prod.exhaust)
  note b1 = uart_read_bounds [OF 1]
  have "length bs \<le> cap \<and> length bs \<le> LINK_READING_MAX \<and> waited t \<le> waited s + 2 * READ_TIMEOUT_MS \<and>
    world.more t = world.more s \<and> (\<exists>rx. wire t = wire s @ received rx) \<and>
    (ok \<longrightarrow> wire t = wire s @ received (encode_frame ty bs))"
  proof (cases "ok1 \<and> hdr ! 0 = ty \<and> unat (frame_length hdr) \<le> LINK_READING_MAX \<and>
      unat (frame_length hdr) \<le> cap")
    case True
    with b1(2) have hdr: "frame_header ty (frame_length hdr) = hdr"
      using frame_header_decode [of hdr] by auto
    show ?thesis
    proof (cases "unat (frame_length hdr) = 0")
      case zero: True
      then have "frame_length hdr = 0" by (simp add: unat_eq_0)
      with assms 1 True have "bs = []" "t = s1" and h0: "frame_header ty 0 = hdr"
        using hdr by (simp_all add: read_frame_def)
      with b1 show ?thesis by (auto simp: encode_frame_def h0)
    next
      case False
      with assms 1 True have 2: "run_state (uart_read P (unat (frame_length hdr))) s1 = ((ok, bs), t)"
        by (simp add: read_frame_def)
      note b2 = uart_read_bounds [OF 2]
      have w: "wire t = wire s @ received (hdr @ bs)" using b1 b2 by simp
      have "ok \<Longrightarrow> encode_frame ty bs = hdr @ bs"
        using b2(2) hdr by (simp add: encode_frame_def)
      then have "ok \<longrightarrow> wire t = wire s @ received (encode_frame ty bs)"
        using w by simp
      moreover have "\<exists>rx. wire t = wire s @ received rx" using w by blast
      ultimately show ?thesis
        using b1(4,6) b2 True by simp
    qed
  next
    case False
    with assms 1 have "bs = []" "t = s1" "\<not> ok"
      by (auto simp: read_frame_def Let_def split: if_splits)
    with b1 show ?thesis by auto
  qed
  then show "length bs \<le> cap" "length bs \<le> LINK_READING_MAX"
    "waited t \<le> waited s + 2 * READ_TIMEOUT_MS" "world.more t = world.more s"
    "\<exists>rx. wire t = wire s @ received rx" "ok \<Longrightarrow> wire t = wire s @ received (encode_frame ty bs)" by simp_all
qed

text \<open>A queued frame of the wanted type is taken whole, and only it.\<close>

lemma read_frame_queued:
  assumes q: "uart_queue P rx" and rx: "rx (ext s) = encode_frame ty p @ rest"
    and len: "length p \<le> cap" "length p \<le> LINK_READING_MAX"
  shows "\<exists>t. run_state (read_frame P ty cap) s = ((True, p), t) \<and> rx (ext t) = rest \<and>
    waited t = waited s \<and> world.more t = world.more s \<and> uart_ready t = uart_ready s"
proof -
  let ?h = "frame_header ty (of_nat (length p))"
  have "FRAME_HDR_SIZE \<le> length (rx (ext s))" by (simp add: rx)
  from uart_read_queued [OF q this] obtain s1 where
    1: "run_state (uart_read P FRAME_HDR_SIZE) s = ((True, ?h), s1)" and
    r1: "rx (ext s1) = p @ rest" and
    f1: "waited s1 = waited s" "world.more s1 = world.more s" "uart_ready s1 = uart_ready s"
    by (auto simp: rx encode_frame_def)
  have l: "unat (of_nat (length p) :: u16) = length p"
    using len by (simp add: unat_frame_len)
  show ?thesis
  proof (cases "p = []")
    case True
    with 1 r1 f1 show ?thesis by (auto simp: read_frame_def)
  next
    case False
    have "length p \<le> length (rx (ext s1))" by (simp add: r1)
    from uart_read_queued [OF q this] obtain t where
      "run_state (uart_read P (length p)) s1 = ((True, p), t)" "rx (ext t) = rest"
      "waited t = waited s1" "world.more t = world.more s1" "uart_ready t = uart_ready s1"
      by (auto simp: r1)
    with 1 f1 False l len show ?thesis by (auto simp: read_frame_def)
  qed
qed

text \<open>
  A queued frame of another type is refused after its header has been taken: its payload
  stays in the stream, where the next read takes it for a header.
\<close>

lemma read_frame_wrong_type:
  assumes q: "uart_queue P rx" and rx: "rx (ext s) = encode_frame ty' p @ rest" and ty: "ty' \<noteq> ty"
  shows "\<exists>t. run_state (read_frame P ty cap) s = ((False, []), t) \<and> rx (ext t) = p @ rest \<and>
    world.more t = world.more s"
proof -
  have "FRAME_HDR_SIZE \<le> length (rx (ext s))" by (simp add: rx)
  from uart_read_queued [OF q this] ty show ?thesis
    by (auto simp: rx encode_frame_def read_frame_def)
qed

section \<open>What the commands guarantee\<close>

text \<open>A parameter whose size does not exceed its buffer, as the caller must pass it.\<close>

definition memref_ok :: "memref \<Rightarrow> bool" where
  "memref_ok m \<longleftrightarrow> msize m \<le> length (mbuf m)"

text \<open>A command stays inside the first \<open>msize\<close> bytes of every buffer it was given.\<close>

definition inside :: "memref list \<Rightarrow> memref list \<Rightarrow> bool" where
  "inside ps qs \<longleftrightarrow> length qs = length ps \<and>
     (\<forall>i < length ps. length (mbuf (qs ! i)) = length (mbuf (ps ! i)) \<and>
        drop (msize (ps ! i)) (mbuf (qs ! i)) = drop (msize (ps ! i)) (mbuf (ps ! i)))"

lemma inside_refl [simp]: "inside ps ps"
  by (simp add: inside_def)

lemma inside_set_out_size [simp]: "inside ps (set_out_size i n qs) = inside ps qs"
  by (auto simp: inside_def set_out_size_def nth_update_if)

lemma inside_store_out:
  assumes "list_all memref_ok ps" "length d \<le> msize (ps ! i)"
  shows "inside ps (store_out i d ps)"
proof (cases "i < length ps")
  case True
  with assms have "msize (ps ! i) \<le> length (mbuf (ps ! i))"
    by (simp add: list_all_length memref_ok_def)
  with assms(2) show ?thesis
    by (auto simp: inside_def store_out_def nth_update_if splice_def)
next
  case False
  then show ?thesis by (simp add: store_out_def list_update_beyond)
qed

lemma sensor_link_challenge_spec:
  assumes run: "run_state (sensor_link_challenge P types ps) s = ((res, qs), t)"
    and ok: "list_all memref_ok ps"
  shows "inside ps qs \<and> world.more t = world.more s \<and> waited t \<le> waited s + 2 * READ_TIMEOUT_MS \<and>
    (res = TEE_SUCCESS \<longrightarrow> (\<exists>resp. length resp = HMAC_SIZE \<and> qs = set_out_size 1 HMAC_SIZE (store_out 1 resp ps) \<and>
       wire t = wire s @ sent (encode_frame FRAME_CHALLENGE (take CHALLENGE_SIZE (mbuf (ps ! 0)))) @
         received (encode_frame FRAME_CHALLENGE_RESPONSE resp)))"
proof (cases "types = [PT_MEMREF_INPUT, PT_MEMREF_OUTPUT, PT_NONE, PT_NONE] \<and>
    msize (ps ! 0) = CHALLENGE_SIZE \<and> HMAC_SIZE \<le> msize (ps ! 1)")
  case False
  with run show ?thesis by (auto simp: sensor_link_challenge_def Let_def split: if_splits)
next
  case True
  obtain u s1 v s2 okf got s3 where
    1: "run_state (sensor_uart_ensure_init P) s = (u, s1)" and
    2: "run_state (write_frame P FRAME_CHALLENGE (take CHALLENGE_SIZE (mbuf (ps ! 0)))) s1 = (v, s2)" and
    3: "run_state (read_frame P FRAME_CHALLENGE_RESPONSE (msize (ps ! 1))) s2 = ((okf, got), s3)"
    by (metis prod.exhaust)
  note facts = ensure_init_run [OF 1] write_frame_run [OF 2] read_frame_bounds [OF 3]
  from run True 1 2 3 have res: "t = s3"
    "res = (if okf \<and> length got = HMAC_SIZE then TEE_SUCCESS else TEE_ERROR_COMMUNICATION)"
    "qs = (if okf \<and> length got = HMAC_SIZE then set_out_size 1 HMAC_SIZE (store_out 1 got ps)
           else store_out 1 got ps)"
    by (auto simp: sensor_link_challenge_def Let_def split: if_splits)
  have "inside ps (store_out 1 got ps)"
    using ok facts by (simp add: inside_store_out)
  with res facts show ?thesis by auto
qed

lemma sensor_link_read_spec:
  assumes run: "run_state (sensor_link_read P types ps) s = ((res, qs), t)"
    and ok: "list_all memref_ok ps"
  shows "inside ps qs \<and> world.more t = world.more s \<and> waited t \<le> waited s + 2 * READ_TIMEOUT_MS \<and>
    (\<exists>rx. wire t = wire s @ received rx) \<and>
    (res = TEE_SUCCESS \<longrightarrow> (\<exists>got. length got \<le> LINK_READING_MAX \<and> qs = set_out_size 0 (length got) (store_out 0 got ps) \<and>
       wire t = wire s @ received (encode_frame FRAME_READING got)))"
proof (cases "types = [PT_MEMREF_OUTPUT, PT_NONE, PT_NONE, PT_NONE] \<and> LINK_READING_MAX \<le> msize (ps ! 0)")
  case False
  with run show ?thesis by (auto simp: sensor_link_read_def Let_def split: if_splits)
next
  case True
  obtain u s1 okf got s3 where
    1: "run_state (sensor_uart_ensure_init P) s = (u, s1)" and
    3: "run_state (read_frame P FRAME_READING (msize (ps ! 0))) s1 = ((okf, got), s3)"
    by (metis prod.exhaust)
  note facts = ensure_init_run [OF 1] read_frame_bounds [OF 3]
  from run True 1 3 have res: "t = s3"
    "res = (if okf then TEE_SUCCESS else TEE_ERROR_COMMUNICATION)"
    "qs = (if okf then set_out_size 0 (length got) (store_out 0 got ps) else store_out 0 got ps)"
    by (auto simp: sensor_link_read_def Let_def split: if_splits)
  have "inside ps (store_out 0 got ps)"
    using ok facts by (simp add: inside_store_out)
  with res facts show ?thesis by auto
qed

lemma sensor_link_fetch_secret_spec:
  assumes run: "run_state (sensor_link_fetch_secret P types ps) s = ((res, qs), t)"
    and ok: "list_all memref_ok ps"
  shows "inside ps qs \<and> world.more t = world.more s \<and> waited t \<le> waited s + 2 * READ_TIMEOUT_MS \<and>
    (res \<noteq> TEE_SUCCESS \<longrightarrow> qs = ps) \<and>
    (res = TEE_SUCCESS \<longrightarrow> (\<exists>k. length k = LINK_SECRET_SIZE \<and> qs = set_out_size 0 LINK_SECRET_SIZE (store_out 0 k ps) \<and>
       wire t = wire s @ sent (encode_frame FRAME_SECRET_REQUEST []) @ received (encode_frame FRAME_SECRET k)))"
proof (cases "types = [PT_MEMREF_OUTPUT, PT_NONE, PT_NONE, PT_NONE] \<and> LINK_SECRET_SIZE \<le> msize (ps ! 0)")
  case False
  with run show ?thesis by (auto simp: sensor_link_fetch_secret_def Let_def split: if_splits)
next
  case True
  obtain u s1 v s2 okf got s3 where
    1: "run_state (sensor_uart_ensure_init P) s = (u, s1)" and
    2: "run_state (write_frame P FRAME_SECRET_REQUEST []) s1 = (v, s2)" and
    3: "run_state (read_frame P FRAME_SECRET LINK_SECRET_SIZE) s2 = ((okf, got), s3)"
    by (metis prod.exhaust)
  note facts = ensure_init_run [OF 1] write_frame_run [OF 2] read_frame_bounds [OF 3]
  from run True 1 2 3 have res: "t = s3"
    "res = (if \<not> okf then TEE_ERROR_COMMUNICATION else if length got = 0 then TEE_ERROR_ACCESS_DENIED
            else if length got \<noteq> LINK_SECRET_SIZE then TEE_ERROR_COMMUNICATION else TEE_SUCCESS)"
    "qs = (if okf \<and> length got = LINK_SECRET_SIZE then set_out_size 0 LINK_SECRET_SIZE (store_out 0 got ps) else ps)"
    by (auto simp: sensor_link_fetch_secret_def Let_def split: if_splits)
  have "inside ps (store_out 0 got ps)" if "length got = LINK_SECRET_SIZE"
    using ok that True by (simp add: inside_store_out)
  with res facts show ?thesis by auto
qed

section \<open>Storage is untouched\<close>

lemma seals_uart [effect_intros]:
  assumes "seals V P"
  shows "bounded (sealed_le V) (ext_op (\<lambda>e. ((), p_uart_init P e)))"
    "bounded (sealed_le V) (ext_op (\<lambda>e. ((), p_uart_putc P b e)))"
    "bounded (sealed_le V) (ext_op (\<lambda>e. ((), p_uart_flush P e)))"
    "bounded (sealed_le V) (ext_op (p_uart_have_rx P))"
    "bounded (sealed_le V) (ext_op (p_uart_getchar P))"
    "bounded (sealed_le V) (ext_op (\<lambda>e. ((), p_mdelay P n e)))"
  using assms by (simp_all add: seals_def sealed_le_ext_op)

lemma seals_uart_write [effect_intros]:
  assumes "seals V P"
  shows "bounded (sealed_le V) (uart_write P bs)"
proof -
  have "bounded (sealed_le V) (uart_put_all P bs)"
    by (induction bs)
      (auto simp: uart_putc_def intro!: sealed.bounded_rules seals_uart sealed_le_modify assms)
  then show ?thesis
    unfolding uart_write_def by (auto intro!: sealed.bounded_rules seals_uart assms)
qed

lemma seals_uart_read_loop:
  assumes "seals V P"
  shows "bounded (sealed_le V) (uart_read_loop P len got w)"
  using assms
proof (induction P len got w rule: uart_read_loop.induct)
  case (1 P len got w)
  show ?case
    unfolding uart_read_loop.simps [of P len got w] mdelay_def uart_getchar_def
    by (auto intro!: sealed.bounded_rules seals_uart sealed_le_modify "1.IH" "1.prems")
qed

lemma seals_frames [effect_intros]:
  assumes "seals V P"
  shows "bounded (sealed_le V) (sensor_uart_ensure_init P)"
    "bounded (sealed_le V) (write_frame P ty p)"
    "bounded (sealed_le V) (read_frame P ty cap)"
  unfolding sensor_uart_ensure_init_def write_frame_def read_frame_def uart_read_def Let_def
  by (auto intro!: sealed.bounded_rules seals_uart seals_uart_write seals_uart_read_loop
      sealed_le_modify assms)

lemma seals_invoke_command [effect_intros]:
  assumes "seals V P"
  shows "bounded (sealed_le V) (invoke_command P cmd types ps)"
  unfolding invoke_command_def sensor_link_challenge_def sensor_link_read_def
    sensor_link_fetch_secret_def Let_def
  by (auto intro!: sealed.bounded_rules seals_frames assms)

end
