(* ===== verification/TaSession.thy ===== *)
theory TaSession
  imports Protocol SensorLinkPta
begin

text \<open>
  The session of the confidential_iot TA (trusted_app.h), its entry points for opening
  and closing, the cached session to the sensor_link PTA and the calls that go through
  it, and the fixed-width reading of key coordinates. The section "Contracts" states the
  calls as rules: what a caller may assume after each.
\<close>

section \<open>State\<close>

text \<open>A handle to an open session of the PTA is opaque: \<open>None\<close> is \<open>TEE_HANDLE_NULL\<close>.\<close>

record ta_session =
  ecdh_keypair :: "ec_key option"
  session_key :: bytes
  session_key_valid :: bool
  sensor_authenticated :: bool
  send_seq :: u64
  reading :: bytes
  reading_len :: nat
  sensor_pta_sess :: "unit option"
  sensor_pta_open :: bool

record 'e ta_state = "'e tee_world" +
  sess :: ta_session

type_synonym ('e, 'a) ta = "('e ta_state, 'a) state"

definition get_sess :: "(ta_session \<Rightarrow> 'a) \<Rightarrow> ('e, 'a) ta" where
  "get_sess f = gets (\<lambda>s. f (sess s))"

definition upd_sess :: "(ta_session \<Rightarrow> ta_session) \<Rightarrow> ('e, unit) ta" where
  "upd_sess f = modify (\<lambda>s. s\<lparr>sess := f (sess s)\<rparr>)"

text \<open>All bytes zero: what \<open>TEE_MALLOC_FILL_ZERO\<close> gives and the wipe on close leaves.\<close>

definition zero_session :: ta_session where
  "zero_session =
     \<lparr>ecdh_keypair = None, session_key = zeros SESSION_KEY_SIZE, session_key_valid = False,
      sensor_authenticated = False, send_seq = 0, reading = zeros READING_MAX, reading_len = 0,
      sensor_pta_sess = None, sensor_pta_open = False\<rparr>"

definition TA_OpenSessionEntryPoint :: "'e platform \<Rightarrow> ('e, TEE_Result) ta" where
  "TA_OpenSessionEntryPoint P = do {
     res \<leftarrow> tee_call P MallocSession;
     if res \<noteq> TEE_SUCCESS then State_Monad.return TEE_ERROR_OUT_OF_MEMORY
     else do {
       upd_sess (\<lambda>_. zero_session
         \<lparr>ecdh_keypair := None, session_key_valid := False, sensor_authenticated := False,
          send_seq := 0, sensor_pta_sess := None, sensor_pta_open := False\<rparr>);
       State_Monad.return TEE_SUCCESS } }"

definition close_ta_session :: "('e, unit) ta" where
  "close_ta_session = modify (\<lambda>s. s\<lparr>n_sessions := n_sessions s - 1\<rparr>)"

definition TA_CloseSessionEntryPoint :: "('e, unit) ta" where
  "TA_CloseSessionEntryPoint = do {
     kp \<leftarrow> get_sess ecdh_keypair;
     (if kp \<noteq> None then free_object True else State_Monad.return ());
     opened \<leftarrow> get_sess sensor_pta_open;
     (if opened then close_ta_session else State_Monad.return ());
     upd_sess (\<lambda>_. zero_session) }"

section \<open>Key coordinates\<close>

definition read_ec_coordinate ::
    "'e platform \<Rightarrow> attribute \<Rightarrow> ec_key \<Rightarrow> ('e, TEE_Result \<times> bytes) ta" where
  "read_ec_coordinate P attr_id obj = do {
     (res, tmp) \<leftarrow> get_attribute P attr_id (ec_attr attr_id obj) 32;
     if res \<noteq> TEE_SUCCESS then State_Monad.return (res, [])
     else if length tmp > 32 then State_Monad.return (TEE_ERROR_BAD_FORMAT, [])
     else State_Monad.return (TEE_SUCCESS, splice (32 - length tmp) tmp (zeros 32)) }"

section \<open>The sensor_link PTA\<close>

definition TA_CONFIDENTIAL_IOT_UUID :: bytes where
  "TA_CONFIDENTIAL_IOT_UUID =
     [0x7d, 0x9f, 0x6d, 0x20, 0x5f, 0x11, 0x4d, 0x0c,
      0x9a, 0x17, 0x61, 0xc9, 0xc9, 0x1c, 0x00, 0x01]"

text \<open>
  \<open>TEE_OpenTASession\<close> reaches the PTA's session entry point with this TA as the calling
  session, unless the core fails the call before that.
\<close>

definition open_ta_session :: "'e platform \<Rightarrow> ('e, TEE_Result) ta" where
  "open_ta_session P = do {
     res \<leftarrow> tee_call P OpenTASession;
     let res = (if res = TEE_SUCCESS
       then open_session (Some \<lparr>is_user_ta = True, caller_uuid = TA_CONFIDENTIAL_IOT_UUID\<rparr>)
       else res);
     modify (\<lambda>s. if res = TEE_SUCCESS then s\<lparr>n_sessions := Suc (n_sessions s)\<rparr> else s);
     State_Monad.return res }"

definition open_sensor_pta :: "'e platform \<Rightarrow> ('e, TEE_Result) ta" where
  "open_sensor_pta P = do {
     opened \<leftarrow> get_sess sensor_pta_open;
     if opened then State_Monad.return TEE_SUCCESS
     else do {
       res \<leftarrow> open_ta_session P;
       if res \<noteq> TEE_SUCCESS then State_Monad.return res
       else do {
         upd_sess (\<lambda>x. x\<lparr>sensor_pta_sess := Some (), sensor_pta_open := True\<rparr>);
         State_Monad.return TEE_SUCCESS } } }"

definition invoke_sensor_pta ::
    "'e platform \<Rightarrow> nat \<Rightarrow> ptype list \<Rightarrow> memref list \<Rightarrow> ('e, TEE_Result \<times> memref list) ta" where
  "invoke_sensor_pta P cmd types params = do {
     res \<leftarrow> tee_call P (InvokeTACommand cmd);
     if res \<noteq> TEE_SUCCESS then State_Monad.return (res, params)
     else invoke_command P cmd types params }"

text \<open>A \<open>memset\<close> parameter block: no buffer, size zero.\<close>

abbreviation no_memref :: memref where
  "no_memref \<equiv> \<lparr>mbuf = [], msize = 0\<rparr>"

section \<open>Contracts\<close>

text \<open>
  The laws of a platform under which the contracts hold: storage keeps what is sealed,
  shared buffers keep their sizes, and the cryptographic calls return values of the
  documented sizes.
\<close>

definition platform_laws :: "'e storage_view \<Rightarrow> 'e platform \<Rightarrow> bool" where
  "platform_laws V P \<longleftrightarrow> storage_laws V P \<and> host_keeps_sizes P \<and> crypto_sizes P"

lemma platform_laws_D:
  assumes "platform_laws V P"
  shows "storage_laws V P" "seals V P" "host_keeps_sizes P" "crypto_sizes P"
  using assms by (simp_all add: platform_laws_def storage_laws_def)

lemma wp_get_sess [simp, wp_simps]: "wp (get_sess f) Q s = Q (f (sess s)) s"
  by (simp add: get_sess_def)

lemma wp_upd_sess [simp, wp_simps]: "wp (upd_sess f) Q s = Q () (s\<lparr>sess := f (sess s)\<rparr>)"
  by (simp add: upd_sess_def)

lemma wp_free_object [simp, wp_simps]:
  "wp (free_object live) Q s = Q () (if live then s\<lparr>n_objects := n_objects s - 1\<rparr> else s)"
  by (simp add: free_object_def)

lemma wp_free_operation [simp, wp_simps]:
  "wp (free_operation live) Q s = Q () (if live then s\<lparr>n_operations := n_operations s - 1\<rparr> else s)"
  by (simp add: free_operation_def)

lemma wp_close_object [simp, wp_simps]:
  "wp close_object Q s = Q () (s\<lparr>n_persistent := n_persistent s - 1\<rparr>)"
  by (simp add: close_object_def)

lemma wp_get_size [simp, wp_simps]: "wp (get_size i) Q s = Q (psize s ! i) s"
  by (simp add: get_size_def)

lemma wp_set_size [simp, wp_simps]: "wp (set_size i n) Q s = Q () (s\<lparr>psize := (psize s)[i := n]\<rparr>)"
  by (simp add: set_size_def)

lemma wp_set_value [simp, wp_simps]: "wp (set_value i a b) Q s = Q () (s\<lparr>pvalue := (pvalue s)[i := (a, b)]\<rparr>)"
  by (simp add: set_value_def)

named_theorems contracts "what a caller may assume after a call"

lemma wp_tee_call [contracts]:
  assumes "platform_laws V P"
    and "\<And>res e. V (ext s) \<subseteq>\<^sub>m V e \<Longrightarrow> Q res (s\<lparr>ext := e\<rparr>)"
  shows "wp (tee_call P c) Q s"
  using assms platform_laws_D(2) [OF assms(1)] by (simp add: tee_call_def seals_def)

lemma wp_alloc_object [contracts]:
  assumes "platform_laws V P"
    and "\<And>e. V (ext s) \<subseteq>\<^sub>m V e \<Longrightarrow> Q TEE_SUCCESS (s\<lparr>ext := e, n_objects := Suc (n_objects s)\<rparr>)"
    and "\<And>res e. V (ext s) \<subseteq>\<^sub>m V e \<Longrightarrow> res \<noteq> TEE_SUCCESS \<Longrightarrow> Q res (s\<lparr>ext := e\<rparr>)"
  shows "wp (alloc_object P ty bits) Q s"
  unfolding alloc_object_def wp_bind
  by (rule wp_tee_call [OF assms(1)]) (simp add: assms)

lemma wp_alloc_operation [contracts]:
  assumes "platform_laws V P"
    and "\<And>e. V (ext s) \<subseteq>\<^sub>m V e \<Longrightarrow> Q TEE_SUCCESS (s\<lparr>ext := e, n_operations := Suc (n_operations s)\<rparr>)"
    and "\<And>res e. V (ext s) \<subseteq>\<^sub>m V e \<Longrightarrow> res \<noteq> TEE_SUCCESS \<Longrightarrow> Q res (s\<lparr>ext := e\<rparr>)"
  shows "wp (alloc_operation P alg mode bits) Q s"
  unfolding alloc_operation_def wp_bind
  by (rule wp_tee_call [OF assms(1)]) (simp add: assms)

lemma wp_open_persistent [contracts]:
  assumes laws: "platform_laws V P"
    and "\<And>e. V (ext s) \<subseteq>\<^sub>m V e \<Longrightarrow> V (ext s) name \<noteq> None \<Longrightarrow>
      Q TEE_SUCCESS (s\<lparr>ext := e, n_persistent := Suc (n_persistent s)\<rparr>)"
    and "\<And>e. V (ext s) \<subseteq>\<^sub>m V e \<Longrightarrow> V (ext s) name = None \<Longrightarrow>
      Q TEE_ERROR_ITEM_NOT_FOUND (s\<lparr>ext := e\<rparr>)"
    and "\<And>res e. V (ext s) \<subseteq>\<^sub>m V e \<Longrightarrow> res \<noteq> TEE_SUCCESS \<Longrightarrow> res \<noteq> TEE_ERROR_ITEM_NOT_FOUND \<Longrightarrow>
      Q res (s\<lparr>ext := e\<rparr>)"
  shows "wp (open_persistent P name) Q s"
proof -
  let ?r = "fst (p_open P name (ext s))" and ?e = "snd (p_open P name (ext s))"
  from laws have "storage_laws V P" by (rule platform_laws_D)
  then have mono: "V (ext s) \<subseteq>\<^sub>m V ?e" and "?r = TEE_SUCCESS \<Longrightarrow> V (ext s) name \<noteq> None"
    and "?r = TEE_ERROR_ITEM_NOT_FOUND \<Longrightarrow> V (ext s) name = None"
    by (auto simp: storage_laws_def seals_def)
  with assms(2-4) show ?thesis
    by (cases "?r = TEE_SUCCESS"; cases "?r = TEE_ERROR_ITEM_NOT_FOUND")
      (simp_all add: open_persistent_def)
qed

lemma wp_read_object_data [contracts]:
  assumes laws: "platform_laws V P"
    and ok: "\<And>bs e. V (ext s) \<subseteq>\<^sub>m V e \<Longrightarrow> (\<And>c. V (ext s) name = Some c \<Longrightarrow> bs = take n c) \<Longrightarrow>
      Q (TEE_SUCCESS, bs) (s\<lparr>ext := e\<rparr>)"
    and fail: "\<And>res bs e. V (ext s) \<subseteq>\<^sub>m V e \<Longrightarrow> res \<noteq> TEE_SUCCESS \<Longrightarrow> Q (res, bs) (s\<lparr>ext := e\<rparr>)"
  shows "wp (read_object_data P name n) Q s"
proof -
  obtain r bs e where p: "p_read P name n (ext s) = ((r, bs), e)"
    by (metis prod.exhaust)
  from laws have st: "storage_laws V P" by (rule platform_laws_D)
  then have mono: "V (ext s) \<subseteq>\<^sub>m V e"
    unfolding storage_laws_def seals_def by (metis p snd_conv)
  have val: "bs = take n c" if "r = TEE_SUCCESS" "V (ext s) name = Some c" for c
    using st that p unfolding storage_laws_def by (metis fst_conv snd_conv)
  show ?thesis
    using ok [OF mono val] fail [OF mono] p
    by (cases "r = TEE_SUCCESS") (simp_all add: read_object_data_def)
qed

lemma wp_create_persistent [contracts]:
  assumes laws: "platform_laws V P"
    and flags: "TEE_DATA_FLAG_OVERWRITE \<notin> set flags"
    and ok: "\<And>e. V (ext s) \<subseteq>\<^sub>m V e \<Longrightarrow> V (ext s) name = None \<Longrightarrow> V e name = Some d \<Longrightarrow>
      Q TEE_SUCCESS (s\<lparr>ext := e, n_persistent := Suc (n_persistent s)\<rparr>)"
    and conflict: "\<And>e. V (ext s) \<subseteq>\<^sub>m V e \<Longrightarrow> V (ext s) name \<noteq> None \<Longrightarrow>
      Q TEE_ERROR_ACCESS_CONFLICT (s\<lparr>ext := e\<rparr>)"
    and fail: "\<And>res e. V (ext s) \<subseteq>\<^sub>m V e \<Longrightarrow> res \<noteq> TEE_SUCCESS \<Longrightarrow> res \<noteq> TEE_ERROR_ACCESS_CONFLICT \<Longrightarrow>
      Q res (s\<lparr>ext := e\<rparr>)"
  shows "wp (create_persistent P name flags d) Q s"
proof -
  let ?r = "fst (p_create P name flags d (ext s))" and ?e = "snd (p_create P name flags d (ext s))"
  from laws have "storage_laws V P" by (rule platform_laws_D)
  with flags have mono: "V (ext s) \<subseteq>\<^sub>m V ?e"
    and "?r = TEE_SUCCESS \<Longrightarrow> V (ext s) name = None \<and> V ?e name = Some d"
    and "?r = TEE_ERROR_ACCESS_CONFLICT \<Longrightarrow> V (ext s) name \<noteq> None"
    by (auto simp: storage_laws_def seals_def)
  with ok conflict fail show ?thesis
    by (cases "?r = TEE_SUCCESS"; cases "?r = TEE_ERROR_ACCESS_CONFLICT")
      (simp_all add: create_persistent_def)
qed

lemma wp_generate_random [contracts]:
  assumes laws: "platform_laws V P"
    and "\<And>r e. V (ext s) \<subseteq>\<^sub>m V e \<Longrightarrow> length r = n \<Longrightarrow> Q r (s\<lparr>ext := e\<rparr>)"
  shows "wp (generate_random P n) Q s"
  using assms(2) [of "snd (p_random P n (ext s))" "fst (p_random P n (ext s))"]
    platform_laws_D(2,4) [OF laws]
  by (simp add: generate_random_def seals_def crypto_sizes_def)

text \<open>The attributes of a P-256 key fit 32 bytes.\<close>

definition key_fits :: "ec_key \<Rightarrow> bool" where
  "key_fits k \<longleftrightarrow> length (ec_d k) \<le> 32 \<and> length (ec_x k) \<le> 32 \<and> length (ec_y k) \<le> 32"

text \<open>A pair the platform generated.\<close>

definition key_made :: "'e platform \<Rightarrow> ec_key \<Rightarrow> bool" where
  "key_made P k \<longleftrightarrow> (\<exists>e. fst (p_keypair P e) = (ec_d k, ec_x k, ec_y k))"

lemma wp_generate_key [contracts]:
  assumes laws: "platform_laws V P"
    and ok: "\<And>k e. V (ext s) \<subseteq>\<^sub>m V e \<Longrightarrow> key_fits k \<Longrightarrow> key_made P k \<Longrightarrow> Q (TEE_SUCCESS, k) (s\<lparr>ext := e\<rparr>)"
    and fail: "\<And>res e. V (ext s) \<subseteq>\<^sub>m V e \<Longrightarrow> res \<noteq> TEE_SUCCESS \<Longrightarrow> Q (res, blank_key) (s\<lparr>ext := e\<rparr>)"
  shows "wp (generate_key P ty) Q s"
  unfolding generate_key_def wp_bind
proof (rule wp_tee_call [OF laws])
  fix res e
  assume mono: "V (ext s) \<subseteq>\<^sub>m V e"
  obtain d x y e' where kp: "p_keypair P e = ((d, x, y), e')"
    by (metis prod.exhaust)
  have "V e \<subseteq>\<^sub>m V e'"
    using platform_laws_D(2) [OF laws] kp unfolding seals_def by (metis snd_conv)
  with mono have mono': "V (ext s) \<subseteq>\<^sub>m V e'" by (rule map_le_trans)
  have "key_fits \<lparr>ec_d = d, ec_x = x, ec_y = y\<rparr>"
    using platform_laws_D(4) [OF laws] kp
    unfolding crypto_sizes_def key_fits_def by (auto dest!: spec [of _ e])
  moreover have "key_made P \<lparr>ec_d = d, ec_x = x, ec_y = y\<rparr>"
    using kp unfolding key_made_def by (intro exI [of _ e]) simp
  ultimately show "wp (if res \<noteq> TEE_SUCCESS then State_Monad.return (res, blank_key)
     else ext_op (p_keypair P) \<bind> (\<lambda>(d, x, y). State_Monad.return (TEE_SUCCESS, \<lparr>ec_d = d, ec_x = x, ec_y = y\<rparr>)))
     Q (s\<lparr>ext := e\<rparr>)"
    using ok [OF mono'] fail [OF mono] kp
    by (simp add: wp_case_prod)
qed

lemma wp_get_attribute [contracts]:
  assumes laws: "platform_laws V P"
    and ok: "\<And>e. V (ext s) \<subseteq>\<^sub>m V e \<Longrightarrow> length val \<le> cap \<Longrightarrow> Q (TEE_SUCCESS, val) (s\<lparr>ext := e\<rparr>)"
    and fail: "\<And>res e. V (ext s) \<subseteq>\<^sub>m V e \<Longrightarrow> res \<noteq> TEE_SUCCESS \<Longrightarrow> Q (res, []) (s\<lparr>ext := e\<rparr>)"
  shows "wp (get_attribute P attr val cap) Q s"
  unfolding get_attribute_def wp_bind
  by (rule wp_tee_call [OF laws]) (auto intro: ok fail)

lemma wp_read_ec_coordinate [contracts]:
  assumes laws: "platform_laws V P"
    and ok: "\<And>e. V (ext s) \<subseteq>\<^sub>m V e \<Longrightarrow> length (ec_attr a k) \<le> 32 \<Longrightarrow>
      Q (TEE_SUCCESS, lpad 32 (ec_attr a k)) (s\<lparr>ext := e\<rparr>)"
    and fail: "\<And>res e. V (ext s) \<subseteq>\<^sub>m V e \<Longrightarrow> res \<noteq> TEE_SUCCESS \<Longrightarrow> Q (res, []) (s\<lparr>ext := e\<rparr>)"
  shows "wp (read_ec_coordinate P a k) Q s"
  unfolding read_ec_coordinate_def wp_bind
  by (rule wp_get_attribute [OF laws]) (auto simp: wp_case_prod splice_def fail intro: ok [unfolded lpad_def])

text \<open>
  The usual shape of a call: on failure \<open>X\<close>, otherwise go on. \<open>base\<close> is what was sealed when
  the command started.
\<close>

lemma wp_tee_call_from:
  assumes laws: "platform_laws V P" and grown: "base \<subseteq>\<^sub>m V (ext s)"
    and post: "\<And>res e. base \<subseteq>\<^sub>m V e \<Longrightarrow> Q res (s\<lparr>ext := e\<rparr>)"
  shows "wp (tee_call P c) Q s"
  by (rule wp_tee_call [OF laws]) (auto intro: post map_le_trans [OF grown])

lemma wp_sign_from:
  assumes laws: "platform_laws V P" and grown: "base \<subseteq>\<^sub>m V (ext s)"
    and post: "\<And>e. base \<subseteq>\<^sub>m V e \<Longrightarrow> Q (fst (p_sign P d m (ext s))) (s\<lparr>ext := e\<rparr>)"
  shows "wp (ext_op (p_sign P d m)) Q s"
proof -
  have "V (ext s) \<subseteq>\<^sub>m V (snd (p_sign P d m (ext s)))"
    using platform_laws_D(2) [OF laws] by (simp add: seals_def)
  from post [OF map_le_trans [OF grown this]] show ?thesis by simp
qed

named_theorems checks "calls whose result code is checked at once"

lemma check_tee_call [checks]:
  assumes laws: "platform_laws V P" and grown: "base \<subseteq>\<^sub>m V (ext s)"
    and ok: "\<And>e. base \<subseteq>\<^sub>m V e \<Longrightarrow> wp (K TEE_SUCCESS) Q (s\<lparr>ext := e\<rparr>)"
    and fail: "\<And>res e. base \<subseteq>\<^sub>m V e \<Longrightarrow> res \<noteq> TEE_SUCCESS \<Longrightarrow> wp (X res) Q (s\<lparr>ext := e\<rparr>)"
  shows "wp (tee_call P c) (\<lambda>res. wp (if res \<noteq> TEE_SUCCESS then X res else K res) Q) s"
  by (rule wp_tee_call [OF laws]) (auto intro: ok fail map_le_trans [OF grown])

lemma check_alloc_object [checks]:
  assumes laws: "platform_laws V P" and grown: "base \<subseteq>\<^sub>m V (ext s)"
    and ok: "\<And>e. base \<subseteq>\<^sub>m V e \<Longrightarrow>
      wp (K TEE_SUCCESS) Q (s\<lparr>ext := e, n_objects := Suc (n_objects s)\<rparr>)"
    and fail: "\<And>res e. base \<subseteq>\<^sub>m V e \<Longrightarrow> res \<noteq> TEE_SUCCESS \<Longrightarrow> wp (X res) Q (s\<lparr>ext := e\<rparr>)"
  shows "wp (alloc_object P ty bits) (\<lambda>res. wp (if res \<noteq> TEE_SUCCESS then X res else K res) Q) s"
  by (rule wp_alloc_object [OF laws]) (auto intro: ok fail map_le_trans [OF grown])

lemma check_alloc_operation [checks]:
  assumes laws: "platform_laws V P" and grown: "base \<subseteq>\<^sub>m V (ext s)"
    and ok: "\<And>e. base \<subseteq>\<^sub>m V e \<Longrightarrow>
      wp (K TEE_SUCCESS) Q (s\<lparr>ext := e, n_operations := Suc (n_operations s)\<rparr>)"
    and fail: "\<And>res e. base \<subseteq>\<^sub>m V e \<Longrightarrow> res \<noteq> TEE_SUCCESS \<Longrightarrow> wp (X res) Q (s\<lparr>ext := e\<rparr>)"
  shows "wp (alloc_operation P alg mode bits) (\<lambda>res. wp (if res \<noteq> TEE_SUCCESS then X res else K res) Q) s"
  by (rule wp_alloc_operation [OF laws]) (auto intro: ok fail map_le_trans [OF grown])

lemma check_generate_key [checks]:
  assumes laws: "platform_laws V P" and grown: "base \<subseteq>\<^sub>m V (ext s)"
    and ok: "\<And>k e. base \<subseteq>\<^sub>m V e \<Longrightarrow> key_fits k \<Longrightarrow> key_made P k \<Longrightarrow> wp (K TEE_SUCCESS k) Q (s\<lparr>ext := e\<rparr>)"
    and fail: "\<And>res e. base \<subseteq>\<^sub>m V e \<Longrightarrow> res \<noteq> TEE_SUCCESS \<Longrightarrow> wp (X res blank_key) Q (s\<lparr>ext := e\<rparr>)"
  shows "wp (generate_key P ty)
    (\<lambda>p. wp (case p of (res, k) \<Rightarrow> if res \<noteq> TEE_SUCCESS then X res k else K res k) Q) s"
  by (rule wp_generate_key [OF laws]) (auto intro: ok fail map_le_trans [OF grown])

lemma check_read_ec_coordinate [checks]:
  assumes laws: "platform_laws V P" and grown: "base \<subseteq>\<^sub>m V (ext s)"
    and ok: "\<And>e. base \<subseteq>\<^sub>m V e \<Longrightarrow> length (ec_attr a k) \<le> 32 \<Longrightarrow>
      wp (K TEE_SUCCESS (lpad 32 (ec_attr a k))) Q (s\<lparr>ext := e\<rparr>)"
    and fail: "\<And>res e. base \<subseteq>\<^sub>m V e \<Longrightarrow> res \<noteq> TEE_SUCCESS \<Longrightarrow> wp (X res []) Q (s\<lparr>ext := e\<rparr>)"
  shows "wp (read_ec_coordinate P a k)
    (\<lambda>p. wp (case p of (res, v) \<Rightarrow> if res \<noteq> TEE_SUCCESS then X res v else K res v) Q) s"
  by (rule wp_read_ec_coordinate [OF laws]) (auto intro: ok fail map_le_trans [OF grown])

lemma check_get_attribute [checks]:
  assumes laws: "platform_laws V P" and grown: "base \<subseteq>\<^sub>m V (ext s)"
    and ok: "\<And>e. base \<subseteq>\<^sub>m V e \<Longrightarrow> length val \<le> cap \<Longrightarrow> wp (K TEE_SUCCESS val) Q (s\<lparr>ext := e\<rparr>)"
    and fail: "\<And>res e. base \<subseteq>\<^sub>m V e \<Longrightarrow> res \<noteq> TEE_SUCCESS \<Longrightarrow> wp (X res []) Q (s\<lparr>ext := e\<rparr>)"
  shows "wp (get_attribute P a val cap)
    (\<lambda>p. wp (case p of (res, v) \<Rightarrow> if res \<noteq> TEE_SUCCESS then X res v else K res v) Q) s"
  by (rule wp_get_attribute [OF laws]) (auto intro: ok fail map_le_trans [OF grown])

text \<open>
  Shared memory. A read in range returns bytes of the Host's choosing, unless the Host is
  quiet; a write in range changes one buffer only. Neither raises \<open>oob\<close>.
\<close>

lemma wp_shm_read [contracts]:
  assumes laws: "platform_laws V P"
    and bounds: "i < length (shm s)" "off + n \<le> length (shm s ! i)"
    and post: "\<And>bs m e. V (ext s) \<subseteq>\<^sub>m V e \<Longrightarrow> map length m = map length (shm s) \<Longrightarrow> length bs = n \<Longrightarrow>
      (quiet_host P \<Longrightarrow> m = shm s \<and> bs = take n (drop off (shm s ! i))) \<Longrightarrow>
      Q bs (s\<lparr>shm := m, ext := e\<rparr>)"
  shows "wp (shm_read P i off n) Q s"
proof -
  obtain m e where h: "p_host P (shm s) (ext s) = (m, e)"
    by (metis prod.exhaust)
  have mono: "V (ext s) \<subseteq>\<^sub>m V e"
    using platform_laws_D(2) [OF laws] h unfolding seals_def by (metis snd_conv)
  have len: "map length m = map length (shm s)"
    using platform_laws_D(3) [OF laws] h unfolding host_keeps_sizes_def by (metis fst_conv)
  then have "length m = length (shm s)" by (metis length_map)
  moreover from this len bounds(1) have "length (m ! i) = length (shm s ! i)"
    by (metis nth_map)
  ultimately have in_range: "i < length m" "off + n \<le> length (m ! i)"
    using bounds by simp_all
  have quiet: "quiet_host P \<Longrightarrow> m = shm s"
    using h unfolding quiet_host_def by (metis fst_conv)
  show ?thesis
    using post [OF mono len, of "take n (drop off (m ! i))"] in_range quiet h
    by (simp add: shm_read_def)
qed

lemma wp_shm_read_from:
  assumes laws: "platform_laws V P" and grown: "base \<subseteq>\<^sub>m V (ext s)"
    and len: "map length (shm s) = map length m0" and same: "quiet_host P \<Longrightarrow> shm s = m0"
    and bounds: "i < length m0" "off + n \<le> length (m0 ! i)"
    and post: "\<And>bs m e. base \<subseteq>\<^sub>m V e \<Longrightarrow> map length m = map length m0 \<Longrightarrow> length bs = n \<Longrightarrow>
      (quiet_host P \<Longrightarrow> m = m0 \<and> bs = take n (drop off (m0 ! i))) \<Longrightarrow>
      Q bs (s\<lparr>shm := m, ext := e\<rparr>)"
  shows "wp (shm_read P i off n) Q s"
proof (rule wp_shm_read [OF laws])
  from len have l: "length (shm s) = length m0" by (metis length_map)
  with bounds show "i < length (shm s)" by simp
  from len l bounds(1) have "length (shm s ! i) = length (m0 ! i)" by (metis nth_map)
  with bounds show "off + n \<le> length (shm s ! i)" by simp
  fix bs m e
  assume p: "V (ext s) \<subseteq>\<^sub>m V e" "map length m = map length (shm s)" "length bs = n"
    "quiet_host P \<Longrightarrow> m = shm s \<and> bs = take n (drop off (shm s ! i))"
  show "Q bs (s\<lparr>shm := m, ext := e\<rparr>)"
    using p len same by (intro post map_le_trans [OF grown p(1)]) simp_all
qed

lemma wp_shm_write [contracts]:
  assumes "i < length (shm s)" "off + length d \<le> length (shm s ! i)"
    and "Q () (s\<lparr>shm := (shm s)[i := splice off d (shm s ! i)]\<rparr>)"
  shows "wp (shm_write i off d) Q s"
  using assms by (simp add: shm_write_def)

text \<open>Calls into the PTA change the external state and the link, nothing of the TA.\<close>

abbreviation link_update ::
    "('e, 'm) world_scheme \<Rightarrow> 'e \<Rightarrow> bool \<Rightarrow> wire_byte list \<Rightarrow> nat \<Rightarrow> ('e, 'm) world_scheme" where
  "link_update s e r u w \<equiv> s\<lparr>ext := e, uart_ready := r, wire := u, waited := w\<rparr>"

lemma link_only_state:
  fixes s t :: "('e, 'm) world_scheme"
  shows "world.more t = world.more s \<Longrightarrow> t = link_update s (ext t) (uart_ready t) (wire t) (waited t)"
  by (cases s; cases t) simp

lemma wp_open_sensor_pta [contracts]:
  assumes laws: "platform_laws V P"
    and cached: "sensor_pta_open (sess s) \<Longrightarrow> Q TEE_SUCCESS s"
    and fresh: "\<And>e. V (ext s) \<subseteq>\<^sub>m V e \<Longrightarrow> \<not> sensor_pta_open (sess s) \<Longrightarrow>
      Q TEE_SUCCESS (s\<lparr>ext := e, n_sessions := Suc (n_sessions s),
        sess := (sess s)\<lparr>sensor_pta_sess := Some (), sensor_pta_open := True\<rparr>\<rparr>)"
    and fail: "\<And>res e. V (ext s) \<subseteq>\<^sub>m V e \<Longrightarrow> \<not> sensor_pta_open (sess s) \<Longrightarrow> res \<noteq> TEE_SUCCESS \<Longrightarrow>
      Q res (s\<lparr>ext := e\<rparr>)"
  shows "wp (open_sensor_pta P) Q s"
proof (cases "sensor_pta_open (sess s)")
  case True
  with cached show ?thesis by (simp add: open_sensor_pta_def)
next
  case False
  have allowed: "open_session (Some \<lparr>is_user_ta = True, caller_uuid = TA_CONFIDENTIAL_IOT_UUID\<rparr>) = TEE_SUCCESS"
    by (simp add: open_session_def TA_CONFIDENTIAL_IOT_UUID_def SENSOR_LINK_ALLOWED_CALLER_UUID_def)
  have "wp (open_ta_session P) (\<lambda>res. wp (if res \<noteq> TEE_SUCCESS then State_Monad.return res else do {
         upd_sess (\<lambda>x. x\<lparr>sensor_pta_sess := Some (), sensor_pta_open := True\<rparr>);
         State_Monad.return TEE_SUCCESS }) Q) s"
    unfolding open_ta_session_def wp_bind
    by (rule wp_tee_call [OF laws]) (auto simp: allowed Let_def intro: fresh [OF _ False] fail [OF _ False])
  with False show ?thesis by (simp add: open_sensor_pta_def)
qed

lemma wp_invoke_sensor_pta:
  assumes laws: "platform_laws V P"
    and step: "\<And>e res qs t. V (ext s) \<subseteq>\<^sub>m V e \<Longrightarrow>
      run_state (invoke_command P cmd types ps) (s\<lparr>ext := e\<rparr>) = ((res, qs), t) \<Longrightarrow>
      V (ext s) \<subseteq>\<^sub>m V (ext t) \<Longrightarrow> Q (res, qs) t"
    and fail: "\<And>res e. V (ext s) \<subseteq>\<^sub>m V e \<Longrightarrow> res \<noteq> TEE_SUCCESS \<Longrightarrow> Q (res, ps) (s\<lparr>ext := e\<rparr>)"
  shows "wp (invoke_sensor_pta P cmd types ps) Q s"
  unfolding invoke_sensor_pta_def wp_bind
proof (rule wp_tee_call [OF laws])
  fix res0 e
  assume mono: "V (ext s) \<subseteq>\<^sub>m V e"
  have "wp (invoke_command P cmd types ps) Q (s\<lparr>ext := e\<rparr>)"
  proof (rule wp_runI)
    fix rq t
    assume run: "run_state (invoke_command P cmd types ps) (s\<lparr>ext := e\<rparr>) = (rq, t)"
    obtain r qs where rq: "rq = (r, qs)" by (cases rq)
    have "V e \<subseteq>\<^sub>m V (ext t)"
      using boundedD [OF seals_invoke_command [OF platform_laws_D(2) [OF laws]] run]
      by (simp add: sealed_le_def)
    with mono have "V (ext s) \<subseteq>\<^sub>m V (ext t)" by (rule map_le_trans)
    with step [OF mono run [unfolded rq]] show "Q rq t" by (simp add: rq)
  qed
  with fail [OF mono]
  show "wp (if res0 \<noteq> TEE_SUCCESS then State_Monad.return (res0, ps) else invoke_command P cmd types ps) Q
      (s\<lparr>ext := e\<rparr>)"
    by simp
qed

lemma splice_all [simp]: "length d = length buf \<Longrightarrow> splice 0 d buf = d"
  by (simp add: splice_def)

text \<open>Nothing was put on the link; bytes may have been taken off it.\<close>

definition reads_only :: "('e, 'm) world_scheme \<Rightarrow> ('e, 'n) world_scheme \<Rightarrow> bool" where
  "reads_only s t \<longleftrightarrow> (\<exists>rx. wire t = wire s @ received rx)"

lemma reads_only_same: "wire t = wire s \<Longrightarrow> reads_only s t"
  by (auto simp: reads_only_def intro: exI [of _ "[]"])

lemma wp_pta_challenge [contracts]:
  fixes s :: "'e ta_state"
  assumes laws: "platform_laws V P" and sizes: "length c = 32" "length r = 32"
    and ok: "\<And>resp e rd w. V (ext s) \<subseteq>\<^sub>m V e \<Longrightarrow> length resp = 32 \<Longrightarrow>
      Q (TEE_SUCCESS, [\<lparr>mbuf = c, msize = 32\<rparr>, \<lparr>mbuf = resp, msize = 32\<rparr>, no_memref, no_memref])
        (link_update s e rd (wire s @ sent (encode_frame FRAME_CHALLENGE c) @
          received (encode_frame FRAME_CHALLENGE_RESPONSE resp)) w)"
    and fail: "\<And>res qs e rd u w. V (ext s) \<subseteq>\<^sub>m V e \<Longrightarrow> res \<noteq> TEE_SUCCESS \<Longrightarrow>
      Q (res, qs) (link_update s e rd u w)"
  shows "wp (invoke_sensor_pta P PTA_CMD_CHALLENGE
      [PT_MEMREF_INPUT, PT_MEMREF_OUTPUT, PT_NONE, PT_NONE]
      [\<lparr>mbuf = c, msize = 32\<rparr>, \<lparr>mbuf = r, msize = 32\<rparr>, no_memref, no_memref]) Q s"
proof (rule wp_invoke_sensor_pta [OF laws], goal_cases)
  case (1 e res qs t)
  let ?ps = "[\<lparr>mbuf = c, msize = 32\<rparr>, \<lparr>mbuf = r, msize = 32\<rparr>, no_memref, no_memref]"
  have okp: "list_all memref_ok ?ps" using sizes by (simp add: memref_ok_def)
  note spec = sensor_link_challenge_spec [OF 1(2) [unfolded invoke_command_def, simplified] okp]
  from spec have t: "t = link_update s (ext t) (uart_ready t) (wire t) (waited t)"
    using link_only_state [of t "s\<lparr>ext := e\<rparr>"] by simp
  show ?case
  proof (cases "res = TEE_SUCCESS")
    case True
    with spec obtain resp where "length resp = 32"
      "qs = [\<lparr>mbuf = c, msize = 32\<rparr>, \<lparr>mbuf = resp, msize = 32\<rparr>, no_memref, no_memref]"
      "wire t = wire s @ sent (encode_frame FRAME_CHALLENGE c) @ received (encode_frame FRAME_CHALLENGE_RESPONSE resp)"
      using sizes by (auto simp: store_out_def set_out_size_def)
    with ok [OF 1(3)] True t show ?thesis by metis
  next
    case False
    with fail [OF 1(3)] t show ?thesis by metis
  qed
next
  case (2 res e)
  have "s\<lparr>ext := e\<rparr> = link_update s e (uart_ready s) (wire s) (waited s)" by simp
  with fail [OF 2] show ?case by metis
qed

lemma wp_pta_read [contracts]:
  fixes s :: "'e ta_state"
  assumes laws: "platform_laws V P" and sizes: "length b = 256"
    and ok: "\<And>got e rd w. V (ext s) \<subseteq>\<^sub>m V e \<Longrightarrow> length got \<le> 256 \<Longrightarrow>
      Q (TEE_SUCCESS, [\<lparr>mbuf = splice 0 got b, msize = length got\<rparr>, no_memref, no_memref, no_memref])
        (link_update s e rd (wire s @ received (encode_frame FRAME_READING got)) w)"
    and fail: "\<And>res qs e rd rx w. V (ext s) \<subseteq>\<^sub>m V e \<Longrightarrow> res \<noteq> TEE_SUCCESS \<Longrightarrow>
      Q (res, qs) (link_update s e rd (wire s @ received rx) w)"
  shows "wp (invoke_sensor_pta P PTA_CMD_READ [PT_MEMREF_OUTPUT, PT_NONE, PT_NONE, PT_NONE]
      [\<lparr>mbuf = b, msize = 256\<rparr>, no_memref, no_memref, no_memref]) Q s"
proof (rule wp_invoke_sensor_pta [OF laws], goal_cases)
  case (1 e res qs t)
  have okp: "list_all memref_ok [\<lparr>mbuf = b, msize = 256\<rparr>, no_memref, no_memref, no_memref]"
    using sizes by (simp add: memref_ok_def)
  note spec = sensor_link_read_spec [OF 1(2) [unfolded invoke_command_def, simplified] okp]
  from spec have t: "t = link_update s (ext t) (uart_ready t) (wire t) (waited t)"
    using link_only_state [of t "s\<lparr>ext := e\<rparr>"] by simp
  show ?case
  proof (cases "res = TEE_SUCCESS")
    case True
    with spec obtain got where "length got \<le> 256" "wire t = wire s @ received (encode_frame FRAME_READING got)"
      "qs = [\<lparr>mbuf = splice 0 got b, msize = length got\<rparr>, no_memref, no_memref, no_memref]"
      by (auto simp: store_out_def set_out_size_def)
    with ok [OF 1(3)] True t show ?thesis by metis
  next
    case False
    from spec obtain rx where "wire t = wire s @ received rx" by auto
    with fail [OF 1(3)] t False show ?thesis by metis
  qed
next
  case (2 res e)
  have "s\<lparr>ext := e\<rparr> = link_update s e (uart_ready s) (wire s @ received []) (waited s)" by simp
  with fail [OF 2] show ?case by metis
qed

lemma wp_pta_fetch_secret [contracts]:
  assumes laws: "platform_laws V P" and sizes: "length b = 32"
    and ok: "\<And>k e rd w. V (ext s) \<subseteq>\<^sub>m V e \<Longrightarrow> length k = 32 \<Longrightarrow>
      Q (TEE_SUCCESS, [\<lparr>mbuf = k, msize = 32\<rparr>, no_memref, no_memref, no_memref])
        (link_update s e rd (wire s @ sent (encode_frame FRAME_SECRET_REQUEST []) @
          received (encode_frame FRAME_SECRET k)) w)"
    and fail: "\<And>res e rd u w. V (ext s) \<subseteq>\<^sub>m V e \<Longrightarrow> res \<noteq> TEE_SUCCESS \<Longrightarrow>
      Q (res, [\<lparr>mbuf = b, msize = 32\<rparr>, no_memref, no_memref, no_memref]) (link_update s e rd u w)"
  shows "wp (invoke_sensor_pta P PTA_CMD_FETCH_SECRET [PT_MEMREF_OUTPUT, PT_NONE, PT_NONE, PT_NONE]
      [\<lparr>mbuf = b, msize = 32\<rparr>, no_memref, no_memref, no_memref]) Q s"
proof (rule wp_invoke_sensor_pta [OF laws], goal_cases)
  case (1 e res qs t)
  let ?ps = "[\<lparr>mbuf = b, msize = 32\<rparr>, no_memref, no_memref, no_memref]"
  have okp: "list_all memref_ok ?ps" using sizes by (simp add: memref_ok_def)
  note spec = sensor_link_fetch_secret_spec [OF 1(2) [unfolded invoke_command_def, simplified] okp]
  from spec have t: "t = link_update s (ext t) (uart_ready t) (wire t) (waited t)"
    using link_only_state [of t "s\<lparr>ext := e\<rparr>"] by simp
  show ?case
  proof (cases "res = TEE_SUCCESS")
    case True
    with spec obtain k where "length k = 32"
      "qs = [\<lparr>mbuf = k, msize = 32\<rparr>, no_memref, no_memref, no_memref]"
      "wire t = wire s @ sent (encode_frame FRAME_SECRET_REQUEST []) @ received (encode_frame FRAME_SECRET k)"
      using sizes by (auto simp: store_out_def set_out_size_def)
    with ok [OF 1(3)] True t show ?thesis by metis
  next
    case False
    with fail [OF 1(3)] t spec show ?thesis by metis
  qed
next
  case (2 res e)
  have "s\<lparr>ext := e\<rparr> = link_update s e (uart_ready s) (wire s) (waited s)" by simp
  with fail [OF 2] show ?case by metis
qed

text \<open>From here on the commands are taken through their contracts.\<close>

declare wp_ext_op [simp del]

lemma wp_case_option [simp, wp_simps]:
  "wp (case x of None \<Rightarrow> m | Some y \<Rightarrow> f y) Q s =
     (case x of None \<Rightarrow> wp m Q s | Some y \<Rightarrow> wp (f y) Q s)"
  by (cases x) simp_all

lemma wp_case_outcome [simp, wp_simps]:
  "wp (case x of Ret y \<Rightarrow> f y | Panicked \<Rightarrow> m) Q s =
     (case x of Ret y \<Rightarrow> wp (f y) Q s | Panicked \<Rightarrow> wp m Q s)"
  by (cases x) simp_all

lemma sign_size: "platform_laws V P \<Longrightarrow> fst (p_sign P d m e) = Some sig \<Longrightarrow> length sig = 64"
  by (auto dest!: platform_laws_D(4) simp: crypto_sizes_def)

section \<open>What every command keeps\<close>

text \<open>
  \<open>cmd_ready\<close>: the four parameters of an invocation are in place, and the buffers are as
  large as their sizes say. \<open>tidy s t\<close>: a command that leads from \<open>s\<close> to \<open>t\<close> stayed inside
  the shared buffers, lost nothing sealed and freed the operations and storage handles
  it took.
\<close>

definition cmd_ready :: "'e ta_state \<Rightarrow> bool" where
  "cmd_ready s \<longleftrightarrow> length (shm s) = 4 \<and> psize s = map length (shm s) \<and> length (pvalue s) = 4 \<and> \<not> oob s"

definition tidy :: "'e storage_view \<Rightarrow> 'e ta_state \<Rightarrow> 'e ta_state \<Rightarrow> bool" where
  "tidy V s t \<longleftrightarrow> V (ext s) \<subseteq>\<^sub>m V (ext t) \<and> map length (shm t) = map length (shm s) \<and>
     oob t = oob s \<and> n_operations t = n_operations s \<and> n_persistent t = n_persistent s"

lemma cmd_ready_D:
  assumes "cmd_ready s"
  shows "length (shm s) = 4" "length (psize s) = 4" "length (pvalue s) = 4" "\<not> oob s"
    "psize s ! 0 = length (shm s ! 0)" "psize s ! 1 = length (shm s ! 1)"
    "psize s ! 2 = length (shm s ! 2)" "psize s ! 3 = length (shm s ! 3)"
    "psize s ! Suc 0 = length (shm s ! Suc 0)"
  using assms by (simp_all add: cmd_ready_def)

lemma same_sizes_D:
  assumes "map length m = map length (shm s)" "cmd_ready s"
  shows "length m = 4" "length (m ! 0) = length (shm s ! 0)" "length (m ! 1) = length (shm s ! 1)"
    "length (m ! 2) = length (shm s ! 2)" "length (m ! 3) = length (shm s ! 3)"
    "length (m ! Suc 0) = length (shm s ! Suc 0)"
proof -
  have len: "length m = 4"
    using assms cmd_ready_D(1) by (metis length_map)
  then have "length (m ! i) = length (shm s ! i)" if "i < 4" for i
    using that assms(1) cmd_ready_D(1) [OF assms(2)] by (metis nth_map)
  with len show "length m = 4" "length (m ! 0) = length (shm s ! 0)" "length (m ! 1) = length (shm s ! 1)"
    "length (m ! 2) = length (shm s ! 2)" "length (m ! 3) = length (shm s ! 3)"
    "length (m ! Suc 0) = length (shm s ! Suc 0)"
    by simp_all
qed

lemma map_length_update [simp]: "length x = length (m ! i) \<Longrightarrow> map length (m[i := x]) = map length m"
  by (metis list_update_id map_update)

section \<open>The invariant between commands\<close>

text \<open>
  Between two commands the session holds exactly one object handle while a keypair is
  pending and one TA session once the PTA is open; a pending keypair excludes a session
  key; a valid session key means a server is pinned and an authenticated sensor that its
  secret is sealed; the buffers have their sizes and the counter fits 32 bits.
\<close>

definition key_handles :: "ta_session \<Rightarrow> nat" where
  "key_handles x = (if ecdh_keypair x \<noteq> None then 1 else 0)"

definition pta_handles :: "ta_session \<Rightarrow> nat" where
  "pta_handles x = (if sensor_pta_open x then 1 else 0)"

definition session_wf :: "ta_session \<Rightarrow> bool" where
  "session_wf x \<longleftrightarrow> length (session_key x) = SESSION_KEY_SIZE \<and> length (reading x) = READING_MAX \<and>
     reading_len x < READING_MAX \<and> send_seq x \<le> 0xffffffff \<and>
     sensor_pta_open x = (sensor_pta_sess x \<noteq> None) \<and>
     (\<forall>k. ecdh_keypair x = Some k \<longrightarrow> key_fits k \<and> \<not> session_key_valid x)"

definition ta_inv :: "'e storage_view \<Rightarrow> 'e ta_state \<Rightarrow> bool" where
  "ta_inv V s \<longleftrightarrow> session_wf (sess s) \<and>
     n_objects s = key_handles (sess s) \<and> n_operations s = 0 \<and> n_persistent s = 0 \<and>
     n_sessions s = pta_handles (sess s) \<and> \<not> oob s \<and>
     (session_key_valid (sess s) \<longrightarrow> V (ext s) SERVER_PUBKEY_OBJID \<noteq> None) \<and>
     (sensor_authenticated (sess s) \<longrightarrow> V (ext s) SENSOR_PSK_OBJID \<noteq> None)"

lemma map_le_not_None: "m \<subseteq>\<^sub>m n \<Longrightarrow> m k \<noteq> None \<Longrightarrow> n k \<noteq> None"
  by (auto dest: map_le_Some)

section \<open>Frames\<close>

text \<open>
  \<open>frame V P k n s t\<close>: since \<open>s\<close>, the calls of a command took \<open>k\<close> objects and \<open>n\<close> operations,
  left the session, the sizes and the other handles alone, and wrote to no shared buffer;
  with a quiet Host the buffers are still as they were. The rules below carry a frame
  through the calls, so that a proof need not spell out the state.
\<close>

definition frame ::
    "'e storage_view \<Rightarrow> 'e platform \<Rightarrow> nat \<Rightarrow> nat \<Rightarrow> 'e ta_state \<Rightarrow> 'e ta_state \<Rightarrow> bool" where
  "frame V P k n s t \<longleftrightarrow> V (ext s) \<subseteq>\<^sub>m V (ext t) \<and> map length (shm t) = map length (shm s) \<and>
     (quiet_host P \<longrightarrow> shm t = shm s) \<and> oob t = oob s \<and> sess t = sess s \<and> psize t = psize s \<and>
     n_objects t = n_objects s + k \<and> n_operations t = n_operations s + n \<and>
     n_persistent t = n_persistent s \<and> n_sessions t = n_sessions s \<and>
     pvalue t = pvalue s \<and> wire t = wire s"

lemma frame_refl [simp]: "frame V P 0 0 s s"
  by (simp add: frame_def)

lemma frame_sealed: "frame V P k n s t \<Longrightarrow> V (ext s) x = Some c \<Longrightarrow> V (ext t) x = Some c"
  by (auto simp: frame_def dest: map_le_Some)

lemma frame_tidy: "frame V P k 0 s t \<Longrightarrow> tidy V s t"
  by (simp add: frame_def tidy_def)

lemma frame_ext: "frame V P k n s u \<Longrightarrow> V (ext u) \<subseteq>\<^sub>m V e \<Longrightarrow> frame V P k n s (u\<lparr>ext := e\<rparr>)"
  by (auto simp: frame_def intro: map_le_trans)

lemma frame_free_object [intro]:
  "frame V P (Suc k) n s u \<Longrightarrow> frame V P k n s (u\<lparr>n_objects := n_objects u - Suc 0\<rparr>)"
  by (simp add: frame_def)

lemma frame_free_operation [intro]:
  "frame V P k (Suc n) s u \<Longrightarrow> frame V P k n s (u\<lparr>n_operations := n_operations u - Suc 0\<rparr>)"
  by (simp add: frame_def)

lemma frame_call:
  assumes "platform_laws V P" "frame V P k n s u" and "\<And>res t. frame V P k n s t \<Longrightarrow> Q res t"
  shows "wp (tee_call P c) Q u"
  by (rule wp_tee_call [OF assms(1)]) (auto intro: assms(3) frame_ext [OF assms(2)])

lemma frame_tee_call:
  assumes "platform_laws V P" "frame V P k n s u"
    and "\<And>t. frame V P k n s t \<Longrightarrow> wp (K TEE_SUCCESS) Q t"
    and "\<And>res t. frame V P k n s t \<Longrightarrow> res \<noteq> TEE_SUCCESS \<Longrightarrow> wp (X res) Q t"
  shows "wp (tee_call P c) (\<lambda>res. wp (if res \<noteq> TEE_SUCCESS then X res else K res) Q) u"
  by (rule wp_tee_call [OF assms(1)]) (auto intro: assms(3-) frame_ext [OF assms(2)])

text \<open>A call of the TEE does not touch the shared buffers; only the Host does.\<close>

lemma frame_tee_call_shm:
  assumes "platform_laws V P" "frame V P k n s u"
    and "\<And>t. frame V P k n s t \<Longrightarrow> shm t = shm u \<Longrightarrow> wp (K TEE_SUCCESS) Q t"
    and "\<And>res t. frame V P k n s t \<Longrightarrow> res \<noteq> TEE_SUCCESS \<Longrightarrow> wp (X res) Q t"
  shows "wp (tee_call P c) (\<lambda>res. wp (if res \<noteq> TEE_SUCCESS then X res else K res) Q) u"
  by (rule wp_tee_call [OF assms(1)]) (auto intro: assms(3-) frame_ext [OF assms(2)])

text \<open>What a read returns is what the Host has made of the buffer.\<close>

lemma run_shm_read:
  assumes "run_state (shm_read P i off n) s = (bs, t)" "i < length (shm t)" "off + n \<le> length (shm t ! i)"
  shows "shm t = fst (p_host P (shm s) (ext s)) \<and> bs = take n (drop off (shm t ! i))"
proof -
  have "shm t = fst (p_host P (shm s) (ext s))"
    using assms(1) by (auto simp: shm_read_def host_step_def case_prod_beta split: if_splits)
  with assms show ?thesis
    by (auto simp: shm_read_def host_step_def case_prod_beta)
qed

lemma frame_alloc_object:
  assumes "platform_laws V P" "frame V P k n s u"
    and "\<And>t. frame V P (Suc k) n s t \<Longrightarrow> wp (K TEE_SUCCESS) Q t"
    and "\<And>res t. frame V P k n s t \<Longrightarrow> res \<noteq> TEE_SUCCESS \<Longrightarrow> wp (X res) Q t"
  shows "wp (alloc_object P ty bits) (\<lambda>res. wp (if res \<noteq> TEE_SUCCESS then X res else K res) Q) u"
  by (rule wp_alloc_object [OF assms(1)])
    (use assms(2) in \<open>auto simp: frame_def intro!: assms(3-) intro: map_le_trans\<close>)

lemma frame_alloc_operation:
  assumes "platform_laws V P" "frame V P k n s u"
    and "\<And>t. frame V P k (Suc n) s t \<Longrightarrow> wp (K TEE_SUCCESS) Q t"
    and "\<And>res t. frame V P k n s t \<Longrightarrow> res \<noteq> TEE_SUCCESS \<Longrightarrow> wp (X res) Q t"
  shows "wp (alloc_operation P alg mode bits) (\<lambda>res. wp (if res \<noteq> TEE_SUCCESS then X res else K res) Q) u"
  by (rule wp_alloc_operation [OF assms(1)])
    (use assms(2) in \<open>auto simp: frame_def intro!: assms(3-) intro: map_le_trans\<close>)

lemma frame_get_attribute:
  assumes "platform_laws V P" "frame V P k n s u"
    and "\<And>t. frame V P k n s t \<Longrightarrow> length val \<le> cap \<Longrightarrow> Q (TEE_SUCCESS, val) t"
    and "\<And>res t. frame V P k n s t \<Longrightarrow> res \<noteq> TEE_SUCCESS \<Longrightarrow> Q (res, []) t"
  shows "wp (get_attribute P a val cap) Q u"
  by (rule wp_get_attribute [OF assms(1)]) (auto intro!: assms(3-) frame_ext [OF assms(2)])

lemma frame_read_ec_coordinate:
  assumes "platform_laws V P" "frame V P k n s u"
    and "\<And>t. frame V P k n s t \<Longrightarrow> length (ec_attr a key) \<le> 32 \<Longrightarrow> Q (TEE_SUCCESS, lpad 32 (ec_attr a key)) t"
    and "\<And>res t. frame V P k n s t \<Longrightarrow> res \<noteq> TEE_SUCCESS \<Longrightarrow> Q (res, []) t"
  shows "wp (read_ec_coordinate P a key) Q u"
  by (rule wp_read_ec_coordinate [OF assms(1)]) (auto intro!: assms(3-) frame_ext [OF assms(2)])

lemma frame_shm_read:
  assumes laws: "platform_laws V P" and u: "frame V P k n s u"
    and bounds: "i < length (shm s)" "off + l \<le> length (shm s ! i)"
    and post: "\<And>bs t. frame V P k n s t \<Longrightarrow> length bs = l \<Longrightarrow>
      (quiet_host P \<Longrightarrow> bs = take l (drop off (shm s ! i))) \<Longrightarrow> Q bs t"
  shows "wp (shm_read P i off l) Q u"
proof (rule wp_shm_read_from [OF laws, where base = "V (ext s)" and ?m0.0 = "shm s"], goal_cases)
  case (6 bs m e)
  then show ?case
    using u by (intro post) (auto simp: frame_def)
qed (use u bounds in \<open>simp_all add: frame_def\<close>)

end
