(* ===== verification/TaIdentity.thy ===== *)
theory TaIdentity
  imports TaSession
begin

text \<open>
  The TA's own identity (trusted_app.c, "TA identity"): the sealed blob and its checks,
  the labelled signature over a session, and the provisioning command, with its
  first-write-wins race.
\<close>

section \<open>Reading the sealed blob\<close>

definition read_ta_identity_blob :: "'e platform \<Rightarrow> ('e, TEE_Result \<times> bytes) ta" where
  "read_ta_identity_blob P = do {
     res \<leftarrow> open_persistent P TA_IDENTITY_OBJID;
     if res \<noteq> TEE_SUCCESS then State_Monad.return (res, [])
     else do {
       (res, blob) \<leftarrow> read_object_data P TA_IDENTITY_OBJID TA_IDENTITY_BLOB_SIZE;
       close_object;
       if res \<noteq> TEE_SUCCESS then State_Monad.return (res, [])
       else if length blob \<noteq> TA_IDENTITY_BLOB_SIZE \<or> blob_idlen blob = 0 \<or>
               blob_idlen blob > DEVICE_ID_MAX
       then State_Monad.return (TEE_ERROR_BAD_STATE, [])
       else State_Monad.return (TEE_SUCCESS, blob) } }"

section \<open>Signing a session\<close>

text \<open>The corruption guard: the bitwise or of the bytes of the private scalar.\<close>

definition or_bytes :: "bytes \<Rightarrow> u8" where
  "or_bytes bs = fold (\<lambda>b acc. acc OR b) bs 0"

text \<open>The \<open>out\<close> label: free what is live, then return.\<close>

definition sign_out :: "bool \<Rightarrow> bool \<Rightarrow> bool \<Rightarrow> TEE_Result \<Rightarrow> ('e, TEE_Result outcome) ta" where
  "sign_out digest_op sign_op key res = do {
     free_operation digest_op;
     free_operation sign_op;
     free_object key;
     State_Monad.return (Ret res) }"

text \<open>
  \<open>TEE_AsymmetricSignDigest\<close> panics on any error, so \<open>p_sign\<close> yields a signature or the
  TA is gone. The signature goes to offset \<open>off\<close> of shared buffer \<open>i\<close>.
\<close>

definition sign_ta_identity ::
    "'e platform \<Rightarrow> bytes \<Rightarrow> bytes \<Rightarrow> bytes \<Rightarrow> nat \<Rightarrow> nat \<Rightarrow> ('e, TEE_Result outcome) ta" where
  "sign_ta_identity P nonce server_ecdh_pub device_pub i off = do {
     (res, blob) \<leftarrow> read_ta_identity_blob P;
     if res = TEE_ERROR_ITEM_NOT_FOUND then sign_out False False False TEE_ERROR_BAD_STATE
     else if res \<noteq> TEE_SUCCESS then sign_out False False False res
     else if or_bytes (sub TA_ID_OFF_D EC_SCALAR_SIZE blob) = 0
     then sign_out False False False TEE_ERROR_BAD_STATE
     else do {
       res \<leftarrow> alloc_operation P TEE_ALG_SHA256 TEE_MODE_DIGEST 0;
       if res \<noteq> TEE_SUCCESS then sign_out False False False res
       else do {
         let msg = TA_IDENTITY_LABEL @ nonce @ take ECDH_PUBKEY_SIZE server_ecdh_pub @
                   take ECDH_PUBKEY_SIZE device_pub;
         res \<leftarrow> tee_call P DigestDoFinal;
         let digest = p_sha256 P (msg @ sub TA_ID_OFF_ID (blob_idlen blob) blob);
         free_operation True;
         if res \<noteq> TEE_SUCCESS then sign_out False False False res
         else do {
           res \<leftarrow> alloc_object P TEE_TYPE_ECDSA_KEYPAIR 256;
           if res \<noteq> TEE_SUCCESS then sign_out False False False res
           else do {
             res \<leftarrow> tee_call P (PopulateTransientObject TEE_TYPE_ECDSA_KEYPAIR);
             if res \<noteq> TEE_SUCCESS then sign_out False False True res
             else do {
               res \<leftarrow> alloc_operation P TEE_ALG_ECDSA_P256 TEE_MODE_SIGN 256;
               if res \<noteq> TEE_SUCCESS then sign_out False False True res
               else do {
                 res \<leftarrow> tee_call P (SetOperationKey TEE_ALG_ECDSA_P256);
                 if res \<noteq> TEE_SUCCESS then sign_out False True True res
                 else do {
                   r \<leftarrow> ext_op (p_sign P (sub TA_ID_OFF_D EC_SCALAR_SIZE blob) digest);
                   case r of
                     None \<Rightarrow> State_Monad.return Panicked
                   | Some sig \<Rightarrow> do {
                       shm_write i off sig;
                       if length sig \<noteq> TA_SIG_SIZE then sign_out False True True TEE_ERROR_BAD_STATE
                       else sign_out False True True TEE_SUCCESS } } } } } } } } }"

section \<open>Provisioning\<close>

definition identity_out :: "bool \<Rightarrow> TEE_Result \<Rightarrow> ('e, TEE_Result) ta" where
  "identity_out keypair res = do {
     free_object keypair;
     State_Monad.return res }"

definition export_identity :: "bool \<Rightarrow> bytes \<Rightarrow> ('e, TEE_Result) ta" where
  "export_identity keypair blob = do {
     shm_write 1 0 (ta_identity_blob_to_sec1 blob);
     set_size 1 ECDH_PUBKEY_SIZE;
     identity_out keypair TEE_SUCCESS }"

definition id_mismatch :: "bytes \<Rightarrow> nat \<Rightarrow> bytes \<Rightarrow> bool" where
  "id_mismatch blob id_len device_id \<longleftrightarrow>
     blob_idlen blob \<noteq> id_len \<or> sub TA_ID_OFF_ID id_len blob \<noteq> device_id"

text \<open>The blob as the code fills it, field by field, over a zeroed buffer.\<close>

definition fill_blob :: "bytes \<Rightarrow> bytes \<Rightarrow> bytes \<Rightarrow> nat \<Rightarrow> bytes \<Rightarrow> bytes" where
  "fill_blob d x y id_len device_id =
     (let blob = zeros TA_IDENTITY_BLOB_SIZE;
          blob = splice TA_ID_OFF_D d blob;
          blob = splice TA_ID_OFF_X x blob;
          blob = splice TA_ID_OFF_Y y blob;
          blob = blob[TA_ID_OFF_IDLEN := of_nat id_len]
      in splice TA_ID_OFF_ID device_id blob)"

text \<open>Sealing a fresh blob; a lost race re-exports the winner's key if it has the same id.\<close>

definition seal_identity :: "'e platform \<Rightarrow> nat \<Rightarrow> bytes \<Rightarrow> bytes \<Rightarrow> ('e, TEE_Result) ta" where
  "seal_identity P id_len device_id blob = do {
     res \<leftarrow> create_persistent P TA_IDENTITY_OBJID [TEE_DATA_FLAG_ACCESS_WRITE] blob;
     if res = TEE_ERROR_ACCESS_CONFLICT then do {
       (res, blob) \<leftarrow> read_ta_identity_blob P;
       if res \<noteq> TEE_SUCCESS then identity_out True res
       else if id_mismatch blob id_len device_id then identity_out True TEE_ERROR_ACCESS_CONFLICT
       else export_identity True blob }
     else if res \<noteq> TEE_SUCCESS then identity_out True res
     else do {
       close_object;
       export_identity True blob } }"

definition mint_identity :: "'e platform \<Rightarrow> nat \<Rightarrow> bytes \<Rightarrow> ('e, TEE_Result) ta" where
  "mint_identity P id_len device_id = do {
     res \<leftarrow> alloc_object P TEE_TYPE_ECDSA_KEYPAIR 256;
     if res \<noteq> TEE_SUCCESS then identity_out False res
     else do {
       (res, keypair) \<leftarrow> generate_key P TEE_TYPE_ECDSA_KEYPAIR;
       if res \<noteq> TEE_SUCCESS then identity_out True res
       else do {
         (res, d) \<leftarrow> read_ec_coordinate P TEE_ATTR_ECC_PRIVATE_VALUE keypair;
         if res \<noteq> TEE_SUCCESS then identity_out True res
         else do {
           (res, x) \<leftarrow> read_ec_coordinate P TEE_ATTR_ECC_PUBLIC_VALUE_X keypair;
           if res \<noteq> TEE_SUCCESS then identity_out True res
           else do {
             (res, y) \<leftarrow> read_ec_coordinate P TEE_ATTR_ECC_PUBLIC_VALUE_Y keypair;
             if res \<noteq> TEE_SUCCESS then identity_out True res
             else seal_identity P id_len device_id (fill_blob d x y id_len device_id) } } } } }"

definition ta_generate_ta_identity :: "'e platform \<Rightarrow> ptype list \<Rightarrow> ('e, TEE_Result) ta" where
  "ta_generate_ta_identity P param_types =
     (if param_types \<noteq> [PT_MEMREF_INPUT, PT_MEMREF_OUTPUT, PT_NONE, PT_NONE]
      then State_Monad.return TEE_ERROR_BAD_PARAMETERS
      else do {
        id_len \<leftarrow> get_size 0;
        out_size \<leftarrow> get_size 1;
        if id_len = 0 \<or> id_len > DEVICE_ID_MAX then State_Monad.return TEE_ERROR_BAD_PARAMETERS
        else if out_size < ECDH_PUBKEY_SIZE then State_Monad.return TEE_ERROR_SHORT_BUFFER
        else do {
          device_id \<leftarrow> shm_read P 0 0 id_len;
          (res, blob) \<leftarrow> read_ta_identity_blob P;
          if res = TEE_SUCCESS then
            (if id_mismatch blob id_len device_id then identity_out False TEE_ERROR_ACCESS_CONFLICT
             else export_identity False blob)
          else if res \<noteq> TEE_ERROR_ITEM_NOT_FOUND then identity_out False res
          else mint_identity P id_len device_id } })"

section \<open>The blob\<close>

lemma or_fold_0: "fold (\<lambda>b acc. acc OR b) bs (a :: u8) = 0 \<longleftrightarrow> a = 0 \<and> list_all (\<lambda>b. b = 0) bs"
  by (induction bs arbitrary: a) (auto simp: or_eq_0_iff)

lemma or_bytes_0: "or_bytes bs = 0 \<longleftrightarrow> list_all (\<lambda>b. b = 0) bs"
  by (simp add: or_bytes_def or_fold_0)

text \<open>The buffer the code fills is the documented layout.\<close>

lemma fill_blob_layout:
  assumes "length d = 32" "length x = 32" "length y = 32" "length i = n" "n \<le> DEVICE_ID_MAX"
  shows "fill_blob d x y n i = identity_blob d x y i"
proof -
  have z: "zeros 160 = zeros 32 @ zeros 32 @ zeros 32 @ [0] @ zeros 63"
    by (simp flip: replicate_add replicate_Suc add: numeral_eq_Suc)
  show ?thesis
    using assms by (simp add: fill_blob_def identity_blob_def splice_def z list_update_append Let_def)
qed

section \<open>Contracts\<close>

text \<open>
  Reading returns the sealed object, which then has the documented shape; nothing sealed
  is never mistaken for a sealed object.
\<close>

lemma wp_read_ta_identity_blob [contracts]:
  assumes laws: "platform_laws V P"
    and ok: "\<And>c e. V (ext s) \<subseteq>\<^sub>m V e \<Longrightarrow> V (ext s) TA_IDENTITY_OBJID = Some c \<Longrightarrow>
      blob_wf (take TA_IDENTITY_BLOB_SIZE c) \<Longrightarrow> Q (TEE_SUCCESS, take TA_IDENTITY_BLOB_SIZE c) (s\<lparr>ext := e\<rparr>)"
    and absent: "\<And>e. V (ext s) \<subseteq>\<^sub>m V e \<Longrightarrow> V (ext s) TA_IDENTITY_OBJID = None \<Longrightarrow>
      Q (TEE_ERROR_ITEM_NOT_FOUND, []) (s\<lparr>ext := e\<rparr>)"
    and fail: "\<And>res e. V (ext s) \<subseteq>\<^sub>m V e \<Longrightarrow> res \<noteq> TEE_SUCCESS \<Longrightarrow> Q (res, []) (s\<lparr>ext := e\<rparr>)"
  shows "wp (read_ta_identity_blob P) Q s"
  unfolding read_ta_identity_blob_def wp_bind
proof (rule wp_open_persistent [OF laws], goal_cases)
  case (1 e)
  then obtain c where c: "V (ext s) TA_IDENTITY_OBJID = Some c" by auto
  then have ce: "V e TA_IDENTITY_OBJID = Some c"
    by (rule map_le_Some [OF 1(1)])
  show ?case
    apply (simp add: wp_case_prod)
    apply (rule wp_read_object_data [OF laws])
    subgoal for bs e'
      using ce ok [OF map_le_trans [OF 1(1)] c] fail [OF map_le_trans [OF 1(1)]]
      by (auto simp: blob_wf_def)
    subgoal for res bs e'
      using fail [OF map_le_trans [OF 1(1)]] by simp
    done
qed (simp_all add: absent fail)

text \<open>
  A signature is over the labelled pre-image the server rebuilds, with the sealed
  device id, under the sealed scalar. Failures leave nothing behind; a panic leaves the
  handles to the teardown of the TA.
\<close>

definition identity_sig :: "'e platform \<Rightarrow> bytes \<Rightarrow> bytes \<Rightarrow> bytes \<Rightarrow> bytes \<Rightarrow> 'e \<Rightarrow> bytes option" where
  "identity_sig P blob nonce server_pub device_pub e =
     fst (p_sign P (blob_d blob)
       (p_sha256 P (ta_identity_preimage (blob_id blob) nonce server_pub device_pub)) e)"


lemma wp_sign_out [simp, wp_simps]:
  "wp (sign_out d g k res) Q s =
     Q (Ret res) (let s = (if d then s\<lparr>n_operations := n_operations s - 1\<rparr> else s);
                      s = (if g then s\<lparr>n_operations := n_operations s - 1\<rparr> else s)
                  in (if k then s\<lparr>n_objects := n_objects s - 1\<rparr> else s))"
  by (simp add: sign_out_def)

lemma wp_sign_ta_identity [contracts]:
  assumes laws: "platform_laws V P"
    and room: "i < length (shm s)" "off + 64 \<le> length (shm s ! i)"
    and pubs: "length server_pub = 65" "length device_pub = 65"
    and ok: "\<And>c blob sig e0 e. V (ext s) \<subseteq>\<^sub>m V e \<Longrightarrow> V (ext s) TA_IDENTITY_OBJID = Some c \<Longrightarrow>
      blob = take TA_IDENTITY_BLOB_SIZE c \<Longrightarrow> blob_wf blob \<Longrightarrow> or_bytes (blob_d blob) \<noteq> 0 \<Longrightarrow>
      identity_sig P blob nonce server_pub device_pub e0 = Some sig \<Longrightarrow> length sig = 64 \<Longrightarrow>
      Q (Ret TEE_SUCCESS) (s\<lparr>ext := e, shm := (shm s)[i := splice off sig (shm s ! i)]\<rparr>)"
    and fail: "\<And>res e. V (ext s) \<subseteq>\<^sub>m V e \<Longrightarrow> res \<noteq> TEE_SUCCESS \<Longrightarrow> Q (Ret res) (s\<lparr>ext := e\<rparr>)"
    and panic: "\<And>e. V (ext s) \<subseteq>\<^sub>m V e \<Longrightarrow>
      Q Panicked (s\<lparr>n_objects := Suc (n_objects s), n_operations := Suc (n_operations s), ext := e\<rparr>)"
  shows "wp (sign_ta_identity P nonce server_pub device_pub i off) Q s"
proof -
  note check = checks [OF laws, where base = "V (ext s)"]
  have blob_fields: "sub 0 32 b = blob_d b" "sub 97 (blob_idlen b) b = blob_id b" for b
    by (simp_all add: blob_d_def blob_id_def)
  show ?thesis
    unfolding sign_ta_identity_def Let_def wp_bind
    apply (rule wp_read_ta_identity_blob [OF laws])
      apply (simp_all add: fail wp_case_prod del: TA_IDENTITY_BLOB_SIZE_def)
    apply (intro impI)
    apply (rule check, simp_all add: fail)
    apply (rule wp_tee_call_from [OF laws, where base = "V (ext s)"], simp)
    apply (simp add: fail)
    apply (intro impI)
    apply (rule check, simp_all add: fail)
    apply (rule check, simp_all add: fail)
    apply (rule check, simp_all add: fail)
    apply (rule check, simp_all add: fail)
    apply (rule wp_sign_from [OF laws, where base = "V (ext s)"], simp)
    subgoal premises prems for c _ _ _ _ _ _ _ e0 e
    proof (cases "fst (p_sign P (blob_d (take 160 c)) (p_sha256 P (ta_identity_preimage
        (blob_id (take 160 c)) nonce server_pub device_pub)) e0)")
      case None
      with prems show ?thesis
        by (simp add: panic blob_fields pubs ta_identity_preimage_def)
    next
      case (Some sig)
      then have len: "length sig = 64" by (rule sign_size [OF laws])
      from Some have "identity_sig P (take 160 c) nonce server_pub device_pub e0 = Some sig"
        by (simp add: identity_sig_def)
      then have "\<And>e. V (ext s) \<subseteq>\<^sub>m V e \<Longrightarrow> V (ext s) TA_IDENTITY_OBJID = Some c \<Longrightarrow>
          blob_wf (take 160 c) \<Longrightarrow> or_bytes (blob_d (take 160 c)) \<noteq> 0 \<Longrightarrow>
          Q (Ret TEE_SUCCESS) (s\<lparr>ext := e, shm := (shm s)[i := splice off sig (shm s ! i)]\<rparr>)"
        using ok len by simp
      with Some len room prems show ?thesis
        by (simp add: blob_fields pubs ta_identity_preimage_def wp_shm_write)
    qed
    done
qed


text \<open>
  The provisioning command. Success means the sealed object is bound to the device id that
  was asked for and its public half is in the output buffer; \<open>device_id\<close> is the copy the
  command took.
\<close>

definition identity_provisioned ::
    "'e storage_view \<Rightarrow> nat \<Rightarrow> bytes \<Rightarrow> 'e ta_state \<Rightarrow> bool" where
  "identity_provisioned V id_len device_id t \<longleftrightarrow>
     (\<exists>c. V (ext t) TA_IDENTITY_OBJID = Some c \<and> blob_wf (take TA_IDENTITY_BLOB_SIZE c) \<and>
        blob_idlen (take TA_IDENTITY_BLOB_SIZE c) = id_len \<and>
        blob_id (take TA_IDENTITY_BLOB_SIZE c) = device_id \<and>
        take ECDH_PUBKEY_SIZE (shm t ! 1) = ta_identity_blob_to_sec1 (take TA_IDENTITY_BLOB_SIZE c))"

definition identity_post ::
    "'e storage_view \<Rightarrow> nat \<Rightarrow> bytes \<Rightarrow> 'e ta_state \<Rightarrow> TEE_Result \<Rightarrow> 'e ta_state \<Rightarrow> bool" where
  "identity_post V id_len device_id s res t \<longleftrightarrow>
     tidy V s t \<and> sess t = sess s \<and> n_objects t = n_objects s \<and> n_sessions t = n_sessions s \<and>
     (if res = TEE_SUCCESS
      then identity_provisioned V id_len device_id t \<and> psize t = (psize s)[1 := ECDH_PUBKEY_SIZE]
      else psize t = psize s)"

lemma wp_export_identity [simp]:
  "blob_wf blob \<Longrightarrow> 1 < length (shm s) \<Longrightarrow> 65 \<le> length (shm s ! 1) \<Longrightarrow>
   wp (export_identity live blob) Q s =
     Q TEE_SUCCESS (let s = s\<lparr>shm := (shm s)[1 := splice 0 (ta_identity_blob_to_sec1 blob) (shm s ! 1)],
         psize := (psize s)[1 := 65]\<rparr> in if live then s\<lparr>n_objects := n_objects s - 1\<rparr> else s)"
  by (simp add: export_identity_def identity_out_def wp_def shm_write_def set_size_def free_object_def blob_wf_def)

lemma wp_identity_out [simp]:
  "wp (identity_out live res) Q s = Q res (if live then s\<lparr>n_objects := n_objects s - 1\<rparr> else s)"
  by (simp add: identity_out_def)

text \<open>On the way: what holds between the copy of the id and the result, \<open>k\<close> objects being held.\<close>

definition identity_mid :: "'e storage_view \<Rightarrow> nat \<Rightarrow> 'e ta_state \<Rightarrow> 'e ta_state \<Rightarrow> bool" where
  "identity_mid V k s u \<longleftrightarrow> tidy V s u \<and> sess u = sess s \<and> n_objects u = n_objects s + k \<and>
     n_sessions u = n_sessions s \<and> psize u = psize s \<and> 1 < length (shm u) \<and> 65 \<le> length (shm u ! 1)"

lemma identity_post_fail:
  "identity_mid V k s u \<Longrightarrow> res \<noteq> TEE_SUCCESS \<Longrightarrow> V (ext u) \<subseteq>\<^sub>m V e \<Longrightarrow>
   identity_post V id_len device_id s res (u\<lparr>ext := e, n_objects := n_objects u - k\<rparr>)"
  by (auto simp: identity_mid_def identity_post_def tidy_def intro: map_le_trans)

lemma identity_post_ok:
  assumes mid: "identity_mid V k s u" and grown: "V (ext u) \<subseteq>\<^sub>m V e"
    and c: "V e TA_IDENTITY_OBJID = Some c" "blob = take TA_IDENTITY_BLOB_SIZE c" "blob_wf blob"
    and id: "\<not> id_mismatch blob id_len device_id"
  shows "identity_post V id_len device_id s TEE_SUCCESS
    (u\<lparr>ext := e, shm := (shm u)[1 := splice 0 (ta_identity_blob_to_sec1 blob) (shm u ! 1)],
       psize := (psize s)[1 := 65], n_objects := n_objects u - k\<rparr>)"
proof -
  have len: "length (ta_identity_blob_to_sec1 blob) = 65"
    using c by (simp add: blob_wf_def)
  then have "take 65 (splice 0 (ta_identity_blob_to_sec1 blob) (shm u ! 1)) = ta_identity_blob_to_sec1 blob"
    by (metis take_splice_0)
  with assms len show ?thesis
    by (auto simp: identity_mid_def identity_post_def identity_provisioned_def id_mismatch_def
        blob_id_def tidy_def intro: map_le_trans)
qed

lemma wp_seal_identity:
  assumes laws: "platform_laws V P" and mid: "identity_mid V 1 s u"
    and blob: "blob_wf blob" "\<not> id_mismatch blob id_len device_id"
  shows "wp (seal_identity P id_len device_id blob) (identity_post V id_len device_id s) u"
  unfolding seal_identity_def wp_bind
proof (rule wp_create_persistent [OF laws], goal_cases)
  case 1
  then show ?case by simp
next
  case (2 e)
  from identity_post_ok [OF mid 2(1,3), of blob id_len device_id] blob mid
  show ?case by (simp add: identity_mid_def blob_wf_def)
next
  case (3 e)
  have ext: "identity_mid V 1 s (u\<lparr>ext := e\<rparr>)"
    using mid 3(1) by (auto simp: identity_mid_def tidy_def intro: map_le_trans)
  from mid have room: "1 < length (shm u)" "65 \<le> length (shm u ! 1)" "psize u = psize s"
    by (simp_all add: identity_mid_def)
  have lost: "identity_post V id_len device_id s res (u\<lparr>ext := e', n_objects := n_objects u - Suc 0\<rparr>)"
    if "res \<noteq> TEE_SUCCESS" "V e \<subseteq>\<^sub>m V e'" for res e'
    using identity_post_fail [OF ext that(1)] that(2) by simp
  show ?case
    apply (simp add: wp_case_prod del: One_nat_def)
    apply (rule wp_read_ta_identity_blob [OF laws])
    subgoal for c e'
      using identity_post_ok [OF ext, of e' c "take 160 c" id_len device_id] room
        map_le_Some [of "V e" "V e'" TA_IDENTITY_OBJID c]
      by (simp add: lost)
    by (simp_all add: lost)
next
  case (4 res e)
  then show ?case
    using identity_post_fail [OF mid 4(2,1)] by simp
qed

lemma wp_mint_identity:
  assumes laws: "platform_laws V P" and mid: "identity_mid V 0 s u"
    and id: "length device_id = id_len" "0 < id_len" "id_len \<le> 63"
  shows "wp (mint_identity P id_len device_id) (identity_post V id_len device_id s) u"
proof -
  note check = checks [OF laws, where base = "V (ext u)"]
  have fail0: "identity_post V id_len device_id s res (u\<lparr>ext := e\<rparr>)"
    if "res \<noteq> TEE_SUCCESS" "V (ext u) \<subseteq>\<^sub>m V e" for res e
    using identity_post_fail [OF mid that] by simp
  have seal: "wp (seal_identity P id_len device_id
        (fill_blob (lpad 32 d) (lpad 32 x) (lpad 32 y) id_len device_id))
      (identity_post V id_len device_id s) (u\<lparr>n_objects := Suc (n_objects u), ext := e\<rparr>)"
    if "length d \<le> 32" "length x \<le> 32" "length y \<le> 32" "V (ext u) \<subseteq>\<^sub>m V e" for d x y e
  proof (rule wp_seal_identity [OF laws])
    let ?b = "fill_blob (lpad 32 d) (lpad 32 x) (lpad 32 y) id_len device_id"
    have b: "?b = identity_blob (lpad 32 d) (lpad 32 x) (lpad 32 y) device_id"
      using id that by (simp add: fill_blob_layout)
    note f = identity_blob_fields [of "lpad 32 d" "lpad 32 x" "lpad 32 y" device_id]
    show "blob_wf ?b"
      unfolding b using id that by (intro f(1)) simp_all
    have "blob_idlen ?b = id_len" "blob_id ?b = device_id"
      unfolding b using id that f(5,6) by simp_all
    then show "\<not> id_mismatch ?b id_len device_id"
      by (simp add: id_mismatch_def blob_id_def)
    show "identity_mid V 1 s (u\<lparr>n_objects := Suc (n_objects u), ext := e\<rparr>)"
      using mid that(4) by (auto simp: identity_mid_def tidy_def intro: map_le_trans)
  qed
  show ?thesis
    unfolding mint_identity_def wp_bind
    by (rule check; simp add: fail0 seal)+
qed

lemma wp_ta_generate_ta_identity:
  assumes laws: "platform_laws V P" and ready: "cmd_ready s"
  shows "wp (ta_generate_ta_identity P types)
    (\<lambda>res t. \<exists>device_id. length device_id = psize s ! 0 \<and> (quiet_host P \<longrightarrow> device_id = shm s ! 0) \<and>
       identity_post V (psize s ! 0) device_id s res t) s"
proof -
  note check = checks [OF laws, where base = "V (ext s)"]
  note sz = cmd_ready_D [OF ready]
  have bad: "\<exists>device_id. length device_id = psize s ! 0 \<and> (quiet_host P \<longrightarrow> device_id = shm s ! 0) \<and>
       identity_post V (psize s ! 0) device_id s res s" if "res \<noteq> TEE_SUCCESS" for res
    using that sz by (auto simp: identity_post_def tidy_def)
  show ?thesis
    unfolding ta_generate_ta_identity_def Let_def wp_bind
    apply (simp add: bad)
    apply (intro impI)
    apply (rule wp_shm_read [OF laws])
      apply (simp add: sz)
     apply (simp add: sz)
    subgoal premises p for device_id m e
    proof -
      let ?n = "psize s ! 0" and ?u = "s\<lparr>shm := m, ext := e\<rparr>"
      have mid: "identity_mid V 0 s (?u\<lparr>ext := e'\<rparr>)" if "V e \<subseteq>\<^sub>m V e'" for e'
        using p(1,4,5) that sz same_sizes_D [OF p(5) ready]
        by (auto simp: identity_mid_def tidy_def intro: map_le_trans)
      have stop: "identity_post V ?n device_id s res (?u\<lparr>ext := e'\<rparr>)"
        if "V e \<subseteq>\<^sub>m V e'" "res \<noteq> TEE_SUCCESS" for res e'
        using identity_post_fail [OF mid [OF that(1)] that(2)] by simp
      have found: "wp (export_identity False blob) (identity_post V ?n device_id s) (?u\<lparr>ext := e'\<rparr>)"
        if "V e \<subseteq>\<^sub>m V e'" "V e TA_IDENTITY_OBJID = Some c" "blob = take 160 c" "blob_wf blob"
          "\<not> id_mismatch blob ?n device_id" for e' c blob
        using identity_post_ok [OF mid [OF that(1)], of e' c blob ?n device_id] that
          map_le_Some [OF that(1,2)] mid [OF that(1)]
        by (simp add: identity_mid_def)
      have "wp (read_ta_identity_blob P) (\<lambda>a. wp (case a of (res, blob) \<Rightarrow>
          if res = TEE_SUCCESS
          then if id_mismatch blob ?n device_id then identity_out False TEE_ERROR_ACCESS_CONFLICT
               else export_identity False blob
          else if res \<noteq> TEE_ERROR_ITEM_NOT_FOUND then identity_out False res
          else mint_identity P ?n device_id) (identity_post V ?n device_id s)) ?u"
        apply (rule wp_read_ta_identity_blob [OF laws])
        subgoal for c e'
          using found [of e' c "take 160 c"] stop [of e' TEE_ERROR_ACCESS_CONFLICT] by simp
        subgoal for e'
          using wp_mint_identity [OF laws mid [of e'], of device_id ?n] p by simp
        subgoal for res e'
          using wp_mint_identity [OF laws mid [of e'], of device_id ?n] stop [of e' res] p by simp
        done
      moreover have "length device_id = ?n \<and> (quiet_host P \<longrightarrow> device_id = shm s ! 0)"
        using p(6,7) sz by simp
      ultimately show ?thesis
        by (auto elim!: wp_mono)
    qed
    done
qed

end
