(* ===== verification/TaHandshake.thy ===== *)
theory TaHandshake
  imports TaIdentity
begin

text \<open>
  The two phases of the handshake (trusted_app.c): the attestation evidence over a fresh
  ephemeral key, and the completion, which authenticates the server on first use and only
  then derives the session key.
\<close>

section \<open>Phase 1: attestation evidence\<close>

definition err_free_keypair :: "TEE_Result \<Rightarrow> ('e, TEE_Result outcome) ta" where
  "err_free_keypair res = do {
     free_object True;
     upd_sess (\<lambda>x. x\<lparr>ecdh_keypair := None\<rparr>);
     State_Monad.return (Ret res) }"

text \<open>From the published point to the signed evidence block.\<close>

definition publish_evidence ::
    "'e platform \<Rightarrow> bytes \<Rightarrow> bytes \<Rightarrow> bytes \<Rightarrow> ('e, TEE_Result outcome) ta" where
  "publish_evidence P nonce server_pub device_pub = do {
     shm_write 0 0 device_pub;
     set_size 0 ECDH_PUBKEY_SIZE;
     res \<leftarrow> alloc_operation P TEE_ALG_SHA256 TEE_MODE_DIGEST 0;
     if res \<noteq> TEE_SUCCESS then err_free_keypair res
     else do {
       res \<leftarrow> tee_call P DigestDoFinal;
       let hash = p_sha256 P (nonce @ server_pub @ device_pub);
       (if res = TEE_SUCCESS then shm_write 3 0 hash else State_Monad.return ());
       free_operation True;
       if res \<noteq> TEE_SUCCESS then err_free_keypair res
       else if length hash \<noteq> TRANSCRIPT_HASH_SIZE then err_free_keypair TEE_ERROR_BAD_STATE
       else do {
         r \<leftarrow> sign_ta_identity P nonce server_pub device_pub 3 TRANSCRIPT_HASH_SIZE;
         case r of
           Panicked \<Rightarrow> State_Monad.return Panicked
         | Ret res \<Rightarrow>
             if res \<noteq> TEE_SUCCESS then err_free_keypair res
             else do {
               set_size 3 EVIDENCE_BLOCK_SIZE;
               State_Monad.return (Ret TEE_SUCCESS) } } } }"

definition fresh_evidence :: "'e platform \<Rightarrow> bytes \<Rightarrow> bytes \<Rightarrow> ('e, TEE_Result outcome) ta" where
  "fresh_evidence P nonce server_pub = do {
     kp \<leftarrow> get_sess ecdh_keypair;
     (if kp \<noteq> None then do {
        free_object True;
        upd_sess (\<lambda>x. x\<lparr>ecdh_keypair := None\<rparr>) } else State_Monad.return ());
     upd_sess (\<lambda>x. x\<lparr>session_key_valid := False\<rparr>);
     res \<leftarrow> alloc_object P TEE_TYPE_ECDH_KEYPAIR 256;
     if res \<noteq> TEE_SUCCESS then State_Monad.return (Ret res)
     else do {
       upd_sess (\<lambda>x. x\<lparr>ecdh_keypair := Some blank_key\<rparr>);
       (res, key) \<leftarrow> generate_key P TEE_TYPE_ECDH_KEYPAIR;
       if res \<noteq> TEE_SUCCESS then err_free_keypair res
       else do {
         upd_sess (\<lambda>x. x\<lparr>ecdh_keypair := Some key\<rparr>);
         (res, x) \<leftarrow> read_ec_coordinate P TEE_ATTR_ECC_PUBLIC_VALUE_X key;
         if res \<noteq> TEE_SUCCESS then err_free_keypair res
         else do {
           (res, y) \<leftarrow> read_ec_coordinate P TEE_ATTR_ECC_PUBLIC_VALUE_Y key;
           if res \<noteq> TEE_SUCCESS then err_free_keypair res
           else publish_evidence P nonce server_pub (0x04 # x @ y) } } } }"

definition ta_generate_attestation_evidence ::
    "'e platform \<Rightarrow> ptype list \<Rightarrow> ('e, TEE_Result outcome) ta" where
  "ta_generate_attestation_evidence P param_types =
     (if param_types \<noteq> [PT_MEMREF_OUTPUT, PT_MEMREF_INPUT, PT_MEMREF_INPUT, PT_MEMREF_OUTPUT]
      then State_Monad.return (Ret TEE_ERROR_BAD_PARAMETERS)
      else do {
        n0 \<leftarrow> get_size 0;
        nonce_len \<leftarrow> get_size 1;
        n2 \<leftarrow> get_size 2;
        n3 \<leftarrow> get_size 3;
        if n0 < ECDH_PUBKEY_SIZE then State_Monad.return (Ret TEE_ERROR_SHORT_BUFFER)
        else if nonce_len = 0 \<or> nonce_len > NONCE_MAX
        then State_Monad.return (Ret TEE_ERROR_BAD_PARAMETERS)
        else if n2 \<noteq> ECDH_PUBKEY_SIZE then State_Monad.return (Ret TEE_ERROR_BAD_PARAMETERS)
        else if n3 < EVIDENCE_BLOCK_SIZE then State_Monad.return (Ret TEE_ERROR_SHORT_BUFFER)
        else do {
          nonce \<leftarrow> shm_read P 1 0 nonce_len;
          server_pub \<leftarrow> shm_read P 2 0 ECDH_PUBKEY_SIZE;
          fresh_evidence P nonce server_pub } })"

section \<open>Server authentication\<close>

text \<open>
  The pointers \<open>nonce\<close>, \<open>server_ecdh_pub\<close>, \<open>server_identity_pub\<close> and \<open>sig\<close> are the shared
  buffers 1, 0, 2 and 3: each use reads the buffer again.
\<close>

definition verify_digest ::
    "'e platform \<Rightarrow> bytes \<Rightarrow> bytes \<Rightarrow> bytes \<Rightarrow> ('e, TEE_Result) ta" where
  "verify_digest P key_xy digest sig = do {
     res \<leftarrow> tee_call P AsymmetricVerifyDigest;
     State_Monad.return
       (if res \<noteq> TEE_SUCCESS then res
        else if p_verify P (take 32 key_xy) (drop 32 key_xy) digest sig then TEE_SUCCESS
        else TEE_ERROR_SIGNATURE_INVALID) }"

definition verify_out :: "bool \<Rightarrow> TEE_Result \<Rightarrow> ('e, TEE_Result) ta" where
  "verify_out verify_op res = do {
     free_operation verify_op;
     free_object True;
     State_Monad.return res }"

definition pin_server :: "'e platform \<Rightarrow> ('e, TEE_Result) ta" where
  "pin_server P = do {
     server_identity_pub \<leftarrow> shm_read P 2 0 ECDH_PUBKEY_SIZE;
     res \<leftarrow> create_persistent P SERVER_PUBKEY_OBJID [TEE_DATA_FLAG_ACCESS_WRITE] server_identity_pub;
     if res = TEE_ERROR_ACCESS_CONFLICT then State_Monad.return TEE_SUCCESS
     else if res = TEE_SUCCESS then do { close_object; State_Monad.return res }
     else State_Monad.return res }"

text \<open>\<open>pinned = None\<close> is the first use (\<open>need_pin\<close>), where the presented key verifies itself.\<close>

definition verify_server :: "'e platform \<Rightarrow> bytes \<Rightarrow> bytes option \<Rightarrow> ('e, TEE_Result) ta" where
  "verify_server P digest pinned = do {
     res \<leftarrow> alloc_object P TEE_TYPE_ECDSA_PUBLIC_KEY 256;
     if res \<noteq> TEE_SUCCESS then State_Monad.return res
     else do {
       key_xy \<leftarrow> (case pinned of
         None \<Rightarrow> shm_read P 2 1 64
       | Some k \<Rightarrow> State_Monad.return (drop 1 k));
       res \<leftarrow> tee_call P (PopulateTransientObject TEE_TYPE_ECDSA_PUBLIC_KEY);
       if res \<noteq> TEE_SUCCESS then verify_out False res
       else do {
         res \<leftarrow> alloc_operation P TEE_ALG_ECDSA_P256 TEE_MODE_VERIFY 256;
         if res \<noteq> TEE_SUCCESS then verify_out False res
         else do {
           res \<leftarrow> tee_call P (SetOperationKey TEE_ALG_ECDSA_P256);
           if res \<noteq> TEE_SUCCESS then verify_out True res
           else do {
             sig \<leftarrow> shm_read P 3 0 SERVER_SIG_SIZE;
             res \<leftarrow> verify_digest P key_xy digest sig;
             if res \<noteq> TEE_SUCCESS then verify_out True TEE_ERROR_SIGNATURE_INVALID
             else if pinned = None then do { res \<leftarrow> pin_server P; verify_out True res }
             else verify_out True res } } } } }"

definition find_and_verify :: "'e platform \<Rightarrow> bytes \<Rightarrow> ('e, TEE_Result) ta" where
  "find_and_verify P digest = do {
     res \<leftarrow> open_persistent P SERVER_PUBKEY_OBJID;
     if res = TEE_SUCCESS then do {
       (res, pinned) \<leftarrow> read_object_data P SERVER_PUBKEY_OBJID ECDH_PUBKEY_SIZE;
       close_object;
       if res \<noteq> TEE_SUCCESS then State_Monad.return res
       else if length pinned \<noteq> ECDH_PUBKEY_SIZE then State_Monad.return TEE_ERROR_BAD_STATE
       else do {
         presented \<leftarrow> shm_read P 2 0 ECDH_PUBKEY_SIZE;
         if pinned \<noteq> presented then State_Monad.return TEE_ERROR_ACCESS_CONFLICT
         else verify_server P digest (Some pinned) } }
     else if res = TEE_ERROR_ITEM_NOT_FOUND then verify_server P digest None
     else State_Monad.return res }"

definition authenticate_server :: "'e platform \<Rightarrow> nat \<Rightarrow> bytes \<Rightarrow> nat \<Rightarrow> ('e, TEE_Result) ta" where
  "authenticate_server P nonce_len device_pub sig_len =
     (if sig_len \<noteq> SERVER_SIG_SIZE then State_Monad.return TEE_ERROR_BAD_PARAMETERS
      else do {
        b \<leftarrow> shm_read P 2 0 1;
        if b \<noteq> [0x04] then State_Monad.return TEE_ERROR_BAD_FORMAT
        else do {
          res \<leftarrow> alloc_operation P TEE_ALG_SHA256 TEE_MODE_DIGEST 0;
          if res \<noteq> TEE_SUCCESS then State_Monad.return res
          else do {
            nonce \<leftarrow> shm_read P 1 0 nonce_len;
            server_ecdh_pub \<leftarrow> shm_read P 0 0 ECDH_PUBKEY_SIZE;
            res \<leftarrow> tee_call P DigestDoFinal;
            let digest = p_sha256 P (SERVER_IDENTITY_LABEL @ nonce @ server_ecdh_pub @ device_pub);
            free_operation True;
            if res \<noteq> TEE_SUCCESS then State_Monad.return res
            else find_and_verify P digest } } })"

section \<open>Phase 2: key derivation\<close>

text \<open>
  The \<open>out\<close> label: the five handles that may be live, then the keypair, which is consumed
  either way.
\<close>

definition handshake_out ::
    "bool \<Rightarrow> bool \<Rightarrow> bool \<Rightarrow> bool \<Rightarrow> bool \<Rightarrow> TEE_Result \<Rightarrow> ('e, TEE_Result outcome) ta" where
  "handshake_out hkdf_op okm ikm ecdh_op shared res = do {
     free_operation hkdf_op;
     free_object okm;
     free_object ikm;
     free_operation ecdh_op;
     free_object shared;
     kp \<leftarrow> get_sess ecdh_keypair;
     (if kp \<noteq> None then do {
        free_object True;
        upd_sess (\<lambda>x. x\<lparr>ecdh_keypair := None\<rparr>) } else State_Monad.return ());
     State_Monad.return (Ret res) }"

definition derive_session_key :: "'e platform \<Rightarrow> nat \<Rightarrow> bytes \<Rightarrow> ('e, TEE_Result outcome) ta" where
  "derive_session_key P nonce_len secret = do {
     res \<leftarrow> alloc_object P TEE_TYPE_HKDF_IKM (length secret * 8);
     if res \<noteq> TEE_SUCCESS then handshake_out False False False True True res
     else do {
       res \<leftarrow> tee_call P (PopulateTransientObject TEE_TYPE_HKDF_IKM);
       if res \<noteq> TEE_SUCCESS then handshake_out False False True True True res
       else do {
         res \<leftarrow> alloc_object P TEE_TYPE_GENERIC_SECRET (SESSION_KEY_SIZE * 8);
         if res \<noteq> TEE_SUCCESS then handshake_out False False True True True res
         else do {
           res \<leftarrow> alloc_operation P TEE_ALG_HKDF_SHA256_DERIVE_KEY TEE_MODE_DERIVE (length secret * 8);
           if res \<noteq> TEE_SUCCESS then handshake_out False True True True True res
           else do {
             res \<leftarrow> tee_call P (SetOperationKey TEE_ALG_HKDF_SHA256_DERIVE_KEY);
             if res \<noteq> TEE_SUCCESS then handshake_out True True True True True res
             else do {
               salt \<leftarrow> shm_read P 1 0 nonce_len;
               let okm = p_hkdf P secret salt HKDF_INFO SESSION_KEY_SIZE;
               (res, key) \<leftarrow> get_attribute P TEE_ATTR_SECRET_VALUE okm SESSION_KEY_SIZE;
               (if res = TEE_SUCCESS then
                  upd_sess (\<lambda>x. x\<lparr>session_key := splice 0 key (session_key x),
                    session_key_valid := True, send_seq := 0\<rparr>)
                else State_Monad.return ());
               handshake_out True True True True True res } } } } } }"

text \<open>\<open>TEE_DeriveKey\<close> panics on a point it cannot use: then \<open>p_ecdh\<close> has no value.\<close>

definition derive_shared ::
    "'e platform \<Rightarrow> nat \<Rightarrow> ec_key \<Rightarrow> ('e, TEE_Result outcome) ta" where
  "derive_shared P nonce_len key = do {
     res \<leftarrow> alloc_object P TEE_TYPE_GENERIC_SECRET 256;
     if res \<noteq> TEE_SUCCESS then handshake_out False False False False False res
     else do {
       res \<leftarrow> alloc_operation P TEE_ALG_ECDH_P256 TEE_MODE_DERIVE 256;
       if res \<noteq> TEE_SUCCESS then handshake_out False False False False True res
       else do {
         res \<leftarrow> tee_call P (SetOperationKey TEE_ALG_ECDH_P256);
         if res \<noteq> TEE_SUCCESS then handshake_out False False False True True res
         else do {
           peer \<leftarrow> shm_read P 0 1 64;
           case p_ecdh P (ec_d key) (take 32 peer) (drop 32 peer) of
             None \<Rightarrow> State_Monad.return Panicked
           | Some z \<Rightarrow> do {
               (res, secret) \<leftarrow> get_attribute P TEE_ATTR_SECRET_VALUE z 32;
               if res \<noteq> TEE_SUCCESS then handshake_out False False False True True res
               else derive_session_key P nonce_len secret } } } } }"

definition ta_handshake_complete :: "'e platform \<Rightarrow> ptype list \<Rightarrow> ('e, TEE_Result outcome) ta" where
  "ta_handshake_complete P param_types =
     (if param_types \<noteq> [PT_MEMREF_INPUT, PT_MEMREF_INPUT, PT_MEMREF_INPUT, PT_MEMREF_INPUT]
      then State_Monad.return (Ret TEE_ERROR_BAD_PARAMETERS)
      else do {
        kp \<leftarrow> get_sess ecdh_keypair;
        n0 \<leftarrow> get_size 0;
        nonce_len \<leftarrow> get_size 1;
        n2 \<leftarrow> get_size 2;
        n3 \<leftarrow> get_size 3;
        case kp of
          None \<Rightarrow> State_Monad.return (Ret TEE_ERROR_BAD_STATE)
        | Some key \<Rightarrow>
            if n0 \<noteq> ECDH_PUBKEY_SIZE then State_Monad.return (Ret TEE_ERROR_BAD_PARAMETERS)
            else if n2 \<noteq> ECDH_PUBKEY_SIZE \<or> n3 \<noteq> SERVER_SIG_SIZE
            then State_Monad.return (Ret TEE_ERROR_BAD_PARAMETERS)
            else do {
              b \<leftarrow> shm_read P 0 0 1;
              if b \<noteq> [0x04] then State_Monad.return (Ret TEE_ERROR_BAD_FORMAT)
              else do {
                (res, dx) \<leftarrow> read_ec_coordinate P TEE_ATTR_ECC_PUBLIC_VALUE_X key;
                if res \<noteq> TEE_SUCCESS then handshake_out False False False False False res
                else do {
                  (res, dy) \<leftarrow> read_ec_coordinate P TEE_ATTR_ECC_PUBLIC_VALUE_Y key;
                  if res \<noteq> TEE_SUCCESS then handshake_out False False False False False res
                  else do {
                    res \<leftarrow> authenticate_server P nonce_len (0x04 # dx @ dy) n3;
                    if res \<noteq> TEE_SUCCESS then handshake_out False False False False False res
                    else derive_shared P nonce_len key } } } } })"

section \<open>What the evidence command does\<close>

definition device_point :: "ec_key \<Rightarrow> bytes" where
  "device_point key = 0x04 # lpad 32 (ec_x key) @ lpad 32 (ec_y key)"

lemma length_device_point [simp]: "key_fits key \<Longrightarrow> length (device_point key) = 65"
  by (simp add: device_point_def key_fits_def)

text \<open>
  The output of a successful run: the point of the pending keypair, the digest of the
  transcript over it and a signature of the sealed identity over it, all three over the
  same \<open>nonce\<close> and \<open>server_pub\<close>, the copies the command took. The pair is one the platform made.
\<close>

definition evidence_ok ::
    "'e storage_view \<Rightarrow> 'e platform \<Rightarrow> bytes \<Rightarrow> bytes \<Rightarrow> ec_key \<Rightarrow> 'e ta_state \<Rightarrow> 'e ta_state \<Rightarrow> bool" where
  "evidence_ok V P nonce server_pub key s t \<longleftrightarrow>
     key_fits key \<and> key_made P key \<and> sess t = (sess s)\<lparr>ecdh_keypair := Some key, session_key_valid := False\<rparr> \<and>
     take 65 (shm t ! 0) = device_point key \<and>
     take 32 (shm t ! 3) = p_sha256 P (transcript_preimage nonce server_pub (device_point key)) \<and>
     (\<exists>c e0 sig. V (ext t) TA_IDENTITY_OBJID = Some c \<and> blob_wf (take 160 c) \<and>
        take 64 (drop 32 (shm t ! 3)) = sig \<and>
        identity_sig P (take 160 c) nonce server_pub (device_point key) e0 = Some sig) \<and>
     psize t = (psize s)[0 := 65, 3 := 96]"

definition evidence_of_copies :: "'e storage_view \<Rightarrow> 'e platform \<Rightarrow> 'e ta_state \<Rightarrow> 'e ta_state \<Rightarrow> bool" where
  "evidence_of_copies V P s t \<longleftrightarrow> (\<exists>nonce server_pub key.
     length nonce = psize s ! 1 \<and> 0 < length nonce \<and> length nonce \<le> NONCE_MAX \<and>
     length server_pub = ECDH_PUBKEY_SIZE \<and>
     (quiet_host P \<longrightarrow> nonce = shm s ! 1 \<and> server_pub = shm s ! 2) \<and>
     evidence_ok V P nonce server_pub key s t)"

definition evidence_post ::
    "'e storage_view \<Rightarrow> 'e platform \<Rightarrow> 'e ta_state \<Rightarrow> TEE_Result outcome \<Rightarrow> 'e ta_state \<Rightarrow> bool" where
  "evidence_post V P s r t \<longleftrightarrow>
     (\<forall>res. r = Ret res \<longrightarrow> tidy V s t \<and> n_sessions t = n_sessions s \<and>
        n_objects t = key_handles (sess t) \<and>
        (if res = TEE_SUCCESS then evidence_of_copies V P s t
         else sess t \<in> {sess s, (sess s)\<lparr>ecdh_keypair := None, session_key_valid := False\<rparr>})) \<and>
     (r = Panicked \<longrightarrow> V (ext s) \<subseteq>\<^sub>m V (ext t) \<and> oob t = oob s)"

lemma evidence_post_okI:
  assumes "tidy V s t" "n_sessions t = n_sessions s" "n_objects t = 1"
    and "length nonce = psize s ! 1" "0 < length nonce" "length nonce \<le> NONCE_MAX"
    and "length server_pub = ECDH_PUBKEY_SIZE"
    and "quiet_host P \<longrightarrow> nonce = shm s ! 1 \<and> server_pub = shm s ! 2"
    and "evidence_ok V P nonce server_pub key s t"
  shows "evidence_post V P s (Ret TEE_SUCCESS) t"
proof -
  from assms(9) have "key_handles (sess t) = 1"
    by (simp add: evidence_ok_def key_handles_def)
  moreover have "evidence_of_copies V P s t"
    unfolding evidence_of_copies_def using assms(4-9) by blast
  ultimately show ?thesis
    using assms(1-3) by (simp add: evidence_post_def)
qed

lemma wp_err_free_keypair [simp]:
  "wp (err_free_keypair res) Q s =
     Q (Ret res) (s\<lparr>n_objects := n_objects s - 1, sess := (sess s)\<lparr>ecdh_keypair := None\<rparr>\<rparr>)"
  by (simp add: err_free_keypair_def)

text \<open>While the command runs, with the keypair \<open>k\<close> in place.\<close>

definition evidence_mid :: "'e storage_view \<Rightarrow> ec_key \<Rightarrow> 'e ta_state \<Rightarrow> 'e ta_state \<Rightarrow> bool" where
  "evidence_mid V k s u \<longleftrightarrow> tidy V s u \<and> n_sessions u = n_sessions s \<and> n_objects u = 1 \<and>
     sess u = (sess s)\<lparr>ecdh_keypair := Some k, session_key_valid := False\<rparr> \<and> psize u = psize s \<and>
     length (shm u) = 4 \<and> 65 \<le> length (shm u ! 0) \<and> 96 \<le> length (shm u ! 3)"

lemma wp_publish_evidence:
  assumes laws: "platform_laws V P" and mid: "evidence_mid V key s u" and key: "key_fits key" and made: "key_made P key"
    and sizes: "length nonce = psize s ! 1" "0 < length nonce" "length nonce \<le> NONCE_MAX"
      "length server_pub = 65"
    and quiet: "quiet_host P \<longrightarrow> nonce = shm s ! 1 \<and> server_pub = shm s ! 2"
  shows "wp (publish_evidence P nonce server_pub (device_point key)) (evidence_post V P s) u"
proof -
  let ?dev = "device_point key"
  note check = checks [OF laws, where base = "V (ext u)"]
  from mid have m: "length (shm u) = 4" "65 \<le> length (shm u ! 0)" "96 \<le> length (shm u ! 3)"
    "32 \<le> length (shm u ! 3)"
    by (simp_all add: evidence_mid_def)
  have hash: "length (p_sha256 P x) = 32" for x
    using platform_laws_D(4) [OF laws] by (simp add: crypto_sizes_def)
  have stop: "evidence_post V P s (Ret res) t"
    if "res \<noteq> TEE_SUCCESS" "V (ext u) \<subseteq>\<^sub>m V (ext t)" "map length (shm t) = map length (shm u)"
      "sess t = (sess u)\<lparr>ecdh_keypair := None\<rparr>" "n_objects t = n_objects u - 1" "oob t = oob u"
      "n_operations t = n_operations u" "n_persistent t = n_persistent u" "n_sessions t = n_sessions u"
    for res t
    using mid that by (auto simp: evidence_post_def evidence_mid_def tidy_def key_handles_def intro: map_le_trans)
  have panic: "evidence_post V P s Panicked t" if "V (ext u) \<subseteq>\<^sub>m V (ext t)" "oob t = oob u" for t
    using mid that by (auto simp: evidence_post_def evidence_mid_def tidy_def intro: map_le_trans)
  let ?m1 = "(shm u)[0 := splice 0 ?dev (shm u ! 0)]"
  let ?d3 = "splice 0 (p_sha256 P (nonce @ server_pub @ ?dev)) (shm u ! 3)"
  have finish: "evidence_post V P s (Ret TEE_SUCCESS) (u\<lparr>ext := e,
      shm := ?m1[3 := splice 32 sig ?d3], psize := (psize u)[0 := 65, 3 := 96]\<rparr>)"
    if "V (ext u) \<subseteq>\<^sub>m V e" "V e TA_IDENTITY_OBJID = Some c" "blob_wf (take 160 c)"
      "identity_sig P (take 160 c) nonce server_pub ?dev e0 = Some sig" "length sig = 64" for c sig e0 e
  proof -
    let ?t = "u\<lparr>ext := e, shm := ?m1[3 := splice 32 sig ?d3], psize := (psize u)[0 := 65, 3 := 96]\<rparr>"
    have at0: "shm ?t ! 0 = splice 0 ?dev (shm u ! 0)" and at3: "shm ?t ! 3 = splice 32 sig ?d3"
      using m by simp_all
    have "take 65 (splice 0 ?dev (shm u ! 0)) = ?dev"
      using key by (metis length_device_point take_splice_0)
    moreover have "take 32 ?d3 = p_sha256 P (nonce @ server_pub @ ?dev)"
      using hash by (metis take_splice_0)
    moreover have "take 64 (drop 32 (splice 32 sig ?d3)) = sig"
      using that(5) m hash by (metis length_splice add_0 take_drop_splice)
    ultimately have "evidence_ok V P nonce server_pub key s ?t"
      using that mid key made m hash
      by (simp add: evidence_ok_def at0 at3 evidence_mid_def transcript_preimage_def take_splice_before) blast
    moreover have "tidy V s ?t"
      using mid that m hash key by (auto simp: evidence_mid_def tidy_def intro: map_le_trans)
    ultimately show ?thesis
      using sizes quiet mid by (intro evidence_post_okI) (simp_all add: evidence_mid_def)
  qed
  show ?thesis
    unfolding publish_evidence_def Let_def wp_bind
    apply (rule wp_shm_write)
      apply (simp_all add: m key hash)
    apply (rule check; simp add: stop m key)
    apply (rule wp_tee_call_from [OF laws, where base = "V (ext u)"]; simp)
    apply (intro conjI impI)
     apply (rule wp_shm_write)
       apply (simp_all add: m hash key stop)
    apply (rule wp_sign_ta_identity [OF laws])
          apply (simp_all add: m hash key sizes)
    subgoal premises p for e res e1 c blob sig e0 e2
      using finish [of e2 c e0 sig] p map_le_Some [OF p(4,5)] map_le_trans [OF p(2,4)]
      by simp
    subgoal premises p for e res e1 res' e2
      using p map_le_trans [OF p(2,4)] by (intro stop) (simp_all add: m hash key)
    subgoal premises p for e res e1 e2
      using map_le_trans [OF p(2,4)] by (intro panic) simp_all
    done
qed

lemma wp_fresh_evidence:
  assumes laws: "platform_laws V P" and inv: "ta_inv V s"
    and u: "sess u = sess s" "n_objects u = n_objects s" "n_sessions u = n_sessions s" "psize u = psize s" "tidy V s u"
    and room: "length (shm u) = 4" "65 \<le> length (shm u ! 0)" "96 \<le> length (shm u ! 3)"
    and sizes: "length nonce = psize s ! 1" "0 < length nonce" "length nonce \<le> NONCE_MAX"
      "length server_pub = 65"
    and quiet: "quiet_host P \<longrightarrow> nonce = shm s ! 1 \<and> server_pub = shm s ! 2"
  shows "wp (fresh_evidence P nonce server_pub) (evidence_post V P s) u"
proof -
  note check = checks [OF laws, where base = "V (ext u)"]
  have stop: "evidence_post V P s (Ret res) t"
    if "res \<noteq> TEE_SUCCESS" "V (ext u) \<subseteq>\<^sub>m V (ext t)" "shm t = shm u"
      "sess t = (sess u)\<lparr>ecdh_keypair := None, session_key_valid := False\<rparr>" "n_objects t = 0" "oob t = oob u"
      "n_operations t = n_operations u" "n_persistent t = n_persistent u" "n_sessions t = n_sessions u"
    for res t
    using u that by (auto simp: evidence_post_def tidy_def key_handles_def intro: map_le_trans)
  have go: "wp (publish_evidence P nonce server_pub (0x04 # lpad 32 (ec_x key) @ lpad 32 (ec_y key)))
      (evidence_post V P s) t"
    if "key_fits key" "key_made P key" "V (ext u) \<subseteq>\<^sub>m V (ext t)" "shm t = shm u" "psize t = psize u"
      "sess t = (sess u)\<lparr>ecdh_keypair := Some key, session_key_valid := False\<rparr>" "n_objects t = 1" "oob t = oob u"
      "n_operations t = n_operations u" "n_persistent t = n_persistent u" "n_sessions t = n_sessions u"
    for key t
    using wp_publish_evidence [OF laws _ that(1,2) sizes quiet, of t] that u room
    by (auto simp: evidence_mid_def tidy_def device_point_def intro: map_le_trans)
  have n: "n_objects u = (if ecdh_keypair (sess u) = None then 0 else 1)"
    using inv u by (simp add: ta_inv_def key_handles_def)
  then have none: "ecdh_keypair (sess u) = None \<Longrightarrow> n_objects u = 0 \<and> (sess u)\<lparr>ecdh_keypair := None\<rparr> = sess u"
    and some: "\<exists>y. ecdh_keypair (sess u) = Some y \<Longrightarrow> n_objects u = 1"
    by auto
  show ?thesis
    unfolding fresh_evidence_def Let_def wp_bind
    apply (cases "ecdh_keypair (sess u) = None"; simp)
     apply (frule none)
     apply (rule check; simp add: stop)
     apply (rule check; simp add: stop)
     apply (rule check; simp add: stop)
     apply (rule check; simp add: stop go)
    apply (drule some)
    apply (rule check; simp add: stop)
    apply (rule check; simp add: stop)
    apply (rule check; simp add: stop)
    apply (rule check; simp add: stop go)
    done
qed

lemma wp_ta_generate_attestation_evidence:
  assumes laws: "platform_laws V P" and inv: "ta_inv V s" and ready: "cmd_ready s"
  shows "wp (ta_generate_attestation_evidence P types) (evidence_post V P s) s"
proof -
  note sz = cmd_ready_D [OF ready]
  have bad: "evidence_post V P s (Ret res) s" if "res \<noteq> TEE_SUCCESS" for res
    using that inv by (simp add: evidence_post_def tidy_def ta_inv_def)
  show ?thesis
    unfolding ta_generate_attestation_evidence_def Let_def wp_bind
    apply (simp add: bad)
    apply (intro impI)
    apply (rule wp_shm_read [OF laws])
      apply (simp_all add: sz)
    subgoal premises p for nonce m e
    proof (rule wp_shm_read [OF laws], goal_cases)
      from p have lm: "map length m = map length (shm s)" by simp
      note szm = same_sizes_D [OF lm ready]
      {
        case 1
        then show ?case using szm by simp
      next
        case 2
        then show ?case using szm p sz by simp
      next
        case q: (3 server_pub m' e')
        let ?u = "s\<lparr>shm := m, ext := e, shm := m', ext := e'\<rparr>"
        from q lm have len: "map length m' = map length (shm s)" by simp
        note sz' = same_sizes_D [OF len ready]
        have mono: "V (ext s) \<subseteq>\<^sub>m V e'"
          using p q by (auto intro: map_le_trans)
        have "wp (fresh_evidence P nonce server_pub) (evidence_post V P s) ?u"
        proof (rule wp_fresh_evidence [OF laws inv])
          show "quiet_host P \<longrightarrow> nonce = shm s ! 1 \<and> server_pub = shm s ! 2"
            using p q sz by simp
          show "tidy V s ?u"
            using mono len by (simp add: tidy_def)
        qed (use p q sz sz' in simp_all)
        then show ?case by simp
      }
    qed
    done
qed

section \<open>What server authentication does\<close>

definition handshake_sizes :: "nat \<Rightarrow> 'e ta_state \<Rightarrow> bool" where
  "handshake_sizes nonce_len s \<longleftrightarrow> length (shm s) = 4 \<and> length (shm s ! 0) = 65 \<and>
     length (shm s ! 1) = nonce_len \<and> length (shm s ! 2) = 65 \<and> length (shm s ! 3) = 64"

text \<open>A verified signature: under the pinned key if there is one, else under the presented one.\<close>

definition verified ::
    "'e platform \<Rightarrow> bytes \<Rightarrow> bytes option \<Rightarrow> 'e ta_state \<Rightarrow> bool" where
  "verified P digest pinned s \<longleftrightarrow> (\<exists>kxy sig. length kxy = 64 \<and> length sig = 64 \<and>
     p_verify P (take 32 kxy) (drop 32 kxy) digest sig \<and>
     (\<forall>k. pinned = Some k \<longrightarrow> kxy = drop 1 k) \<and>
     (quiet_host P \<longrightarrow> sig = shm s ! 3 \<and> (pinned = None \<longrightarrow> kxy = drop 1 (shm s ! 2))))"

lemma verified_pinned:
  assumes "verified P digest (Some k) s"
  obtains sig where "p_verify P (take 32 (drop 1 k)) (drop 32 (drop 1 k)) digest sig"
proof -
  from assms obtain kxy sig where v: "p_verify P (take 32 kxy) (drop 32 kxy) digest sig" and k: "kxy = drop 1 k"
    by (auto simp: verified_def)
  show thesis by (rule that) (use v in \<open>simp only: k\<close>)
qed

lemma wp_verify_out [simp]:
  "wp (verify_out g res) Q s = Q res (let s = (if g then s\<lparr>n_operations := n_operations s - 1\<rparr> else s)
     in s\<lparr>n_objects := n_objects s - 1\<rparr>)"
  by (simp add: verify_out_def)

lemma wp_pin_server:
  assumes laws: "platform_laws V P" and u: "frame V P k n s u" and sz: "handshake_sizes l s"
    and post: "\<And>res t. frame V P k n s t \<Longrightarrow>
      (res = TEE_SUCCESS \<longrightarrow> V (ext t) SERVER_PUBKEY_OBJID \<noteq> None) \<Longrightarrow> Q res t"
  shows "wp (pin_server P) Q u"
  unfolding pin_server_def wp_bind
proof (rule frame_shm_read [OF laws u], goal_cases)
  case (3 bs t)
  show ?case
    apply (rule wp_create_persistent [OF laws])
       apply simp_all
    subgoal premises p for e'
      using 3 p by (intro post) (auto simp: frame_def intro: map_le_trans)
    subgoal premises p for e'
      using 3 p by (intro post) (auto simp: frame_def intro: map_le_trans dest: map_le_Some)
    subgoal premises p for res e'
      using 3 p by (intro post) (auto simp: frame_def intro: map_le_trans)
    done
qed (use sz in \<open>simp_all add: handshake_sizes_def\<close>)

lemma wp_pick_key:
  assumes laws: "platform_laws V P" and u: "frame V P k n s u" and sz: "handshake_sizes l s"
    and pinned: "\<And>k. pinned = Some k \<Longrightarrow> length k = 65"
    and post: "\<And>kxy t. frame V P k n s t \<Longrightarrow> length kxy = 64 \<Longrightarrow> (\<forall>k. pinned = Some k \<longrightarrow> kxy = drop 1 k) \<Longrightarrow>
      (quiet_host P \<longrightarrow> pinned = None \<longrightarrow> kxy = drop 1 (shm s ! 2)) \<Longrightarrow> Q kxy t"
  shows "wp (case pinned of None \<Rightarrow> shm_read P 2 1 64 | Some k \<Rightarrow> State_Monad.return (drop 1 k)) Q u"
proof (cases pinned)
  case None
  have "wp (shm_read P 2 1 64) Q u"
    by (rule frame_shm_read [OF laws u]) (use sz None in \<open>auto simp: handshake_sizes_def intro: post\<close>)
  with None show ?thesis by simp
next
  case (Some k)
  with pinned show ?thesis by (simp add: post u)
qed

lemma wp_verify_digest:
  assumes laws: "platform_laws V P" and u: "frame V P k n s u"
    and "\<And>t. frame V P k n s t \<Longrightarrow> p_verify P (take 32 kxy) (drop 32 kxy) d sig \<Longrightarrow> Q TEE_SUCCESS t"
    and "\<And>res t. frame V P k n s t \<Longrightarrow> res \<noteq> TEE_SUCCESS \<Longrightarrow> Q res t"
  shows "wp (verify_digest P kxy d sig) Q u"
  unfolding verify_digest_def wp_bind
  by (rule frame_call [OF laws u]) (simp add: assms)

lemma wp_verify_server:
  assumes laws: "platform_laws V P" and u: "frame V P 0 0 s u" and sz: "handshake_sizes l s"
    and pinned: "\<And>k. pinned = Some k \<Longrightarrow> length k = 65 \<and> V (ext s) SERVER_PUBKEY_OBJID \<noteq> None"
    and fail: "\<And>res t. frame V P 0 0 s t \<Longrightarrow> res \<noteq> TEE_SUCCESS \<Longrightarrow> Q res t"
    and ok: "\<And>t. frame V P 0 0 s t \<Longrightarrow> verified P digest pinned s \<Longrightarrow>
      V (ext t) SERVER_PUBKEY_OBJID \<noteq> None \<Longrightarrow> Q TEE_SUCCESS t"
  shows "wp (verify_server P digest pinned) Q u"
proof -
  have out: "frame V P 0 0 s (t\<lparr>n_operations := n_operations t - Suc 0, n_objects := n_objects t - Suc 0\<rparr>)"
    "V (ext (t\<lparr>n_operations := n_operations t - Suc 0, n_objects := n_objects t - Suc 0\<rparr>)) = V (ext t)"
    if "frame V P 1 1 s t" for t
    using that by (simp_all add: frame_def)
  note [simp] = frame_free_object frame_free_operation fail
  have first_use: "wp (pin_server P) (\<lambda>a. wp (verify_out True a) Q) t"
    if t: "frame V P 1 1 s t" and v: "verified P digest pinned s" for t
  proof (rule wp_pin_server [OF laws t sz], goal_cases)
    case (1 res t')
    from ok [OF out(1) [OF 1(1)] v] fail [OF out(1) [OF 1(1)], of res] 1(2) show ?case
      by (cases "res = TEE_SUCCESS") simp_all
  qed
  have known: "Q TEE_SUCCESS (t\<lparr>n_operations := n_operations t - Suc 0, n_objects := n_objects t - Suc 0\<rparr>)"
    if t: "frame V P 1 1 s t" and v: "verified P digest pinned s" and k: "\<exists>k. pinned = Some k" for t
  proof -
    from k pinned have "V (ext t) SERVER_PUBKEY_OBJID \<noteq> None"
      using frame_sealed [OF t] by fastforce
    with ok [OF out(1) [OF t] v] show ?thesis by simp
  qed
  show ?thesis
    unfolding verify_server_def wp_bind
    apply (rule frame_alloc_object [OF laws u]; simp del: wp_case_option One_nat_def)
    apply (rule wp_pick_key [OF laws _ sz], assumption)
     apply (use pinned in simp)
    apply (simp only: wp_bind)
    apply (rule frame_tee_call [OF laws], assumption; simp)
    apply (rule frame_alloc_operation [OF laws], assumption; simp)
    apply (rule frame_tee_call [OF laws], assumption; simp)
    apply (rule frame_shm_read [OF laws], assumption)
    using sz apply (simp_all add: handshake_sizes_def)
    apply (rule wp_verify_digest [OF laws], assumption)
     apply (use out in simp_all)
    subgoal premises p for _ kxy _ _ _ _ sig _ t
    proof -
      have v: "verified P digest pinned s"
        unfolding verified_def using p by (intro exI [of _ kxy] exI [of _ sig]) simp
      from p have "frame V P 1 1 s t" by simp
      from first_use [OF this v] known [OF this v] show ?thesis by blast
    qed
    done
qed

lemma wp_find_and_verify:
  assumes laws: "platform_laws V P" and u: "frame V P 0 0 s u" and sz: "handshake_sizes l s"
    and fail: "\<And>res t. frame V P 0 0 s t \<Longrightarrow> res \<noteq> TEE_SUCCESS \<Longrightarrow> Q res t"
    and ok: "\<And>pinned t. frame V P 0 0 s t \<Longrightarrow> verified P digest pinned s \<Longrightarrow>
      (\<forall>c. V (ext s) SERVER_PUBKEY_OBJID = Some c \<longrightarrow> pinned = Some (take 65 c)) \<Longrightarrow>
      (\<forall>k. pinned = Some k \<longrightarrow> quiet_host P \<longrightarrow> k = shm s ! 2) \<Longrightarrow>
      V (ext t) SERVER_PUBKEY_OBJID \<noteq> None \<Longrightarrow> Q TEE_SUCCESS t"
  shows "wp (find_and_verify P digest) Q u"
  unfolding find_and_verify_def wp_bind
proof (rule wp_open_persistent [OF laws], goal_cases)
  case (1 e)
  obtain c where c: "V (ext u) SERVER_PUBKEY_OBJID = Some c"
    using 1(2) by auto
  have same: "c' = c" if "V (ext s) SERVER_PUBKEY_OBJID = Some c'" for c'
    using frame_sealed [OF u that] c by simp
  show ?case
    apply (simp add: wp_case_prod del: wp_bind)
    apply (simp only: wp_bind)
    apply (rule wp_read_object_data [OF laws])
    subgoal premises p for bs e'
    proof -
      have bs: "bs = take 65 c"
        using p map_le_Some [OF 1(1) c] by simp
      have mono: "V (ext u) \<subseteq>\<^sub>m V e'"
        using 1(1) p by (auto intro: map_le_trans)
      let ?s = "s\<lparr>ext := e'\<rparr>"
      have f: "frame V P 0 0 ?s (u\<lparr>ext := e'\<rparr>)"
        using u by (simp add: frame_def)
      have grown: "V (ext s) \<subseteq>\<^sub>m V e'"
        using u mono by (auto simp: frame_def intro: map_le_trans)
      have base: "frame V P 0 0 s t'" if "frame V P 0 0 ?s t'" for t'
        using that grown by (auto simp: frame_def intro: map_le_trans)
      have pin: "\<And>k. Some bs = Some k \<Longrightarrow> length k = 65 \<and> V (ext ?s) SERVER_PUBKEY_OBJID \<noteq> None"
        if "length bs = 65"
        using that map_le_Some [OF mono c] by simp
      have v: "verified P digest (Some bs) ?s \<Longrightarrow> verified P digest (Some bs) s"
        by (simp add: verified_def)
      show ?thesis
        apply (simp add: fail base [OF f])
        apply (intro impI)
        apply (rule frame_shm_read [OF laws f])
          apply (use sz in \<open>simp_all add: handshake_sizes_def fail base\<close>)
        apply (intro impI)
        subgoal premises q for presented t
        proof (rule wp_verify_server [OF laws q(2) _ pin [OF q(1)]])
          show "\<And>k. Some presented = Some k \<Longrightarrow> Some bs = Some k"
            using q by simp
          show "handshake_sizes l ?s"
            using sz by (simp add: handshake_sizes_def)
          fix t'
          assume t': "frame V P 0 0 ?s t'" "verified P digest (Some presented) ?s" "V (ext t') SERVER_PUBKEY_OBJID \<noteq> None"
          show "Q TEE_SUCCESS t'"
            using q same bs t'(2) by (intro ok [OF base [OF t'(1)] v _ _ t'(3)]) auto
        qed (use fail base in simp_all)
        done
    qed
    subgoal for res bs e'
      using 1(1) fail [OF frame_ext [OF u]] by (auto intro: map_le_trans)
    done
next
  case (2 e)
  have none: "V (ext s) SERVER_PUBKEY_OBJID = None"
    using 2(2) frame_sealed [OF u] by (metis option.exhaust)
  have "wp (verify_server P digest None) Q (u\<lparr>ext := e\<rparr>)"
    by (rule wp_verify_server [OF laws frame_ext [OF u 2(1)] sz])
      (use none in \<open>auto intro: fail ok\<close>)
  then show ?case by simp
next
  case (3 res e)
  then show ?case
    using fail [OF frame_ext [OF u 3(1)]] by simp
qed

lemma wp_authenticate_server:
  assumes laws: "platform_laws V P" and u: "frame V P 0 0 s u" and sz: "handshake_sizes l s"
    and fail: "\<And>res t. frame V P 0 0 s t \<Longrightarrow> res \<noteq> TEE_SUCCESS \<Longrightarrow> Q res t"
    and ok: "\<And>nonce pub pinned t. frame V P 0 0 s t \<Longrightarrow>
      (quiet_host P \<longrightarrow> nonce = shm s ! 1 \<and> pub = shm s ! 0) \<Longrightarrow>
      verified P (p_sha256 P (server_identity_preimage nonce pub dev)) pinned s \<Longrightarrow>
      (\<forall>c. V (ext s) SERVER_PUBKEY_OBJID = Some c \<longrightarrow> pinned = Some (take 65 c)) \<Longrightarrow>
      (\<forall>k. pinned = Some k \<longrightarrow> quiet_host P \<longrightarrow> k = shm s ! 2) \<Longrightarrow>
      V (ext t) SERVER_PUBKEY_OBJID \<noteq> None \<Longrightarrow> Q TEE_SUCCESS t"
    and sig_len: "sig_len = 64"
  shows "wp (authenticate_server P l dev sig_len) Q u"
proof -
  from sz have sizes: "length (shm s) = 4" "length (shm s ! 0) = 65" "length (shm s ! 1) = l"
    "length (shm s ! Suc 0) = l" "length (shm s ! 2) = 65" by (simp_all add: handshake_sizes_def)
  show ?thesis
    unfolding authenticate_server_def Let_def wp_bind sig_len
    apply simp
    apply (rule frame_shm_read [OF laws u])
      apply (simp_all add: sizes fail del: One_nat_def)
    apply (intro impI)
    apply (rule frame_alloc_operation [OF laws], assumption)
     apply (simp_all add: fail del: One_nat_def)
    apply (rule frame_shm_read [OF laws], assumption)
      apply (simp_all add: sizes del: One_nat_def)
    apply (rule frame_shm_read [OF laws], assumption)
      apply (simp_all add: sizes del: One_nat_def)
    apply (rule frame_call [OF laws], assumption)
    apply (simp add: fail frame_free_operation)
    apply (intro impI)
    apply (rule wp_find_and_verify [OF laws frame_free_operation sz], assumption)
     apply (simp add: fail)
    apply (rule ok)
         apply (simp_all add: server_identity_preimage_def sizes)
    done
qed

section \<open>What completing the handshake does\<close>

text \<open>
  Success: a server signature over this session's transcript was verified, under the pinned
  key if one was sealed before; a server key is sealed now; and the session key is the HKDF
  output over the ECDH secret of the pending keypair, which is consumed.
\<close>

definition handshake_ok :: "'e storage_view \<Rightarrow> 'e platform \<Rightarrow> 'e ta_state \<Rightarrow> 'e ta_state \<Rightarrow> bool" where
  "handshake_ok V P s t \<longleftrightarrow> (\<exists>key nonce pub pinned peer z salt.
     ecdh_keypair (sess s) = Some key \<and>
     verified P (p_sha256 P (server_identity_preimage nonce pub (device_point key))) pinned s \<and>
     (\<forall>c. V (ext s) SERVER_PUBKEY_OBJID = Some c \<longrightarrow> pinned = Some (take 65 c)) \<and>
     V (ext t) SERVER_PUBKEY_OBJID \<noteq> None \<and>
     p_ecdh P (ec_d key) (take 32 peer) (drop 32 peer) = Some z \<and>
     sess t = (sess s)\<lparr>ecdh_keypair := None, session_key := p_hkdf P z salt HKDF_INFO 32,
       session_key_valid := True, send_seq := 0\<rparr> \<and>
     (quiet_host P \<longrightarrow> nonce = shm s ! 1 \<and> pub = shm s ! 0 \<and> peer = drop 1 (shm s ! 0) \<and> salt = shm s ! 1 \<and>
        (\<forall>k. pinned = Some k \<longrightarrow> k = shm s ! 2)))"

definition handshake_post ::
    "'e storage_view \<Rightarrow> 'e platform \<Rightarrow> 'e ta_state \<Rightarrow> TEE_Result outcome \<Rightarrow> 'e ta_state \<Rightarrow> bool" where
  "handshake_post V P s r t \<longleftrightarrow>
     (\<forall>res. r = Ret res \<longrightarrow> tidy V s t \<and> n_sessions t = n_sessions s \<and>
        n_objects t = key_handles (sess t) \<and> psize t = psize s \<and>
        (if res = TEE_SUCCESS then handshake_ok V P s t
         else sess t = sess s \<or> sess t = (sess s)\<lparr>ecdh_keypair := None\<rparr>)) \<and>
     (r = Panicked \<longrightarrow> V (ext s) \<subseteq>\<^sub>m V (ext t) \<and> oob t = oob s)"

text \<open>The \<open>out\<close> label frees whatever the command holds; then the keypair is gone.\<close>

lemma wp_handshake_out:
  fixes hop okm ikm eop sh :: bool
  assumes "frame V P (of_bool okm + of_bool ikm + of_bool sh) (of_bool hop + of_bool eop) s u"
    and kp: "ecdh_keypair (sess s) = Some key" "n_objects s = 1"
    and post: "\<And>t. tidy V s t \<Longrightarrow> n_sessions t = n_sessions s \<Longrightarrow> n_objects t = 0 \<Longrightarrow> psize t = psize s \<Longrightarrow>
      sess t = f (sess u)\<lparr>ecdh_keypair := None\<rparr> \<Longrightarrow> Q (Ret res) t"
    and f: "\<And>x. ecdh_keypair (f x) = ecdh_keypair x"
  shows "wp (handshake_out hop okm ikm eop sh res) Q (u\<lparr>sess := f (sess u)\<rparr>)"
  using assms(1,2,3) f
  unfolding handshake_out_def wp_bind frame_def
  by (cases hop; cases okm; cases ikm; cases eop; cases sh; simp; intro post; simp add: tidy_def)

lemma wp_derive_session_key:
  assumes laws: "platform_laws V P" and inv: "ta_inv V s" and kp: "ecdh_keypair (sess s) = Some key"
    and sz: "handshake_sizes l s" and u: "frame V P 1 1 s u"
    and fail: "\<And>res t. res \<noteq> TEE_SUCCESS \<Longrightarrow> tidy V s t \<Longrightarrow> n_sessions t = n_sessions s \<Longrightarrow> n_objects t = 0 \<Longrightarrow>
      psize t = psize s \<Longrightarrow> sess t = (sess s)\<lparr>ecdh_keypair := None\<rparr> \<Longrightarrow> Q (Ret res) t"
    and ok: "\<And>salt t. tidy V s t \<Longrightarrow> n_sessions t = n_sessions s \<Longrightarrow> n_objects t = 0 \<Longrightarrow> psize t = psize s \<Longrightarrow>
      (quiet_host P \<longrightarrow> salt = shm s ! 1) \<Longrightarrow>
      sess t = (sess s)\<lparr>ecdh_keypair := None, session_key := p_hkdf P z salt HKDF_INFO 32,
        session_key_valid := True, send_seq := 0\<rparr> \<Longrightarrow> Q (Ret TEE_SUCCESS) t"
  shows "wp (derive_session_key P l z) Q u"
proof -
  from sz have sizes: "length (shm s) = 4" "length (shm s ! 0) = 65" "length (shm s ! Suc 0) = l"
    by (simp_all add: handshake_sizes_def)
  have one: "n_objects s = 1"
    using inv kp by (simp add: ta_inv_def key_handles_def)
  have stop: "wp (handshake_out hop okm ikm eop sh res) Q t"
    if "frame V P (of_bool okm + of_bool ikm + of_bool sh) (of_bool hop + of_bool eop) s t" "res \<noteq> TEE_SUCCESS"
    for hop okm ikm eop sh res t
  proof -
    have same: "t\<lparr>sess := id (sess t)\<rparr> = t" by simp
    from that(1) have "sess t = sess s" by (simp add: frame_def)
    with wp_handshake_out [OF that(1) kp one, of id Q res, unfolded same] fail [OF that(2)]
    show ?thesis by simp
  qed
  show ?thesis
    unfolding derive_session_key_def Let_def wp_bind
    apply (rule frame_alloc_object [OF laws u]; simp add: stop)
    apply (rule frame_tee_call [OF laws], assumption; simp add: stop)
    apply (rule frame_alloc_object [OF laws], assumption; simp add: stop)
    apply (rule frame_alloc_operation [OF laws], assumption; simp add: stop)
    apply (rule frame_tee_call [OF laws], assumption; simp add: stop)
    apply (rule frame_shm_read [OF laws], assumption)
      apply (simp_all add: sizes)
    apply (rule frame_get_attribute [OF laws], assumption)
     apply (simp_all add: wp_case_prod stop)
    subgoal premises p for _ _ _ _ _ salt t1 t
    proof -
      let ?f = "\<lambda>x. x\<lparr>session_key := splice 0 (p_hkdf P z salt HKDF_INFO 32) (session_key x),
        session_key_valid := True, send_seq := 0\<rparr>"
      from p have t: "frame V P 3 2 s t" by (simp add: numeral_eq_Suc)
      then have fr: "frame V P (of_bool True + of_bool True + of_bool True) (of_bool True + of_bool True) s t"
        by (simp add: numeral_eq_Suc)
      have st: "sess t = sess s"
        using t by (simp add: frame_def)
      have key: "splice 0 (p_hkdf P z salt HKDF_INFO 32) (session_key (sess s)) = p_hkdf P z salt HKDF_INFO 32"
        using inv platform_laws_D(4) [OF laws] by (simp add: ta_inv_def session_wf_def crypto_sizes_def)
      have "wp (handshake_out True True True True True TEE_SUCCESS) Q (t\<lparr>sess := ?f (sess t)\<rparr>)"
      proof (rule wp_handshake_out [OF fr kp one, of ?f], goal_cases)
        case (1 t')
        with p show ?case by (intro ok [where salt = salt]) (simp_all add: st key)
      qed simp
      then show ?thesis by simp
    qed
    done
qed

lemma wp_derive_shared:
  assumes laws: "platform_laws V P" and inv: "ta_inv V s" and kp: "ecdh_keypair (sess s) = Some key"
    and sz: "handshake_sizes l s" and u: "frame V P 0 0 s u"
    and fail: "\<And>res t. res \<noteq> TEE_SUCCESS \<Longrightarrow> tidy V s t \<Longrightarrow> n_sessions t = n_sessions s \<Longrightarrow> n_objects t = 0 \<Longrightarrow>
      psize t = psize s \<Longrightarrow> sess t = (sess s)\<lparr>ecdh_keypair := None\<rparr> \<Longrightarrow> Q (Ret res) t"
    and panic: "\<And>t. V (ext s) \<subseteq>\<^sub>m V (ext t) \<Longrightarrow> oob t = oob s \<Longrightarrow> Q Panicked t"
    and ok: "\<And>peer z salt t. tidy V s t \<Longrightarrow> n_sessions t = n_sessions s \<Longrightarrow> n_objects t = 0 \<Longrightarrow>
      psize t = psize s \<Longrightarrow>
      (quiet_host P \<longrightarrow> peer = drop 1 (shm s ! 0) \<and> salt = shm s ! 1) \<Longrightarrow>
      p_ecdh P (ec_d key) (take 32 peer) (drop 32 peer) = Some z \<Longrightarrow>
      sess t = (sess s)\<lparr>ecdh_keypair := None, session_key := p_hkdf P z salt HKDF_INFO 32,
        session_key_valid := True, send_seq := 0\<rparr> \<Longrightarrow> Q (Ret TEE_SUCCESS) t"
  shows "wp (derive_shared P l key) Q u"
proof -
  from sz have sizes: "length (shm s) = 4" "length (shm s ! 0) = 65"
    by (simp_all add: handshake_sizes_def)
  have one: "n_objects s = 1"
    using inv kp by (simp add: ta_inv_def key_handles_def)
  have stop: "wp (handshake_out hop okm ikm eop sh res) Q t"
    if "frame V P (of_bool okm + of_bool ikm + of_bool sh) (of_bool hop + of_bool eop) s t" "res \<noteq> TEE_SUCCESS"
    for hop okm ikm eop sh res t
  proof -
    have same: "t\<lparr>sess := id (sess t)\<rparr> = t" by simp
    from that(1) have "sess t = sess s" by (simp add: frame_def)
    with wp_handshake_out [OF that(1) kp one, of id Q res, unfolded same] fail [OF that(2)]
    show ?thesis by simp
  qed
  show ?thesis
    unfolding derive_shared_def Let_def wp_bind
    apply (rule frame_alloc_object [OF laws u]; simp add: stop)
    apply (rule frame_alloc_operation [OF laws], assumption; simp add: stop)
    apply (rule frame_tee_call [OF laws], assumption; simp add: stop)
    apply (rule frame_shm_read [OF laws], assumption)
      apply (simp_all add: sizes)
    subgoal premises p for _ _ _ peer t
    proof (cases "p_ecdh P (ec_d key) (take 32 peer) (drop 32 peer)")
      case None
      with p(4) show ?thesis by (simp add: panic frame_def)
    next
      case (Some z)
      from p have t: "frame V P 1 1 s t" and peer: "quiet_host P \<longrightarrow> peer = drop 1 (shm s ! 0)"
        by simp_all
      have "wp (get_attribute P TEE_ATTR_SECRET_VALUE z 32) (\<lambda>a. wp (case a of (res, secret) \<Rightarrow>
          if res \<noteq> TEE_SUCCESS then handshake_out False False False True True res
          else derive_session_key P l secret) Q) t"
        apply (rule frame_get_attribute [OF laws t]; simp add: stop)
        apply (rule wp_derive_session_key [OF laws inv kp sz], simp)
        subgoal for res t' by (rule fail)
        subgoal for _ salt t' using Some peer by (intro ok [where peer = peer and salt = salt and z = z]) simp_all
        done
      with Some show ?thesis by simp
    qed
    done
qed

lemma ta_inv_ext: "ta_inv V s \<Longrightarrow> V (ext s) \<subseteq>\<^sub>m V e \<Longrightarrow> ta_inv V (s\<lparr>ext := e\<rparr>)"
  using map_le_not_None unfolding ta_inv_def by fastforce

lemma wp_ta_handshake_complete:
  assumes laws: "platform_laws V P" and inv: "ta_inv V s" and ready: "cmd_ready s"
  shows "wp (ta_handshake_complete P types) (handshake_post V P s) s"
proof -
  note sz = cmd_ready_D [OF ready]
  have hs: "handshake_sizes (psize s ! 1) s"
    if "psize s ! 0 = 65" "psize s ! 2 = 65" "psize s ! 3 = 64"
    using that sz by (simp add: handshake_sizes_def)
  have bad: "handshake_post V P s (Ret res) t" if "res \<noteq> TEE_SUCCESS" "frame V P 0 0 s t" for res t
    using that inv frame_tidy [OF that(2)] by (simp add: handshake_post_def frame_def ta_inv_def)
  have lost: "handshake_post V P s (Ret res) t"
    if "res \<noteq> TEE_SUCCESS" "tidy V s t" "n_sessions t = n_sessions s" "n_objects t = 0" "psize t = psize s"
      "sess t = (sess s)\<lparr>ecdh_keypair := None\<rparr>" for res t
    using that by (simp add: handshake_post_def key_handles_def)
  have stop: "wp (handshake_out False False False False False res) (handshake_post V P s) t"
    if "res \<noteq> TEE_SUCCESS" "frame V P 0 0 s t" "ecdh_keypair (sess s) = Some key" for res t key
  proof -
    have same: "t\<lparr>sess := id (sess t)\<rparr> = t" by simp
    have f: "frame V P (of_bool False + of_bool False + of_bool False) (of_bool False + of_bool False) s t"
      using that by simp
    have one: "n_objects s = 1"
      using inv that by (simp add: ta_inv_def key_handles_def)
    from that have "sess t = sess s" by (simp add: frame_def)
    with wp_handshake_out [OF f that(3) one, of id "handshake_post V P s" res, unfolded same] lost [OF that(1)]
    show ?thesis by simp
  qed
  have derive: "wp (derive_shared P l key) (handshake_post V P s) t"
    if key: "ecdh_keypair (sess s) = Some key" and l: "handshake_sizes l s" and f: "frame V P 0 0 s t"
      and auth: "verified P (p_sha256 P (server_identity_preimage nonce pub (device_point key))) pinned s"
        "\<forall>c. V (ext s) SERVER_PUBKEY_OBJID = Some c \<longrightarrow> pinned = Some (take 65 c)"
        "quiet_host P \<longrightarrow> nonce = shm s ! 1 \<and> pub = shm s ! 0"
        "\<forall>k. pinned = Some k \<longrightarrow> quiet_host P \<longrightarrow> k = shm s ! 2"
      and sealed: "V (ext t) SERVER_PUBKEY_OBJID \<noteq> None"
    for l key t nonce pub pinned
  proof -
    let ?s = "s\<lparr>ext := ext t\<rparr>"
    have grown: "V (ext s) \<subseteq>\<^sub>m V (ext t)" using f by (simp add: frame_def)
    have inv': "ta_inv V ?s" by (rule ta_inv_ext [OF inv grown])
    have f': "frame V P 0 0 ?s t" using f by (simp add: frame_def)
    have base: "tidy V s t'" if "tidy V ?s t'" for t'
      using that grown by (auto simp: tidy_def intro: map_le_trans)
    have won: "handshake_ok V P s t'"
      if "tidy V ?s t'" "quiet_host P \<longrightarrow> peer = drop 1 (shm s ! 0) \<and> salt = shm s ! 1"
        "p_ecdh P (ec_d key) (take 32 peer) (drop 32 peer) = Some z"
        "sess t' = (sess s)\<lparr>ecdh_keypair := None, session_key := p_hkdf P z salt HKDF_INFO 32,
          session_key_valid := True, send_seq := 0\<rparr>" for peer salt z t'
    proof -
      have "V (ext t') SERVER_PUBKEY_OBJID \<noteq> None"
        using that(1) sealed map_le_not_None by (fastforce simp: tidy_def)
      then show ?thesis
        unfolding handshake_ok_def
        using that key auth
        by (intro exI [of _ key] exI [of _ nonce] exI [of _ pub] exI [of _ pinned] exI [of _ peer]
            exI [of _ z] exI [of _ salt]) simp
    qed
    have "wp (derive_shared P l key) (handshake_post V P s) t"
      apply (rule wp_derive_shared [OF laws inv' _ _ f'])
      subgoal using key by simp
      subgoal using l by (simp add: handshake_sizes_def)
      subgoal for res t' using lost [OF _ base] by simp
      subgoal for t' using grown by (auto simp: handshake_post_def intro: map_le_trans)
      subgoal for peer z salt t' using won base by (simp add: handshake_post_def key_handles_def)
      done
    then show ?thesis .
  qed
  show ?thesis
    unfolding ta_handshake_complete_def wp_bind
    apply (simp add: bad split: option.split)
    apply (intro impI allI)
    apply (rule frame_shm_read [OF laws frame_refl])
      apply (simp_all add: sz bad)
    apply (intro impI)
    apply (rule frame_read_ec_coordinate [OF laws], assumption)
     apply (simp_all add: wp_case_prod stop)
    apply (rule frame_read_ec_coordinate [OF laws], assumption)
     apply (simp_all add: wp_case_prod stop)
    apply (rule wp_authenticate_server [OF laws], assumption)
       apply (use hs sz in \<open>simp_all add: stop\<close>)
    subgoal premises p for key _ _ _ _ nonce pub pinned t
      using p sz by (intro derive [of key _ t nonce pub pinned]) (simp_all add: device_point_def)
    done
qed

end
