(* ===== verification/TaData.thy ===== *)
theory TaData
  imports TaSession
begin

text \<open>
  The data path of the TA (trusted_app.c): authenticating the Sensor Module, reading and
  formatting one reading, encrypting it under the session key with the anti-replay
  counter, and the one-time provisioning of the pre-shared secret.
\<close>

section \<open>Sensor authentication\<close>

text \<open>\<open>TEE_MACCompareFinal\<close>: the MAC is computed and compared in one call.\<close>

definition mac_compare :: "'e platform \<Rightarrow> bytes \<Rightarrow> bytes \<Rightarrow> bytes \<Rightarrow> ('e, TEE_Result) ta" where
  "mac_compare P key msg mac = do {
     res \<leftarrow> tee_call P MACCompareFinal;
     State_Monad.return
       (if res \<noteq> TEE_SUCCESS then res
        else if p_hmac P key msg = mac then TEE_SUCCESS
        else TEE_ERROR_MAC_INVALID) }"

definition mac_out :: "bool \<Rightarrow> bool \<Rightarrow> TEE_Result \<Rightarrow> ('e, TEE_Result) ta" where
  "mac_out key_obj mac_op res = do {
     free_object key_obj;
     free_operation mac_op;
     State_Monad.return res }"

definition check_response :: "'e platform \<Rightarrow> bytes \<Rightarrow> bytes \<Rightarrow> bytes \<Rightarrow> ('e, TEE_Result) ta" where
  "check_response P secret challenge response = do {
     res \<leftarrow> alloc_operation P TEE_ALG_HMAC_SHA256 TEE_MODE_MAC (length secret * 8);
     if res \<noteq> TEE_SUCCESS then mac_out False False res
     else do {
       res \<leftarrow> alloc_object P TEE_TYPE_HMAC_SHA256 (length secret * 8);
       if res \<noteq> TEE_SUCCESS then mac_out False True res
       else do {
         res \<leftarrow> tee_call P (PopulateTransientObject TEE_TYPE_HMAC_SHA256);
         if res \<noteq> TEE_SUCCESS then mac_out True True res
         else do {
           res \<leftarrow> tee_call P (SetOperationKey TEE_ALG_HMAC_SHA256);
           if res \<noteq> TEE_SUCCESS then mac_out True True res
           else do {
             res \<leftarrow> mac_compare P secret challenge response;
             upd_sess (\<lambda>x. x\<lparr>sensor_authenticated := (res = TEE_SUCCESS)\<rparr>);
             mac_out True True res } } } } }"

text \<open>A fresh challenge, over the secure link.\<close>

definition challenge_sensor :: "'e platform \<Rightarrow> bytes \<Rightarrow> ('e, TEE_Result) ta" where
  "challenge_sensor P secret = do {
     challenge \<leftarrow> generate_random P 32;
     (res, ps) \<leftarrow> invoke_sensor_pta P PTA_CMD_CHALLENGE
       [PT_MEMREF_INPUT, PT_MEMREF_OUTPUT, PT_NONE, PT_NONE]
       [\<lparr>mbuf = challenge, msize = 32\<rparr>, \<lparr>mbuf = zeros 32, msize = 32\<rparr>, no_memref, no_memref];
     if res \<noteq> TEE_SUCCESS then State_Monad.return res
     else check_response P secret challenge (mbuf (ps ! 1)) }"

definition ta_authenticate_sensor :: "'e platform \<Rightarrow> ('e, TEE_Result) ta" where
  "ta_authenticate_sensor P = do {
     upd_sess (\<lambda>x. x\<lparr>sensor_authenticated := False\<rparr>);
     res \<leftarrow> open_persistent P SENSOR_PSK_OBJID;
     if res \<noteq> TEE_SUCCESS then State_Monad.return TEE_ERROR_BAD_STATE
     else do {
       (res, secret) \<leftarrow> read_object_data P SENSOR_PSK_OBJID SENSOR_SECRET_SIZE;
       close_object;
       if res \<noteq> TEE_SUCCESS \<or> length secret \<noteq> SENSOR_SECRET_SIZE
       then State_Monad.return TEE_ERROR_BAD_STATE
       else do {
         res \<leftarrow> open_sensor_pta P;
         if res \<noteq> TEE_SUCCESS then State_Monad.return res
         else challenge_sensor P secret } } }"

section \<open>One reading\<close>

text \<open>The text of \<open>snprintf\<close>; \<open>%s\<close> stops at the first NUL of the unit.\<close>

definition quoted :: "bytes \<Rightarrow> bytes" where
  "quoted s = 0x22 # s @ [0x22]"

definition reading_json :: "int \<Rightarrow> bytes \<Rightarrow> bytes" where
  "reading_json value unit =
     ascii ''{'' @ quoted (ascii ''samples'') @ ascii '':[{'' @ quoted (ascii ''value'') @ ascii '':'' @
     dec_int value @ ascii '','' @ quoted (ascii ''unit'') @ ascii '':'' @ quoted (c_string unit) @
     ascii ''}]}''"

text \<open>
  \<open>snprintf\<close> into \<open>sess->reading\<close>: at most 255 bytes and the terminator are stored, and the
  length the text would have is compared with the buffer.
\<close>

definition format_reading :: "int \<Rightarrow> bytes \<Rightarrow> ('e, TEE_Result) ta" where
  "format_reading value unit = do {
     let text = reading_json value unit;
     upd_sess (\<lambda>x. x\<lparr>reading := splice 0 (take (READING_MAX - 1) text @ [0]) (reading x)\<rparr>);
     if length text \<ge> READING_MAX then do {
       upd_sess (\<lambda>x. x\<lparr>reading_len := 0\<rparr>);
       State_Monad.return TEE_ERROR_OVERFLOW }
     else do {
       upd_sess (\<lambda>x. x\<lparr>reading_len := length text\<rparr>);
       State_Monad.return TEE_SUCCESS } }"

definition read_sensor_reading :: "'e platform \<Rightarrow> ('e, TEE_Result) ta" where
  "read_sensor_reading P = do {
     res \<leftarrow> open_sensor_pta P;
     if res \<noteq> TEE_SUCCESS then State_Monad.return res
     else do {
       (res, ps) \<leftarrow> invoke_sensor_pta P PTA_CMD_READ
         [PT_MEMREF_OUTPUT, PT_NONE, PT_NONE, PT_NONE]
         [\<lparr>mbuf = zeros LINK_READING_MAX, msize = LINK_READING_MAX\<rparr>, no_memref, no_memref, no_memref];
       let payload = mbuf (ps ! 0);
       let n = msize (ps ! 0);
       if res \<noteq> TEE_SUCCESS then State_Monad.return res
       else if n < READING_VALUE_SIZE + 1 then State_Monad.return TEE_ERROR_BAD_FORMAT
       else do {
         let value = from_be32 (take 4 payload);
         let unit_len = unat (payload ! READING_VALUE_SIZE);
         if unit_len > READING_UNIT_MAX \<or> n \<noteq> READING_VALUE_SIZE + 1 + unit_len
         then State_Monad.return TEE_ERROR_BAD_FORMAT
         else format_reading (sint value) (sub (READING_VALUE_SIZE + 1) unit_len payload) } } }"

section \<open>Encryption\<close>

definition protect_out :: "bool \<Rightarrow> TEE_Result \<Rightarrow> ('e, TEE_Result) ta" where
  "protect_out op res = do {
     free_operation op;
     free_object True;
     State_Monad.return res }"

text \<open>
  \<open>TEE_AEInit\<close> is given the nonce where \<open>TEE_GenerateRandom\<close> left it, in shared buffer 0.
\<close>

definition emit_message :: "'e platform \<Rightarrow> u64 \<Rightarrow> bytes \<Rightarrow> bytes \<Rightarrow> ('e, TEE_Result) ta" where
  "emit_message P seq key plain = do {
     rnd \<leftarrow> generate_random P 12;
     shm_write 0 0 rnd;
     set_size 0 12;
     iv \<leftarrow> shm_read P 0 0 12;
     res \<leftarrow> tee_call P AEInit;
     if res \<noteq> TEE_SUCCESS then protect_out True res
     else do {
       res \<leftarrow> tee_call P AEEncryptFinal;
       if res \<noteq> TEE_SUCCESS then protect_out True res
       else do {
         let (ct, tag) = p_gcm P key iv (seq_aad seq) plain;
         shm_write 1 0 ct;
         shm_write 1 (length ct) tag;
         set_size 1 (length ct + length tag);
         upd_sess (\<lambda>x. x\<lparr>send_seq := seq\<rparr>);
         set_value 2 (ucast seq) 0;
         protect_out True TEE_SUCCESS } } }"

definition encrypt_reading :: "'e platform \<Rightarrow> u64 \<Rightarrow> ('e, TEE_Result) ta" where
  "encrypt_reading P seq = do {
     key \<leftarrow> get_sess session_key;
     plain \<leftarrow> get_sess (\<lambda>x. take (reading_len x) (reading x));
     res \<leftarrow> alloc_object P TEE_TYPE_AES 256;
     if res \<noteq> TEE_SUCCESS then State_Monad.return res
     else do {
       res \<leftarrow> tee_call P (PopulateTransientObject TEE_TYPE_AES);
       if res \<noteq> TEE_SUCCESS then protect_out False res
       else do {
         res \<leftarrow> alloc_operation P TEE_ALG_AES_GCM TEE_MODE_ENCRYPT 256;
         if res \<noteq> TEE_SUCCESS then protect_out False res
         else do {
           res \<leftarrow> tee_call P (SetOperationKey TEE_ALG_AES_GCM);
           if res \<noteq> TEE_SUCCESS then protect_out True res
           else emit_message P seq key plain } } } }"

definition ta_read_and_protect :: "'e platform \<Rightarrow> ptype list \<Rightarrow> ('e, TEE_Result) ta" where
  "ta_read_and_protect P param_types =
     (if param_types \<noteq> [PT_MEMREF_OUTPUT, PT_MEMREF_OUTPUT, PT_VALUE_OUTPUT, PT_NONE]
      then State_Monad.return TEE_ERROR_BAD_PARAMETERS
      else do {
        authed \<leftarrow> get_sess sensor_authenticated;
        valid \<leftarrow> get_sess session_key_valid;
        n0 \<leftarrow> get_size 0;
        n1 \<leftarrow> get_size 1;
        if \<not> authed then State_Monad.return TEE_ERROR_BAD_STATE
        else if \<not> valid then State_Monad.return TEE_ERROR_BAD_STATE
        else if n0 < 12 then State_Monad.return TEE_ERROR_SHORT_BUFFER
        else do {
          res \<leftarrow> read_sensor_reading P;
          if res \<noteq> TEE_SUCCESS then State_Monad.return res
          else do {
            len \<leftarrow> get_sess reading_len;
            seq \<leftarrow> get_sess send_seq;
            if n1 < len + 16 then State_Monad.return TEE_ERROR_SHORT_BUFFER
            else if seq \<ge> 0xffffffff then State_Monad.return TEE_ERROR_OVERFLOW
            else encrypt_reading P (seq + 1) } } })"

section \<open>Provisioning the pre-shared secret\<close>

definition ta_provision_sensor_secret :: "'e platform \<Rightarrow> ptype list \<Rightarrow> ('e, TEE_Result) ta" where
  "ta_provision_sensor_secret P param_types =
     (if param_types \<noteq> [PT_NONE, PT_NONE, PT_NONE, PT_NONE]
      then State_Monad.return TEE_ERROR_BAD_PARAMETERS
      else do {
        res \<leftarrow> open_persistent P SENSOR_PSK_OBJID;
        if res = TEE_SUCCESS then do { close_object; State_Monad.return TEE_SUCCESS }
        else if res \<noteq> TEE_ERROR_ITEM_NOT_FOUND then State_Monad.return res
        else do {
          res \<leftarrow> open_sensor_pta P;
          if res \<noteq> TEE_SUCCESS then State_Monad.return res
          else do {
            (res, ps) \<leftarrow> invoke_sensor_pta P PTA_CMD_FETCH_SECRET
              [PT_MEMREF_OUTPUT, PT_NONE, PT_NONE, PT_NONE]
              [\<lparr>mbuf = zeros SENSOR_SECRET_SIZE, msize = SENSOR_SECRET_SIZE\<rparr>, no_memref, no_memref, no_memref];
            if res \<noteq> TEE_SUCCESS then State_Monad.return res
            else if msize (ps ! 0) \<noteq> SENSOR_SECRET_SIZE then State_Monad.return TEE_ERROR_COMMUNICATION
            else do {
              res \<leftarrow> create_persistent P SENSOR_PSK_OBJID [TEE_DATA_FLAG_ACCESS_WRITE] (mbuf (ps ! 0));
              if res = TEE_ERROR_ACCESS_CONFLICT then State_Monad.return TEE_SUCCESS
              else if res \<noteq> TEE_SUCCESS then State_Monad.return res
              else do { close_object; State_Monad.return TEE_SUCCESS } } } } })"

section \<open>Frames of the data path\<close>

text \<open>
  \<open>data_frame V P g s t\<close>: since \<open>s\<close> the session changed by \<open>g\<close>, besides opening the PTA, and
  nothing else the TA holds changed.
\<close>

definition with_pta :: "bool \<Rightarrow> ta_session \<Rightarrow> ta_session" where
  "with_pta b x = (if b then x\<lparr>sensor_pta_sess := Some (), sensor_pta_open := True\<rparr> else x)"

lemma with_pta_fields [simp]:
  "ecdh_keypair (with_pta b x) = ecdh_keypair x" "session_key (with_pta b x) = session_key x"
  "session_key_valid (with_pta b x) = session_key_valid x"
  "sensor_authenticated (with_pta b x) = sensor_authenticated x" "send_seq (with_pta b x) = send_seq x"
  "reading (with_pta b x) = reading x" "reading_len (with_pta b x) = reading_len x"
  by (simp_all add: with_pta_def)

lemma session_wf_with_pta [simp]: "session_wf x \<Longrightarrow> session_wf (with_pta b x)"
  by (simp add: session_wf_def with_pta_def)

definition data_frame ::
    "'e storage_view \<Rightarrow> 'e platform \<Rightarrow> (ta_session \<Rightarrow> ta_session) \<Rightarrow> 'e ta_state \<Rightarrow> 'e ta_state \<Rightarrow> bool" where
  "data_frame V P g s t \<longleftrightarrow> V (ext s) \<subseteq>\<^sub>m V (ext t) \<and> map length (shm t) = map length (shm s) \<and>
     (quiet_host P \<longrightarrow> shm t = shm s) \<and> oob t = oob s \<and> psize t = psize s \<and> pvalue t = pvalue s \<and>
     n_objects t = n_objects s \<and> n_operations t = n_operations s \<and> n_persistent t = n_persistent s \<and>
     n_sessions t = pta_handles (sess t) \<and> (\<exists>b. sess t = g (with_pta b (sess s)))"

lemma data_frame_tidy: "data_frame V P g s t \<Longrightarrow> tidy V s t"
  by (simp add: data_frame_def tidy_def)

lemma data_frame_ext: "data_frame V P g s u \<Longrightarrow> V (ext u) \<subseteq>\<^sub>m V e \<Longrightarrow> data_frame V P g s (u\<lparr>ext := e\<rparr>)"
  by (auto simp: data_frame_def intro: map_le_trans)

lemma data_frame_link:
  "data_frame V P g s u \<Longrightarrow> V (ext u) \<subseteq>\<^sub>m V e \<Longrightarrow> data_frame V P g s (link_update u e rd tx w)"
  by (auto simp: data_frame_def intro: map_le_trans)

lemma data_frame_sealed: "data_frame V P g s t \<Longrightarrow> V (ext s) x = Some c \<Longrightarrow> V (ext t) x = Some c"
  by (auto simp: data_frame_def dest: map_le_Some)

text \<open>Calls between two commands' use of the PTA compose with the frame of TaSession.\<close>

lemma data_frame_frame:
  "data_frame V P g s u \<Longrightarrow> frame V P 0 0 u t \<Longrightarrow> data_frame V P g s t"
  by (auto simp: data_frame_def frame_def intro: map_le_trans)

lemma wp_open_pta:
  assumes laws: "platform_laws V P" and u: "data_frame V P g s u"
    and g: "\<And>x. with_pta True (g x) = g (with_pta True x)"
    and ok: "\<And>t. data_frame V P g s t \<Longrightarrow> sensor_pta_open (sess t) \<Longrightarrow> wire t = wire u \<Longrightarrow> Q TEE_SUCCESS t"
    and fail: "\<And>res t. data_frame V P g s t \<Longrightarrow> res \<noteq> TEE_SUCCESS \<Longrightarrow> wire t = wire u \<Longrightarrow> Q res t"
  shows "wp (open_sensor_pta P) Q u"
proof (rule wp_open_sensor_pta [OF laws], goal_cases)
  case 1
  then show ?case by (simp add: ok u)
next
  case (2 e)
  obtain b where b: "sess u = g (with_pta b (sess s))"
    using u by (auto simp: data_frame_def)
  let ?x = "(sess u)\<lparr>sensor_pta_sess := Some (), sensor_pta_open := True\<rparr>"
  have "?x = with_pta True (sess u)"
    by (simp add: with_pta_def)
  also have "\<dots> = g (with_pta True (sess s))"
    unfolding b g by (simp add: with_pta_def)
  finally have ex: "\<exists>b. ?x = g (with_pta b (sess s))" ..
  have mono: "V (ext s) \<subseteq>\<^sub>m V e"
    using u 2(1) by (auto simp: data_frame_def intro: map_le_trans)
  have n: "n_sessions u = 0"
    using u 2(2) by (simp add: data_frame_def pta_handles_def)
  have "data_frame V P g s (u\<lparr>ext := e, n_sessions := Suc (n_sessions u), sess := ?x\<rparr>)"
    using u mono ex n by (simp add: data_frame_def pta_handles_def)
  then show ?case
    by (rule ok) simp_all
next
  case (3 res e)
  then show ?case
    using u by (intro fail data_frame_ext) simp_all
qed

section \<open>What sensor authentication does\<close>

text \<open>
  What a run does before it draws the challenge, when every call succeeds: it opens, reads
  and closes the sealed secret and opens the PTA. The challenge of the run that starts in
  \<open>s\<close> is what the TEE's generator returns at the end of that, and nothing else.
\<close>

definition before_challenge :: "'e platform \<Rightarrow> ('e, TEE_Result) ta" where
  "before_challenge P = do {
     upd_sess (\<lambda>x. x\<lparr>sensor_authenticated := False\<rparr>);
     _ \<leftarrow> open_persistent P SENSOR_PSK_OBJID;
     _ \<leftarrow> read_object_data P SENSOR_PSK_OBJID SENSOR_SECRET_SIZE;
     close_object;
     open_sensor_pta P }"

definition drawn_challenge :: "'e platform \<Rightarrow> 'e ta_state \<Rightarrow> bytes" where
  "drawn_challenge P s = fst (p_random P 32 (ext (snd (run_state (before_challenge P) s))))"

text \<open>
  The flag is set exactly when the command succeeds, and then the link carried, in this run,
  the challenge drawn in this run out and back one response frame with its MAC under the
  sealed secret.
\<close>

definition authentic ::
    "'e storage_view \<Rightarrow> 'e platform \<Rightarrow> 'e ta_state \<Rightarrow> 'e ta_state \<Rightarrow> bool" where
  "authentic V P s t \<longleftrightarrow> length (drawn_challenge P s) = 32 \<and>
     (\<exists>c. V (ext t) SENSOR_PSK_OBJID = Some c \<and>
        wire t = wire s @ sent (encode_frame FRAME_CHALLENGE (drawn_challenge P s)) @
          received (encode_frame FRAME_CHALLENGE_RESPONSE (p_hmac P (take 32 c) (drawn_challenge P s))))"

definition auth_post ::
    "'e storage_view \<Rightarrow> 'e platform \<Rightarrow> 'e ta_state \<Rightarrow> TEE_Result \<Rightarrow> 'e ta_state \<Rightarrow> bool" where
  "auth_post V P s res t \<longleftrightarrow>
     data_frame V P (\<lambda>x. x\<lparr>sensor_authenticated := (res = TEE_SUCCESS)\<rparr>) s t \<and>
     (res = TEE_SUCCESS \<longrightarrow> authentic V P s t)"

lemma wp_mac_out [simp]:
  "wp (mac_out k m res) Q s = Q res (let s = (if k then s\<lparr>n_objects := n_objects s - 1\<rparr> else s)
     in if m then s\<lparr>n_operations := n_operations s - 1\<rparr> else s)"
  by (simp add: mac_out_def)

lemma wp_mac_compare:
  assumes laws: "platform_laws V P" and u: "frame V P k n s u"
    and "\<And>t. frame V P k n s t \<Longrightarrow> p_hmac P key msg = mac \<Longrightarrow> Q TEE_SUCCESS t"
    and "\<And>res t. frame V P k n s t \<Longrightarrow> res \<noteq> TEE_SUCCESS \<Longrightarrow> Q res t"
  shows "wp (mac_compare P key msg mac) Q u"
  unfolding mac_compare_def wp_bind
  by (rule frame_call [OF laws u]) (simp add: assms)

lemma wp_check_response:
  assumes laws: "platform_laws V P" and unset: "\<not> sensor_authenticated (sess s)"
    and fail: "\<And>res t. frame V P 0 0 s t \<Longrightarrow> res \<noteq> TEE_SUCCESS \<Longrightarrow> Q res t"
    and ok: "\<And>t u. frame V P 0 0 s u \<Longrightarrow> t = u\<lparr>sess := (sess u)\<lparr>sensor_authenticated := True\<rparr>\<rparr> \<Longrightarrow>
      p_hmac P secret challenge = response \<Longrightarrow> Q TEE_SUCCESS t"
  shows "wp (check_response P secret challenge response) Q s"
proof -
  note [simp] = frame_free_object frame_free_operation fail
  have out: "frame V P 0 0 s (t\<lparr>n_objects := n_objects t - Suc 0, n_operations := n_operations t - Suc 0\<rparr>)"
    if "frame V P (Suc 0) (Suc 0) s t" for t
    using that by (simp add: frame_def)
  have same: "(sess t)\<lparr>sensor_authenticated := False\<rparr> = sess t" if "frame V P k n s t" for t k n
    using that unset by (simp add: frame_def)
  show ?thesis
    unfolding check_response_def wp_bind
    apply (rule frame_alloc_operation [OF laws frame_refl]; simp)
    apply (rule frame_alloc_object [OF laws], assumption; simp)
    apply (rule frame_tee_call [OF laws], assumption; simp add: out)
    apply (rule frame_tee_call [OF laws], assumption; simp add: out)
    apply (rule wp_mac_compare [OF laws], assumption)
     apply simp_all
    subgoal for _ _ _ _ t
      by (rule ok [OF out [of t]]) simp_all
    subgoal for _ _ _ _ res t
      using fail [OF out [of t], of res] same [of _ _ t] by simp
    done
qed

lemma wp_challenge_sensor:
  assumes laws: "platform_laws V P" and u: "data_frame V P (\<lambda>x. x\<lparr>sensor_authenticated := False\<rparr>) s u"
    and c: "V (ext s) SENSOR_PSK_OBJID = Some c" and tx: "wire u = wire s"
    and drawn: "fst (p_random P 32 (ext u)) = drawn_challenge P s"
  shows "wp (challenge_sensor P (take 32 c)) (auth_post V P s) u"
proof -
  let ?g = "\<lambda>b x. x\<lparr>sensor_authenticated := b\<rparr>"
  have bad: "auth_post V P s res t" if "data_frame V P (?g False) s t" "res \<noteq> TEE_SUCCESS" for res t
    using that by (simp add: auth_post_def)
  show ?thesis
    unfolding challenge_sensor_def wp_bind
    apply (rule wp_self)
    apply (rule wp_generate_random [OF laws])
    apply (simp add: generate_random_def drawn del: PTA_CMD_CHALLENGE_def)
    apply (rule impI, erule conjE)
    apply (rule wp_pta_challenge [OF laws])
       apply (simp_all add: wp_case_prod)
    subgoal premises p for ch e resp e' rd w
    proof -
      let ?v = "link_update u e' rd (wire u @ sent (encode_frame FRAME_CHALLENGE ch) @
        received (encode_frame FRAME_CHALLENGE_RESPONSE resp)) w"
      have mono: "V (ext u) \<subseteq>\<^sub>m V e'" using p by (auto intro: map_le_trans)
      have v: "data_frame V P (?g False) s ?v" by (rule data_frame_link [OF u mono])
      have "wp (check_response P (take 32 c) ch resp) (auth_post V P s) ?v"
      proof (rule wp_check_response [OF laws])
        show "\<not> sensor_authenticated (sess ?v)"
          using v by (auto simp: data_frame_def)
        show "auth_post V P s res t" if "frame V P 0 0 ?v t" "res \<noteq> TEE_SUCCESS" for res t
          by (rule bad [OF data_frame_frame [OF v that(1)] that(2)])
        show "auth_post V P s TEE_SUCCESS t"
          if f: "frame V P 0 0 ?v w" and t: "t = w\<lparr>sess := (sess w)\<lparr>sensor_authenticated := True\<rparr>\<rparr>"
            and mac: "p_hmac P (take 32 c) ch = resp" for t w
        proof -
          have w: "data_frame V P (?g False) s w" by (rule data_frame_frame [OF v f])
          then have "data_frame V P (?g True) s t"
            by (auto simp: data_frame_def t pta_handles_def)
          moreover have "authentic V P s t"
            unfolding authentic_def using f p mac tx data_frame_sealed [OF w c]
            by (intro conjI exI [of _ c]) (simp_all add: t frame_def)
          ultimately show ?thesis by (simp add: auth_post_def)
        qed
      qed
      then show ?thesis by simp
    qed
    subgoal premises p for ch e res e' rd tx w
      using data_frame_link [OF u map_le_trans [OF p(1,5)]] p by (intro bad) simp_all
    done
qed

lemma wp_ta_authenticate_sensor:
  assumes laws: "platform_laws V P" and inv: "ta_inv V s"
  shows "wp (ta_authenticate_sensor P) (auth_post V P s) s"
proof -
  let ?g = "\<lambda>b x. x\<lparr>sensor_authenticated := b\<rparr>"
  have pta: "with_pta True (?g b x) = ?g b (with_pta True x)" for b x
    by (simp add: with_pta_def)
  have start: "data_frame V P (?g False) s (s\<lparr>sess := ?g False (sess s)\<rparr>)"
    using inv by (auto simp: data_frame_def ta_inv_def pta_handles_def with_pta_def intro: exI [of _ False])
  have bad: "auth_post V P s res t" if "data_frame V P (?g False) s t" "res \<noteq> TEE_SUCCESS" for res t
    using that by (simp add: auth_post_def)
  show ?thesis
    unfolding ta_authenticate_sensor_def Let_def wp_bind
    apply simp
    apply (rule wp_self, rule wp_open_persistent [OF laws])
      apply (simp_all add: bad data_frame_ext [OF start])
    apply (rule impI, rule wp_self, rule wp_read_object_data [OF laws])
     apply (simp_all add: wp_case_prod)
    subgoal premises p for e secret e'
    proof (intro conjI impI)
      obtain c where c: "V (ext s) SENSOR_PSK_OBJID = Some c" using p(2) by auto
      have secret: "secret = take 32 c"
        using p(5) map_le_Some [OF p(1) c] by simp
      have u: "data_frame V P (?g False) s (s\<lparr>sess := ?g False (sess s), ext := e'\<rparr>)" (is "data_frame _ _ _ _ ?u")
        using data_frame_ext [OF start] map_le_trans [OF p(1,4)] by simp
      show "auth_post V P s TEE_ERROR_BAD_STATE ?u"
        using bad [OF u] by simp
      assume opened: "run_state (read_object_data P SENSOR_PSK_OBJID 32)
          (s\<lparr>sess := ?g False (sess s), ext := e, n_persistent := Suc (n_persistent s)\<rparr>) =
        ((TEE_SUCCESS, secret), s\<lparr>sess := ?g False (sess s), n_persistent := Suc (n_persistent s), ext := e'\<rparr>)"
      show "wp (open_sensor_pta P) (\<lambda>a. wp (if a \<noteq> TEE_SUCCESS then State_Monad.return a
        else challenge_sensor P secret) (auth_post V P s)) ?u"
      proof (rule wp_self, rule wp_open_pta [OF laws u pta]; (intro impI)?)
        fix t
        assume t: "data_frame V P (?g False) s t" "wire t = wire ?u"
          and run: "run_state (open_sensor_pta P) ?u = (TEE_SUCCESS, t)"
        have "snd (run_state (before_challenge P) s) = t"
          using p(3) opened run by (simp add: before_challenge_def upd_sess_def close_object_def)
        then have "fst (p_random P 32 (ext t)) = drawn_challenge P s"
          by (simp add: drawn_challenge_def)
        with t show "wp (if TEE_SUCCESS \<noteq> TEE_SUCCESS then State_Monad.return TEE_SUCCESS
            else challenge_sensor P secret) (auth_post V P s) t"
          by (simp add: secret wp_challenge_sensor [OF laws _ c])
      qed (simp_all add: bad)
    qed
    subgoal premises p for e res e'
      using data_frame_ext [OF start] map_le_trans [OF p(1,4)] by (intro impI bad) simp_all
    done
qed

section \<open>What reading does\<close>

text \<open>The text never reaches the size of its buffer, so the overflow branch is dead code.\<close>

lemma length_reading_json:
  "length u \<le> 32 \<Longrightarrow> length (reading_json (sint (v :: u32)) u) \<le> 77"
  using length_dec_int_s32 [of v] length_c_string [of u]
  by (simp add: reading_json_def quoted_def)

lemma wp_format_reading:
  assumes "length (reading (sess s)) = 256" and "length u \<le> 32"
    and "\<And>rd. length rd = 256 \<Longrightarrow> take (length (reading_json (sint v) u)) rd = reading_json (sint v) u \<Longrightarrow>
      Q TEE_SUCCESS (s\<lparr>sess := (sess s)\<lparr>reading := rd, reading_len := length (reading_json (sint v) u)\<rparr>\<rparr>)"
  shows "wp (format_reading (sint (v :: u32)) u) Q s"
proof -
  let ?t = "reading_json (sint v) u" and ?rd = "splice 0 (take 255 (reading_json (sint v) u) @ [0]) (reading (sess s))"
  have len: "length ?t \<le> 77" by (rule length_reading_json [OF assms(2)])
  then have t: "take 255 ?t = ?t" by simp
  have "length ?rd = 256" using assms(1) len by simp
  moreover have "take (length ?t) ?rd = ?t" using len by (simp add: t splice_def)
  ultimately show ?thesis
    using assms(3) len by (simp add: format_reading_def Let_def)
qed

text \<open>
  The reading in the session is the text of the value and unit of the payload the PTA
  delivered, which has the layout the Sensor Module sends.
\<close>

definition reading_stored :: "'e ta_state \<Rightarrow> 'e ta_state \<Rightarrow> bool" where
  "reading_stored s t \<longleftrightarrow> (\<exists>v u. length u \<le> READING_UNIT_MAX \<and>
     wire t = wire s @ received (encode_frame FRAME_READING (reading_payload v u)) \<and>
     reading_len (sess t) = length (reading_json (sint v) u) \<and>
     take (reading_len (sess t)) (reading (sess t)) = reading_json (sint v) u)"

lemma reading_stored_reads: "reading_stored s t \<Longrightarrow> reads_only s t"
  by (auto simp: reading_stored_def reads_only_def)

abbreviation set_reading :: "bytes \<Rightarrow> nat \<Rightarrow> ta_session \<Rightarrow> ta_session" where
  "set_reading rd n \<equiv> \<lambda>x. x\<lparr>reading := rd, reading_len := n\<rparr>"

lemma wp_read_sensor_reading:
  assumes laws: "platform_laws V P" and inv: "ta_inv V s"
    and fail: "\<And>res t. data_frame V P (\<lambda>x. x) s t \<Longrightarrow> res \<noteq> TEE_SUCCESS \<Longrightarrow> reads_only s t \<Longrightarrow> Q res t"
    and ok: "\<And>rd n t. data_frame V P (set_reading rd n) s t \<Longrightarrow> length rd = 256 \<Longrightarrow> n \<le> 77 \<Longrightarrow>
      reading_stored s t \<Longrightarrow> Q TEE_SUCCESS t"
  shows "wp (read_sensor_reading P) Q s"
proof -
  have start: "data_frame V P (\<lambda>x. x) s s"
    using inv by (auto simp: data_frame_def ta_inv_def with_pta_def intro: exI [of _ False])
  have len: "length (reading (sess t)) = 256" if "data_frame V P (\<lambda>x. x) s t" for t
    using that inv by (auto simp: data_frame_def ta_inv_def session_wf_def with_pta_def)
  have stored: "wp (format_reading (sint (from_be32 (take 4 got))) u) Q t"
    if t: "data_frame V P (\<lambda>x. x) s t" "wire t = wire s @ received (encode_frame FRAME_READING got)"
      and l: "length got = 5 + unat (got ! 4)" "unat (got ! 4) \<le> 32" and u: "u = drop 5 got" for t got u
  proof (rule wp_format_reading [OF len [OF t(1)]])
    show "length u \<le> 32" using l u by simp
    have v: "from_be32 (take 4 got) = from_be32 got"
      by (simp add: from_be32_def)
    let ?n = "length (reading_json (sint (from_be32 (take 4 got))) u)"
    fix rd
    assume rd: "length rd = 256" "take ?n rd = reading_json (sint (from_be32 (take 4 got))) u"
    let ?t = "t\<lparr>sess := (sess t)\<lparr>reading := rd, reading_len := ?n\<rparr>\<rparr>"
    have "data_frame V P (set_reading rd ?n) s ?t"
      using t by (auto simp: data_frame_def pta_handles_def)
    moreover have "?n \<le> 77"
      using l u by (intro length_reading_json) simp
    moreover have "reading_stored s ?t"
      unfolding reading_stored_def using rd t l u reading_payload_parse [OF l(1)]
      by (intro exI [of _ "from_be32 got"] exI [of _ u]) (simp add: v)
    ultimately show "Q TEE_SUCCESS ?t"
      using rd t by (intro ok) simp_all
  qed
  show ?thesis
    unfolding read_sensor_reading_def wp_bind
    apply (rule wp_open_pta [OF laws start])
     apply (simp_all add: fail reads_only_same del: PTA_CMD_READ_def)
    apply (rule wp_pta_read [OF laws])
      apply simp
    subgoal premises p for t got e rd w
    proof -
      let ?v = "link_update t e rd (wire t @ received (encode_frame FRAME_READING got)) w"
      have v: "data_frame V P (\<lambda>x. x) s ?v" by (rule data_frame_link [OF p(1,4)])
      obtain pay where pay: "splice 0 got (zeros 256) = pay" by blast
      have parts: "take 4 pay = take 4 got \<and> pay ! 4 = got ! 4" if "5 \<le> length got"
        using that unfolding pay [symmetric] by (simp add: splice_def nth_append)
      have rest: "sub 5 (unat (got ! 4)) pay = drop 5 got" if "length got = 5 + unat (got ! 4)"
        using that unfolding pay [symmetric] by (simp add: splice_def sub_def)
      have fail': "Q res ?v" if "res \<noteq> TEE_SUCCESS" for res
        using p by (intro fail [OF v that]) (auto simp: reads_only_def)
      show ?thesis
      proof (cases "length got = 5 + unat (got ! 4) \<and> unat (got ! 4) \<le> 32")
        case True
        with stored [OF v, of got "drop 5 got"] p parts rest show ?thesis
          by (simp add: pay)
      next
        case False
        with fail' parts show ?thesis
          by (auto simp: pay Let_def)
      qed
    qed
    subgoal premises p for t res qs e rd rx w
      using fail [OF data_frame_link [OF p(1,4)] p(5)] p(3,5) by (auto simp: reads_only_def)
    done
qed

section \<open>What protecting a reading does\<close>

text \<open>
  The message of a successful run: the counter went up by one, the ciphertext and tag in
  buffer 1 are the AES-GCM encryption of the stored reading under the session key with the
  counter as additional data, and the counter is in \<open>params[2]\<close>. Twelve bytes were drawn and
  put into shared buffer 0; the nonce is what the Host had made of that buffer when
  \<open>TEE_AEInit\<close> read it, and it is still there at the end. With a quiet Host it is the bytes
  that were drawn.
\<close>

definition nonce_of :: "'e platform \<Rightarrow> 'e ta_state \<Rightarrow> bytes \<Rightarrow> bool" where
  "nonce_of P s iv \<longleftrightarrow> (\<exists>m e. map length m = map length (shm s) \<and>
     take 12 (m ! 0) = fst (p_random P 12 e) \<and>
     iv = take 12 (fst (p_host P m (snd (p_random P 12 e))) ! 0))"

lemma nonce_of_quiet: "nonce_of P s iv \<Longrightarrow> quiet_host P \<Longrightarrow> \<exists>e. iv = fst (p_random P 12 e)"
  by (auto simp: nonce_of_def quiet_host_def)

definition message_ok :: "'e platform \<Rightarrow> 'e ta_state \<Rightarrow> 'e ta_state \<Rightarrow> bool" where
  "message_ok P s t \<longleftrightarrow> (\<exists>iv ct tag.
     p_gcm P (session_key (sess s)) iv (seq_aad (send_seq (sess t)))
       (take (reading_len (sess t)) (reading (sess t))) = (ct, tag) \<and>
     length iv = 12 \<and> nonce_of P s iv \<and> take 12 (shm t ! 0) = iv \<and>
     take (length ct + 16) (shm t ! 1) = ct @ tag \<and> length tag = 16 \<and>
     psize t = (psize s)[0 := 12, 1 := length ct + 16] \<and>
     pvalue t = (pvalue s)[2 := (ucast (send_seq (sess t)), 0)])"

definition encrypt_frame ::
    "'e storage_view \<Rightarrow> 'e ta_state \<Rightarrow> (ta_session \<Rightarrow> ta_session) \<Rightarrow> 'e ta_state \<Rightarrow> bool" where
  "encrypt_frame V s g t \<longleftrightarrow> tidy V s t \<and> n_objects t = n_objects s \<and> n_sessions t = n_sessions s \<and>
     wire t = wire s \<and> sess t = g (sess s)"

lemma wp_protect_out [simp]:
  "wp (protect_out b res) Q s = Q res (let s = (if b then s\<lparr>n_operations := n_operations s - 1\<rparr> else s)
     in s\<lparr>n_objects := n_objects s - 1\<rparr>)"
  by (simp add: protect_out_def)

lemma encrypt_frame_frame:
  "frame V P 0 0 s t \<Longrightarrow> encrypt_frame V s (\<lambda>x. x) t"
  by (simp add: encrypt_frame_def frame_tidy) (simp add: frame_def)

lemma wp_emit_message:
  assumes laws: "platform_laws V P" and u: "frame V P 1 1 s u"
    and room: "length (shm s) = 4" "12 \<le> length (shm s ! 0)" "reading_len (sess s) + 16 \<le> length (shm s ! 1)"
      "length (pvalue s) = 4" "reading_len (sess s) \<le> length (reading (sess s))"
    and fail: "\<And>res t. encrypt_frame V s (\<lambda>x. x) t \<Longrightarrow> res \<noteq> TEE_SUCCESS \<Longrightarrow> Q res t"
    and ok: "\<And>t. encrypt_frame V s (\<lambda>x. x\<lparr>send_seq := seq\<rparr>) t \<Longrightarrow> message_ok P s t \<Longrightarrow> Q TEE_SUCCESS t"
  shows "wp (emit_message P seq (session_key (sess s)) (take (reading_len (sess s)) (reading (sess s)))) Q u"
proof -
  let ?plain = "take (reading_len (sess s)) (reading (sess s))"
  have lens: "map length (shm u) = map length (shm s)" using u by (simp add: frame_def)
  then have len: "length (shm u) = 4" using room(1) by (metis length_map)
  have l0: "length (shm u ! 0) = length (shm s ! 0)" "length (shm u ! 1) = length (shm s ! 1)"
    using lens len room(1) by (metis nth_map zero_less_numeral one_less_numeral_iff semiring_norm(76))+
  have gcm: "length ct = reading_len (sess s) \<and> length tag = 16"
    if "p_gcm P (session_key (sess s)) iv (seq_aad seq) ?plain = (ct, tag)" for iv ct tag
    using platform_laws_D(4) [OF laws] that room(5) unfolding crypto_sizes_def
    by (metis fst_conv snd_conv length_take min.absorb2)
  show ?thesis
    unfolding emit_message_def wp_bind
    apply (rule wp_self, rule wp_generate_random [OF laws])
    apply (rule impI, rule wp_shm_write)
      apply (simp_all add: len l0 room)
    subgoal premises p for rnd e
    proof -
      have drawn: "p_random P 12 (ext u) = (rnd, e)"
        using p(3) by (auto simp: generate_random_def prod_eq_iff dest: arg_cong [of _ _ ext])
      let ?m = "(shm u)[0 := splice 0 rnd (shm u ! 0)]"
      let ?s1 = "u\<lparr>ext := e, shm := ?m, psize := (psize u)[0 := 12]\<rparr>"
      have rnd: "length rnd = 12" using p by simp
      have rnd_back: "take 12 (splice 0 rnd (shm u ! 0)) = rnd"
        using rnd by (metis take_splice_0)
      have mono: "V (ext s) \<subseteq>\<^sub>m V e" using p u by (auto simp: frame_def intro: map_le_trans)
      have m: "map length ?m = map length (shm s)" "length ?m = 4"
        using lens len l0 room rnd by simp_all
      have stop: "Q res (t\<lparr>n_operations := n_operations t - Suc 0, n_objects := n_objects t - Suc 0\<rparr>)"
        if "frame V P 0 0 ?s1 t" "res \<noteq> TEE_SUCCESS" for t res
        using that u mono m by (intro fail) (auto simp: encrypt_frame_def tidy_def frame_def intro: map_le_trans)
      have finish: "wp (let (ct, tag) = p_gcm P (session_key (sess s)) iv (seq_aad seq) ?plain in do {
           shm_write 1 0 ct;
           shm_write 1 (length ct) tag;
           set_size 1 (length ct + length tag);
           upd_sess (\<lambda>x. x\<lparr>send_seq := seq\<rparr>);
           set_value 2 (ucast seq) 0;
           protect_out True TEE_SUCCESS }) Q t"
        if t: "frame V P 0 0 ?s1 t" and iv: "length iv = 12" "nonce_of P s iv" "take 12 (shm t ! 0) = iv" for t iv
      proof -
        obtain ct tag where g: "p_gcm P (session_key (sess s)) iv (seq_aad seq) ?plain = (ct, tag)"
          by (metis prod.exhaust)
        note n = gcm [OF g]
        have mt: "map length (shm t) = map length (shm s)"
          using t m by (simp add: frame_def)
        then have lt: "length (shm t) = 4" using room(1) by (metis length_map)
        have l1: "length (shm t ! 1) = length (shm s ! 1)" "length (shm t ! 0) = length (shm s ! 0)"
          using mt lt room(1) by (metis nth_map zero_less_numeral one_less_numeral_iff semiring_norm(76))+
        let ?b = "splice (length ct) tag (splice 0 ct (shm t ! 1))"
        let ?t = "t\<lparr>shm := (shm t)[1 := ?b], psize := (psize t)[1 := length ct + length tag],
          sess := (sess t)\<lparr>send_seq := seq\<rparr>, pvalue := (pvalue t)[2 := (ucast seq, 0)],
          n_operations := n_operations t - 1, n_objects := n_objects t - 1\<rparr>"
        have fit: "length ct + 16 \<le> length (shm t ! 1)" using n room l1 by simp
        have b: "take (length ct + 16) ?b = ct @ tag"
          using n fit by (simp add: splice_def)
        have fr: "encrypt_frame V s (\<lambda>x. x\<lparr>send_seq := seq\<rparr>) ?t"
          using t u mono mt n fit by (auto simp: encrypt_frame_def tidy_def frame_def intro: map_le_trans)
        have st: "sess t = sess s" "psize t = (psize s)[0 := 12]" "pvalue t = pvalue s"
          using t u by (simp_all add: frame_def)
        note fr
        moreover have "message_ok P s ?t"
          unfolding message_ok_def
          by (rule exI [of _ iv], rule exI [of _ ct], rule exI [of _ tag])
            (use iv b n in \<open>simp add: st g lt\<close>)
        ultimately have "Q TEE_SUCCESS ?t" by (rule ok)
        then show ?thesis
          using n fit lt by (simp add: g wp_shm_write)
      qed
      have host: "nonce_of P s iv \<and> take 12 (shm t ! 0) = iv"
        if run: "run_state (shm_read P 0 0 12) ?s1 = (iv, t)" and t: "frame V P 0 0 ?s1 t" for iv t
      proof -
        have mt: "map length (shm t) = map length (shm s)"
          using t m by (simp add: frame_def)
        then have "length (shm t) = 4" using room(1) by (metis length_map)
        moreover from this have "length (shm t ! 0) = length (shm s ! 0)"
          using mt room(1) by (metis nth_map zero_less_numeral)
        ultimately have "shm t = fst (p_host P ?m e) \<and> iv = take 12 (shm t ! 0)"
          using run_shm_read [OF run] room(2) by simp
        with m rnd_back len drawn show ?thesis
          unfolding nonce_of_def by (intro conjI exI [of _ ?m] exI [of _ "ext u"]) simp_all
      qed
      show ?thesis
        apply (rule wp_self, rule frame_shm_read [OF laws frame_refl])
          apply (simp_all add: len l0 room p)
        apply (rule impI, drule host, assumption, erule conjE)
        apply (rule frame_tee_call_shm [OF laws], assumption; simp add: stop)
        apply (rule frame_tee_call_shm [OF laws], assumption; (simp add: stop)?)
        apply (rule finish [unfolded Let_def One_nat_def], assumption, assumption, simp_all)
        done
    qed
    done
qed

lemma wp_encrypt_reading:
  assumes laws: "platform_laws V P"
    and room: "length (shm s) = 4" "12 \<le> length (shm s ! 0)" "reading_len (sess s) + 16 \<le> length (shm s ! 1)"
      "length (pvalue s) = 4" "reading_len (sess s) \<le> length (reading (sess s))"
    and fail: "\<And>res t. encrypt_frame V s (\<lambda>x. x) t \<Longrightarrow> res \<noteq> TEE_SUCCESS \<Longrightarrow> Q res t"
    and ok: "\<And>t. encrypt_frame V s (\<lambda>x. x\<lparr>send_seq := seq\<rparr>) t \<Longrightarrow> message_ok P s t \<Longrightarrow> Q TEE_SUCCESS t"
  shows "wp (encrypt_reading P seq) Q s"
proof -
  have out1: "encrypt_frame V s (\<lambda>x. x) (t\<lparr>n_objects := n_objects t - Suc 0\<rparr>)" if "frame V P (Suc 0) 0 s t" for t
    using encrypt_frame_frame [OF frame_free_object [OF that]] .
  have out2: "encrypt_frame V s (\<lambda>x. x) (t\<lparr>n_operations := n_operations t - Suc 0, n_objects := n_objects t - Suc 0\<rparr>)"
    if "frame V P (Suc 0) (Suc 0) s t" for t
    using that by (auto simp: encrypt_frame_def tidy_def frame_def)
  show ?thesis
    unfolding encrypt_reading_def wp_bind
    apply simp
    apply (rule frame_alloc_object [OF laws frame_refl]; simp add: fail encrypt_frame_frame)
    apply (rule frame_tee_call [OF laws], assumption; simp add: fail out1)
    apply (rule frame_alloc_operation [OF laws], assumption; simp add: fail out1)
    apply (rule frame_tee_call [OF laws], assumption; (simp add: fail out2)?)
    apply (rule wp_emit_message [OF laws _ room]; simp add: fail ok)
    done
qed

text \<open>The command: only an authenticated sensor's reading, and only under a valid key.\<close>

definition protect_post ::
    "'e storage_view \<Rightarrow> 'e platform \<Rightarrow> 'e ta_state \<Rightarrow> TEE_Result \<Rightarrow> 'e ta_state \<Rightarrow> bool" where
  "protect_post V P s res t \<longleftrightarrow>
     tidy V s t \<and> n_objects t = n_objects s \<and> n_sessions t = pta_handles (sess t) \<and> reads_only s t \<and>
     (\<exists>rd n b. length rd = READING_MAX \<and> n < READING_MAX \<and>
        (let x = set_reading rd n (with_pta b (sess s)) in
         if res = TEE_SUCCESS
         then sensor_authenticated (sess s) \<and> session_key_valid (sess s) \<and> send_seq (sess s) < 0xffffffff \<and>
           sess t = x\<lparr>send_seq := send_seq (sess s) + 1\<rparr> \<and> reading_stored s t \<and> message_ok P s t
         else sess t = x))"

lemma protect_post_fail:
  assumes "tidy V s t" "n_objects t = n_objects s" "n_sessions t = pta_handles (sess t)" "reads_only s t"
    and "res \<noteq> TEE_SUCCESS" "length rd = 256" "n < 256" "sess t = set_reading rd n (with_pta b (sess s))"
  shows "protect_post V P s res t"
  unfolding protect_post_def Let_def
  apply (rule conjI, rule assms)+
  apply (rule exI [of _ rd], rule exI [of _ n], rule exI [of _ b])
  using assms by simp

lemma protect_post_ok:
  assumes "tidy V s t" "n_objects t = n_objects s" "n_sessions t = pta_handles (sess t)" "reads_only s t"
    and "length rd = 256" "n < 256" "sensor_authenticated (sess s)" "session_key_valid (sess s)"
      "send_seq (sess s) < 0xffffffff"
    and "sess t = (set_reading rd n (with_pta b (sess s)))\<lparr>send_seq := send_seq (sess s) + 1\<rparr>"
    and "reading_stored s t" "message_ok P s t"
  shows "protect_post V P s TEE_SUCCESS t"
  unfolding protect_post_def Let_def
  apply (rule conjI, rule assms)+
  apply (rule exI [of _ rd], rule exI [of _ n], rule exI [of _ b])
  using assms by simp

lemma wp_ta_read_and_protect:
  assumes laws: "platform_laws V P" and inv: "ta_inv V s" and ready: "cmd_ready s"
  shows "wp (ta_read_and_protect P types) (protect_post V P s) s"
proof -
  note sz = cmd_ready_D [OF ready]
  have wf: "session_wf (sess s)" using inv by (simp add: ta_inv_def)
  have keep: "set_reading (reading x) (reading_len x) x = x" for x :: ta_session by simp
  have unread: "protect_post V P s res t"
    if t: "data_frame V P (\<lambda>x. x) s t" "res \<noteq> TEE_SUCCESS" "reads_only s t" for res t
  proof -
    obtain b where b: "sess t = with_pta b (sess s)"
      using t(1) by (auto simp: data_frame_def)
    show ?thesis
      using t b wf
      by (intro protect_post_fail [of V s t _ "reading (sess s)" "reading_len (sess s)" b])
        (auto simp: data_frame_def tidy_def session_wf_def with_pta_def)
  qed
  have start: "data_frame V P (\<lambda>x. x) s s"
    using inv by (auto simp: data_frame_def ta_inv_def with_pta_def intro: exI [of _ False])
  have protect: "wp (encrypt_reading P (send_seq (sess r) + 1)) (protect_post V P s) r"
    if gates: "sensor_authenticated (sess s)" "session_key_valid (sess s)"
      and r: "data_frame V P (set_reading rd n) s r" "length rd = 256" "n \<le> 77" "reading_stored s r"
      and room: "12 \<le> length (shm s ! 0)" "n + 16 \<le> length (shm s ! 1)"
      and seq: "send_seq (sess r) < 0xffffffff" for r rd n
  proof -
    obtain b where b: "sess r = set_reading rd n (with_pta b (sess s))"
      using r(1) by (auto simp: data_frame_def)
    have same: "session_key (sess r) = session_key (sess s)" "send_seq (sess r) = send_seq (sess s)"
      "reading_len (sess r) = n" "reading (sess r) = rd"
      by (simp_all add: b with_pta_def)
    have lens: "map length (shm r) = map length (shm s)" and psz: "psize r = psize s" "pvalue r = pvalue s"
      using r(1) by (simp_all add: data_frame_def)
    note ls = same_sizes_D [OF lens ready]
    show ?thesis
    proof (rule wp_encrypt_reading [OF laws])
      fix res t
      assume t: "encrypt_frame V r (\<lambda>x. x) t" "res \<noteq> TEE_SUCCESS"
      show "protect_post V P s res t"
        using t r b reading_stored_reads [OF r(4)] by (intro protect_post_fail [of V s t _ rd n b])
          (auto simp: encrypt_frame_def data_frame_def tidy_def reads_only_def intro: map_le_trans)
    next
      fix t
      assume t: "encrypt_frame V r (\<lambda>x. x\<lparr>send_seq := send_seq (sess r) + 1\<rparr>) t" "message_ok P r t"
      have st: "sess t = (set_reading rd n (with_pta b (sess s)))\<lparr>send_seq := send_seq (sess s) + 1\<rparr>"
        using t(1) same by (simp add: encrypt_frame_def b)
      have stored: "reading_stored s t"
        using r(4) t(1) by (simp add: reading_stored_def st b encrypt_frame_def)
      moreover have "message_ok P s t"
        using t(2) by (simp add: message_ok_def nonce_of_def same psz lens)
      ultimately show "protect_post V P s TEE_SUCCESS t"
        using t(1) r gates seq st same stored reading_stored_reads [OF stored]
        by (intro protect_post_ok [of V s t rd n b])
          (auto simp: encrypt_frame_def data_frame_def tidy_def pta_handles_def intro: map_le_trans)
    qed (use ls room r sz in \<open>simp_all add: same psz\<close>)
  qed
  show ?thesis
    unfolding ta_read_and_protect_def wp_bind
    apply (simp add: unread [OF start] reads_only_same)
    apply (intro impI)
    apply (rule wp_read_sensor_reading [OF laws inv])
     apply (simp add: unread)
    subgoal premises p for rd n r
    proof -
      obtain b where b: "sess r = set_reading rd n (with_pta b (sess s))"
        using p(5) by (auto simp: data_frame_def)
      have stop: "protect_post V P s res r" if "res \<noteq> TEE_SUCCESS" for res
        using p that b reading_stored_reads [OF p(8)]
        by (intro protect_post_fail [of V s r _ rd n b]) (auto simp: data_frame_def tidy_def)
      show ?thesis
        using p sz protect [OF _ _ p(5,6,7,8)] by (simp add: stop b not_less not_le)
    qed
    done
qed

section \<open>What provisioning does\<close>

text \<open>
  Once a secret is sealed the command puts nothing on the link; before, a successful run
  asked for the secret exactly once. Success always means that a secret is sealed.
\<close>

definition provision_post ::
    "'e storage_view \<Rightarrow> 'e platform \<Rightarrow> 'e ta_state \<Rightarrow> TEE_Result \<Rightarrow> 'e ta_state \<Rightarrow> bool" where
  "provision_post V P s res t \<longleftrightarrow> data_frame V P (\<lambda>x. x) s t \<and>
     (res = TEE_SUCCESS \<longrightarrow> V (ext t) SENSOR_PSK_OBJID \<noteq> None \<and>
        (V (ext s) SENSOR_PSK_OBJID = None \<longrightarrow>
           (\<exists>k. length k = SENSOR_SECRET_SIZE \<and> wire t = wire s @ sent (encode_frame FRAME_SECRET_REQUEST []) @
              received (encode_frame FRAME_SECRET k)))) \<and>
     (V (ext s) SENSOR_PSK_OBJID \<noteq> None \<longrightarrow> wire t = wire s)"

lemma wp_ta_provision_sensor_secret:
  assumes laws: "platform_laws V P" and inv: "ta_inv V s"
  shows "wp (ta_provision_sensor_secret P types) (provision_post V P s) s"
proof -
  have start: "data_frame V P (\<lambda>x. x) s s"
    using inv by (auto simp: data_frame_def ta_inv_def with_pta_def intro: exI [of _ False])
  have quiet: "provision_post V P s res t"
    if "data_frame V P (\<lambda>x. x) s t" "res \<noteq> TEE_SUCCESS" "wire t = wire s" for res t
    using that by (simp add: provision_post_def)
  have failed: "provision_post V P s res t"
    if "data_frame V P (\<lambda>x. x) s t" "res \<noteq> TEE_SUCCESS" "V (ext s) SENSOR_PSK_OBJID = None" for res t
    using that by (simp add: provision_post_def)
  have won: "provision_post V P s TEE_SUCCESS t"
    if "data_frame V P (\<lambda>x. x) s t" "V (ext s) SENSOR_PSK_OBJID = None" "V (ext t) SENSOR_PSK_OBJID \<noteq> None"
      "length k = 32" "wire t = wire s @ sent (encode_frame FRAME_SECRET_REQUEST []) @ received (encode_frame FRAME_SECRET k)" for t k
    using that unfolding provision_post_def SENSOR_SECRET_SIZE_def by blast
  have old: "provision_post V P s TEE_SUCCESS (s\<lparr>ext := e\<rparr>)"
    if "V (ext s) \<subseteq>\<^sub>m V e" "V (ext s) SENSOR_PSK_OBJID \<noteq> None" for e
    using data_frame_ext [OF start that(1)] that map_le_Some [OF that(1)]
    by (auto simp: provision_post_def)
  show ?thesis
    unfolding ta_provision_sensor_secret_def wp_bind
    apply (simp add: quiet [OF start])
    apply (intro impI)
    apply (rule wp_open_persistent [OF laws])
      apply (use old in \<open>simp_all add: quiet [OF data_frame_ext [OF start]] del: PTA_CMD_FETCH_SECRET_def\<close>)
    subgoal premises p for e
    proof -
      let ?u = "s\<lparr>ext := e\<rparr>"
      have u: "data_frame V P (\<lambda>x. x) s ?u" by (rule data_frame_ext [OF start p(2)])
      show ?thesis
        apply (rule wp_open_pta [OF laws u])
          apply (simp_all add: quiet del: PTA_CMD_FETCH_SECRET_def)
        apply (rule wp_pta_fetch_secret [OF laws])
          apply (simp_all add: wp_case_prod)
        subgoal premises q for t k e' rd w
        proof -
          let ?v = "link_update t e' rd (wire s @ sent (encode_frame FRAME_SECRET_REQUEST []) @
            received (encode_frame FRAME_SECRET k)) w"
          have v: "data_frame V P (\<lambda>x. x) s ?v" using data_frame_link [OF q(1,4)] q(3) by simp
          have win: "provision_post V P s TEE_SUCCESS (?v\<lparr>ext := e''\<rparr>)"
            if "V e' \<subseteq>\<^sub>m V e''" "V e'' SENSOR_PSK_OBJID \<noteq> None" for e''
            using data_frame_ext [OF v] that p(3) q(5) by (intro won [of _ k]) simp_all
          have lose: "provision_post V P s res (?v\<lparr>ext := e''\<rparr>)"
            if "V e' \<subseteq>\<^sub>m V e''" "res \<noteq> TEE_SUCCESS" for e'' res
            using data_frame_ext [OF v] that p(3) by (intro failed) simp_all
          show ?thesis
            apply (rule wp_create_persistent [OF laws])
              apply (use win lose in simp_all)
            using win map_le_not_None apply fastforce
            done
        qed
        subgoal premises q for t res e' rd tx w
          using q p(3) by (intro failed data_frame_link [OF q(1,4)]) simp_all
        done
    qed
    done
qed

end
