(* ===== verification/TaDispatch.thy ===== *)
theory TaDispatch
  imports TaHandshake TaData
begin

text \<open>
  The command entry point of the TA, the contract its six commands share, the session as
  an abstract state machine the commands refine, and the histories of a session: any
  sequence of commands with parameters of the Host's choosing, while other sessions of
  the TA may seal objects.
\<close>

section \<open>The entry point\<close>

text \<open>The four commands that cannot panic return into the same type.\<close>

definition returning :: "('s, TEE_Result) state \<Rightarrow> ('s, TEE_Result outcome) state" where
  "returning m = do { res \<leftarrow> m; State_Monad.return (Ret res) }"

definition TA_InvokeCommandEntryPoint ::
    "'e platform \<Rightarrow> nat \<Rightarrow> ptype list \<Rightarrow> ('e, TEE_Result outcome) ta" where
  "TA_InvokeCommandEntryPoint P cmd_id param_types =
     (if cmd_id = CMD_AUTHENTICATE_SENSOR then returning (ta_authenticate_sensor P)
      else if cmd_id = CMD_READ_AND_PROTECT then returning (ta_read_and_protect P param_types)
      else if cmd_id = CMD_GENERATE_ATTESTATION_EVIDENCE
      then ta_generate_attestation_evidence P param_types
      else if cmd_id = CMD_HANDSHAKE_COMPLETE then ta_handshake_complete P param_types
      else if cmd_id = CMD_PROVISION_SENSOR_SECRET then returning (ta_provision_sensor_secret P param_types)
      else if cmd_id = CMD_GENERATE_TA_IDENTITY then returning (ta_generate_ta_identity P param_types)
      else State_Monad.return (Ret TEE_ERROR_NOT_SUPPORTED))"

lemma wp_returning [simp, wp_simps]: "wp (returning m) Q s = wp m (\<lambda>res. Q (Ret res)) s"
  by (cases "run_state m s") (simp add: returning_def wp_def)

section \<open>The contract of a command\<close>

text \<open>
  A command that returns re-establishes the invariant and is tidy; one that panics has
  still stayed inside the shared buffers and lost nothing sealed.
\<close>

definition command_post ::
    "'e storage_view \<Rightarrow> 'e ta_state \<Rightarrow> TEE_Result outcome \<Rightarrow> 'e ta_state \<Rightarrow> bool" where
  "command_post V s r t \<longleftrightarrow> V (ext s) \<subseteq>\<^sub>m V (ext t) \<and> oob t = oob s \<and>
     (\<forall>res. r = Ret res \<longrightarrow> ta_inv V t \<and> tidy V s t)"

locale ta_command =
  fixes cmd :: "'e platform \<Rightarrow> ptype list \<Rightarrow> ('e, TEE_Result outcome) ta"
  assumes contract:
    "platform_laws V P \<Longrightarrow> ta_inv V s \<Longrightarrow> cmd_ready s \<Longrightarrow> wp (cmd P types) (command_post V s) s"
begin

lemma run_post:
  assumes "platform_laws V P" "ta_inv V s" "cmd_ready s" "run_state (cmd P types) s = (r, t)"
  shows "command_post V s r t"
  by (rule wp_run [OF contract [OF assms(1-3)] assms(4)])

lemma run_inv:
  assumes "platform_laws V P" "ta_inv V s" "cmd_ready s" "run_state (cmd P types) s = (Ret res, t)"
  shows "ta_inv V t"
  using run_post [OF assms] by (simp add: command_post_def)

lemma run_sealed:
  assumes "platform_laws V P" "ta_inv V s" "cmd_ready s" "run_state (cmd P types) s = (r, t)"
  shows "V (ext s) \<subseteq>\<^sub>m V (ext t)"
  using run_post [OF assms] by (simp add: command_post_def)

lemma run_in_bounds:
  assumes "platform_laws V P" "ta_inv V s" "cmd_ready s" "run_state (cmd P types) s = (r, t)"
  shows "\<not> oob t"
  using run_post [OF assms] assms(2) by (simp add: command_post_def ta_inv_def)

lemma run_balanced:
  assumes "platform_laws V P" "ta_inv V s" "cmd_ready s" "run_state (cmd P types) s = (Ret res, t)"
  shows "n_operations t = 0" "n_persistent t = 0"
    "n_objects t = key_handles (sess t)" "n_sessions t = pta_handles (sess t)"
  using run_inv [OF assms] by (simp_all add: ta_inv_def)

end

section \<open>The six commands\<close>

lemma ta_inv_step:
  assumes "ta_inv V s" "tidy V s t" "n_objects t = key_handles (sess t)" "n_sessions t = pta_handles (sess t)"
    and "session_wf (sess t)"
    and "session_key_valid (sess t) \<Longrightarrow> session_key_valid (sess s) \<or> V (ext t) SERVER_PUBKEY_OBJID \<noteq> None"
    and "sensor_authenticated (sess t) \<Longrightarrow> sensor_authenticated (sess s) \<or> V (ext t) SENSOR_PSK_OBJID \<noteq> None"
  shows "command_post V s (Ret res) t"
proof -
  have mono: "V (ext s) \<subseteq>\<^sub>m V (ext t)" using assms(2) by (simp add: tidy_def)
  have "session_key_valid (sess t) \<Longrightarrow> V (ext t) SERVER_PUBKEY_OBJID \<noteq> None"
    "sensor_authenticated (sess t) \<Longrightarrow> V (ext t) SENSOR_PSK_OBJID \<noteq> None"
    using assms(1,6,7) map_le_not_None [OF mono] unfolding ta_inv_def by blast+
  then show ?thesis
    using assms(1-5) mono unfolding command_post_def ta_inv_def tidy_def by simp
qed

lemma evidence_post_command:
  assumes inv: "ta_inv V s" and post: "evidence_post V P s r t"
  shows "command_post V s r t"
proof (cases r)
  case (Ret res)
  with post have t: "tidy V s t" "n_sessions t = n_sessions s" "n_objects t = key_handles (sess t)"
    by (simp_all add: evidence_post_def)
  have wf: "session_wf (sess s)" and n: "n_sessions s = pta_handles (sess s)"
    using inv by (simp_all add: ta_inv_def)
  have step: "command_post V s (Ret res) t"
    if "sess t = (sess s)\<lparr>ecdh_keypair := k, session_key_valid := False\<rparr>" "\<And>x. k = Some x \<Longrightarrow> key_fits x" for k
    by (rule ta_inv_step [OF inv t(1,3)]) (use that wf n t in \<open>simp_all add: session_wf_def pta_handles_def\<close>)
  have stutter: "command_post V s (Ret res) t" if "sess t = sess s"
    by (rule ta_inv_step [OF inv t(1,3)]) (use that wf n t in simp_all)
  show ?thesis
  proof (cases "res = TEE_SUCCESS")
    case True
    with post Ret obtain key where "key_fits key"
      "sess t = (sess s)\<lparr>ecdh_keypair := Some key, session_key_valid := False\<rparr>"
      by (auto simp: evidence_post_def evidence_of_copies_def evidence_ok_def)
    with step [of "Some key"] Ret show ?thesis by simp
  next
    case False
    with post Ret have "sess t = sess s \<or> sess t = (sess s)\<lparr>ecdh_keypair := None, session_key_valid := False\<rparr>"
      by (simp add: evidence_post_def)
    with step [of None] stutter Ret show ?thesis by blast
  qed
next
  case Panicked
  with post show ?thesis by (simp add: command_post_def evidence_post_def)
qed

lemma handshake_post_command:
  assumes laws: "platform_laws V P" and inv: "ta_inv V s" and post: "handshake_post V P s r t"
  shows "command_post V s r t"
proof (cases r)
  case (Ret res)
  with post have t: "tidy V s t" "n_sessions t = n_sessions s" "n_objects t = key_handles (sess t)"
    by (simp_all add: handshake_post_def)
  have wf: "session_wf (sess s)" and n: "n_sessions s = pta_handles (sess s)"
    using inv by (simp_all add: ta_inv_def)
  show ?thesis
  proof (cases "res = TEE_SUCCESS")
    case True
    with post Ret obtain z salt where ok: "V (ext t) SERVER_PUBKEY_OBJID \<noteq> None"
      "sess t = (sess s)\<lparr>ecdh_keypair := None, session_key := p_hkdf P z salt HKDF_INFO 32,
         session_key_valid := True, send_seq := 0\<rparr>"
      by (auto simp: handshake_post_def handshake_ok_def)
    have "length (p_hkdf P z salt HKDF_INFO 32) = 32"
      using platform_laws_D(4) [OF laws] by (simp add: crypto_sizes_def)
    then show ?thesis
      unfolding Ret by (intro ta_inv_step [OF inv t(1,3)])
        (use ok wf n t in \<open>simp_all add: session_wf_def pta_handles_def\<close>)
  next
    case False
    with post Ret have "sess t = sess s \<or> sess t = (sess s)\<lparr>ecdh_keypair := None\<rparr>"
      by (simp add: handshake_post_def)
    then show ?thesis
    proof
      assume "sess t = sess s"
      then show ?thesis
        unfolding Ret by (intro ta_inv_step [OF inv t(1,3)]) (use wf n t in simp_all)
    next
      assume "sess t = (sess s)\<lparr>ecdh_keypair := None\<rparr>"
      then show ?thesis
        unfolding Ret by (intro ta_inv_step [OF inv t(1,3)])
          (use wf n t in \<open>simp_all add: session_wf_def pta_handles_def\<close>)
    qed
  qed
next
  case Panicked
  with post show ?thesis by (simp add: command_post_def handshake_post_def)
qed

lemma data_frame_command:
  assumes inv: "ta_inv V s" and f: "data_frame V P g s t"
    and g: "\<And>x. ecdh_keypair (g x) = ecdh_keypair x"
    and wf: "\<And>x. session_wf x \<Longrightarrow> session_wf (g x)"
    and valid: "\<And>x. session_key_valid (g x) = session_key_valid x"
    and auth: "sensor_authenticated (sess t) \<Longrightarrow> sensor_authenticated (sess s) \<or> V (ext t) SENSOR_PSK_OBJID \<noteq> None"
  shows "command_post V s (Ret res) t"
proof -
  obtain b where b: "sess t = g (with_pta b (sess s))"
    using f by (auto simp: data_frame_def)
  show ?thesis
    by (rule ta_inv_step [OF inv data_frame_tidy [OF f]])
      (use f inv auth in \<open>simp_all add: data_frame_def ta_inv_def b key_handles_def g wf valid\<close>)
qed

lemma auth_post_command:
  assumes inv: "ta_inv V s" and post: "auth_post V P s res t"
  shows "command_post V s (Ret res) t"
proof (rule data_frame_command [OF inv, of P "\<lambda>x. x\<lparr>sensor_authenticated := (res = TEE_SUCCESS)\<rparr>"])
  show "data_frame V P (\<lambda>x. x\<lparr>sensor_authenticated := (res = TEE_SUCCESS)\<rparr>) s t"
    using post by (simp add: auth_post_def)
  have "sensor_authenticated (sess t) = (res = TEE_SUCCESS)"
    using post by (auto simp: auth_post_def data_frame_def)
  then show "sensor_authenticated (sess t) \<Longrightarrow> sensor_authenticated (sess s) \<or> V (ext t) SENSOR_PSK_OBJID \<noteq> None"
    using post by (auto simp: auth_post_def authentic_def)
qed (simp_all add: session_wf_def)

lemma provision_post_command:
  assumes inv: "ta_inv V s" and post: "provision_post V P s res t"
  shows "command_post V s (Ret res) t"
proof (rule data_frame_command [OF inv, of P "\<lambda>x. x"])
  show f: "data_frame V P (\<lambda>x. x) s t"
    using post by (simp add: provision_post_def)
  then show "sensor_authenticated (sess t) \<Longrightarrow> sensor_authenticated (sess s) \<or> V (ext t) SENSOR_PSK_OBJID \<noteq> None"
    by (auto simp: data_frame_def)
qed simp_all

lemma protect_postD:
  assumes "protect_post V P s res t"
  shows "\<exists>rd n b. length rd = 256 \<and> n < 256 \<and>
    (res = TEE_SUCCESS \<longrightarrow> sensor_authenticated (sess s) \<and> session_key_valid (sess s) \<and>
       send_seq (sess s) < 0xffffffff \<and>
       sess t = (set_reading rd n (with_pta b (sess s)))\<lparr>send_seq := send_seq (sess s) + 1\<rparr>) \<and>
    (res \<noteq> TEE_SUCCESS \<longrightarrow> sess t = set_reading rd n (with_pta b (sess s)))"
proof (cases "res = TEE_SUCCESS")
  case True
  with assms show ?thesis
    unfolding protect_post_def Let_def READING_MAX_def by (simp only: simp_thms if_True) blast
next
  case False
  with assms show ?thesis
    unfolding protect_post_def Let_def READING_MAX_def by (simp only: simp_thms if_False)
qed

lemma protect_post_command:
  assumes inv: "ta_inv V s" and post: "protect_post V P s res t"
  shows "command_post V s (Ret res) t"
proof -
  have t: "tidy V s t" "n_objects t = n_objects s" "n_sessions t = pta_handles (sess t)"
    using post by (simp_all add: protect_post_def)
  have wf: "session_wf (sess s)" and n: "n_objects s = key_handles (sess s)"
    using inv by (simp_all add: ta_inv_def)
  obtain rd n b where x: "length rd = 256" "n < 256"
    and ok: "res = TEE_SUCCESS \<Longrightarrow> send_seq (sess s) < 0xffffffff"
      "res = TEE_SUCCESS \<Longrightarrow> sess t = (set_reading rd n (with_pta b (sess s)))\<lparr>send_seq := send_seq (sess s) + 1\<rparr>"
    and no: "res \<noteq> TEE_SUCCESS \<Longrightarrow> sess t = set_reading rd n (with_pta b (sess s))"
    using protect_postD [OF post] by blast
  then have st: "sess t = set_reading rd n (with_pta b (sess s)) \<or>
      send_seq (sess s) < 0xffffffff \<and>
      sess t = (set_reading rd n (with_pta b (sess s)))\<lparr>send_seq := send_seq (sess s) + 1\<rparr>"
    by blast
  have seq: "q + 1 \<le> 0xffffffff" if "q < 0xffffffff" for q :: u64
    using that by (simp add: inc_le)
  have w: "session_wf (set_reading rd n (with_pta b (sess s)))"
    using wf x by (simp add: session_wf_def with_pta_def)
  have k: "ecdh_keypair (sess t) = ecdh_keypair (sess s)" "session_key_valid (sess t) = session_key_valid (sess s)"
    "sensor_authenticated (sess t) = sensor_authenticated (sess s)"
    using st by auto
  have "session_wf (sess t)"
    using st
  proof
    assume "sess t = set_reading rd n (with_pta b (sess s))"
    with w show ?thesis by simp
  next
    assume "send_seq (sess s) < 0xffffffff \<and>
      sess t = (set_reading rd n (with_pta b (sess s)))\<lparr>send_seq := send_seq (sess s) + 1\<rparr>"
    with w seq show ?thesis by (simp add: session_wf_def)
  qed
  then show ?thesis
    by (intro ta_inv_step [OF inv t(1) _ t(3)]) (simp_all add: k t n key_handles_def)
qed

lemma identity_post_command:
  assumes inv: "ta_inv V s" and post: "identity_post V n i s res t"
  shows "command_post V s (Ret res) t"
  using post inv by (intro ta_inv_step [OF inv]) (simp_all add: identity_post_def ta_inv_def)

interpretation authenticate: ta_command "\<lambda>P types. returning (ta_authenticate_sensor P)"
  by unfold_locales (auto intro: wp_mono [OF wp_ta_authenticate_sensor] auth_post_command)

interpretation protect: ta_command "\<lambda>P types. returning (ta_read_and_protect P types)"
  by unfold_locales (auto intro: wp_mono [OF wp_ta_read_and_protect] protect_post_command)

interpretation evidence: ta_command ta_generate_attestation_evidence
  by unfold_locales (auto intro: wp_mono [OF wp_ta_generate_attestation_evidence] evidence_post_command)

interpretation handshake: ta_command ta_handshake_complete
  by unfold_locales (auto intro: wp_mono [OF wp_ta_handshake_complete] handshake_post_command)

interpretation provision: ta_command "\<lambda>P types. returning (ta_provision_sensor_secret P types)"
  by unfold_locales (auto intro: wp_mono [OF wp_ta_provision_sensor_secret] provision_post_command)

interpretation identity: ta_command "\<lambda>P types. returning (ta_generate_ta_identity P types)"
  by unfold_locales (auto intro: wp_mono [OF wp_ta_generate_ta_identity] identity_post_command)

text \<open>So does the entry point, for every command number.\<close>

interpretation dispatch: ta_command "\<lambda>P types. TA_InvokeCommandEntryPoint P c types" for c
proof
  fix V :: "'a storage_view" and P :: "'a platform" and s :: "'a ta_state" and types
  assume a: "platform_laws V P" "ta_inv V s" "cmd_ready s"
  have "command_post V s (Ret TEE_ERROR_NOT_SUPPORTED) s"
    using a(2) by (simp add: command_post_def tidy_def)
  then show "wp (TA_InvokeCommandEntryPoint P c types) (command_post V s) s"
    unfolding TA_InvokeCommandEntryPoint_def
    using authenticate.contract [OF a] protect.contract [OF a, of types]
      evidence.contract [OF a, of types] handshake.contract [OF a, of types]
      provision.contract [OF a, of types] identity.contract [OF a, of types]
    by (simp del: wp_returning)
qed

section \<open>The session as an abstract machine\<close>

text \<open>
  What a session is for its peers: the state of the key exchange and whether a sensor is
  authenticated. The steps are the promises of the commands; nothing else is possible.
\<close>

datatype exchange = NoKey | Pending ec_key | Established bytes u64

record abs_session =
  exchange :: exchange
  authed :: bool

definition abs_of :: "ta_session \<Rightarrow> abs_session" where
  "abs_of x =
     \<lparr>exchange = (case ecdh_keypair x of
         Some k \<Rightarrow> Pending k
       | None \<Rightarrow> if session_key_valid x then Established (session_key x) (send_seq x) else NoKey),
      authed = sensor_authenticated x\<rparr>"

inductive abs_step :: "nat \<Rightarrow> TEE_Result \<Rightarrow> abs_session \<Rightarrow> abs_session \<Rightarrow> bool" where
  stutter: "c \<noteq> CMD_AUTHENTICATE_SENSOR \<Longrightarrow> res \<noteq> TEE_SUCCESS \<Longrightarrow> abs_step c res a a"
| sensor: "abs_step CMD_AUTHENTICATE_SENSOR res a (a\<lparr>authed := (res = TEE_SUCCESS)\<rparr>)"
| provision: "abs_step CMD_PROVISION_SENSOR_SECRET TEE_SUCCESS a a"
| identity: "abs_step CMD_GENERATE_TA_IDENTITY TEE_SUCCESS a a"
| fresh: "abs_step CMD_GENERATE_ATTESTATION_EVIDENCE TEE_SUCCESS a (a\<lparr>exchange := Pending k\<rparr>)"
| reset: "res \<noteq> TEE_SUCCESS \<Longrightarrow>
    abs_step CMD_GENERATE_ATTESTATION_EVIDENCE res a (a\<lparr>exchange := NoKey\<rparr>)"
| establish: "exchange a = Pending k \<Longrightarrow>
    abs_step CMD_HANDSHAKE_COMPLETE TEE_SUCCESS a (a\<lparr>exchange := Established key 0\<rparr>)"
| abort: "exchange a = Pending k \<Longrightarrow> res \<noteq> TEE_SUCCESS \<Longrightarrow>
    abs_step CMD_HANDSHAKE_COMPLETE res a (a\<lparr>exchange := NoKey\<rparr>)"
| send: "authed a \<Longrightarrow> exchange a = Established key n \<Longrightarrow> n < 0xffffffff \<Longrightarrow>
    abs_step CMD_READ_AND_PROTECT TEE_SUCCESS a (a\<lparr>exchange := Established key (n + 1)\<rparr>)"

inductive_cases abs_step_send: "abs_step CMD_READ_AND_PROTECT TEE_SUCCESS a b"
inductive_cases abs_step_establish: "abs_step CMD_HANDSHAKE_COMPLETE TEE_SUCCESS a b"

lemma abs_of_with_pta [simp]: "abs_of (with_pta b x) = abs_of x"
  by (simp add: abs_of_def split: option.split)

lemma abs_of_set_reading [simp]: "abs_of (set_reading rd n x) = abs_of x"
  by (simp add: abs_of_def split: option.split)

lemma abs_of_pending: "session_wf x \<Longrightarrow> session_key_valid x \<Longrightarrow>
    exchange (abs_of x) = Established (session_key x) (send_seq x)"
  by (auto simp: abs_of_def session_wf_def split: option.split)

lemma evidence_refines:
  assumes "evidence_post V P s (Ret res) t"
  shows "abs_step CMD_GENERATE_ATTESTATION_EVIDENCE res (abs_of (sess s)) (abs_of (sess t))"
proof (cases "res = TEE_SUCCESS")
  case True
  with assms obtain key where
    "sess t = (sess s)\<lparr>ecdh_keypair := Some key, session_key_valid := False\<rparr>"
    by (auto simp: evidence_post_def evidence_of_copies_def evidence_ok_def)
  then have "abs_of (sess t) = (abs_of (sess s))\<lparr>exchange := Pending key\<rparr>"
    by (simp add: abs_of_def)
  with True show ?thesis by (simp only: abs_step.fresh)
next
  case False
  with assms have "sess t = sess s \<or> sess t = (sess s)\<lparr>ecdh_keypair := None, session_key_valid := False\<rparr>"
    by (simp add: evidence_post_def)
  then have "abs_of (sess t) = abs_of (sess s) \<or> abs_of (sess t) = (abs_of (sess s))\<lparr>exchange := NoKey\<rparr>"
    by (elim disjE) (simp_all add: abs_of_def)
  with abs_step.reset [OF False, of "abs_of (sess s)"]
    abs_step.stutter [of CMD_GENERATE_ATTESTATION_EVIDENCE res "abs_of (sess s)"] False
  show ?thesis
    by (elim disjE) simp_all
qed

lemma handshake_refines:
  assumes inv: "ta_inv V s" and post: "handshake_post V P s (Ret res) t"
  shows "abs_step CMD_HANDSHAKE_COMPLETE res (abs_of (sess s)) (abs_of (sess t))"
proof (cases "res = TEE_SUCCESS")
  case True
  with post obtain k z salt where k: "ecdh_keypair (sess s) = Some k"
    and t: "sess t = (sess s)\<lparr>ecdh_keypair := None, session_key := p_hkdf P z salt HKDF_INFO 32,
         session_key_valid := True, send_seq := 0\<rparr>"
    by (auto simp: handshake_post_def handshake_ok_def)
  have "exchange (abs_of (sess s)) = Pending k"
    by (simp add: abs_of_def k)
  moreover have "abs_of (sess t) = (abs_of (sess s))\<lparr>exchange := Established (p_hkdf P z salt HKDF_INFO 32) 0\<rparr>"
    by (simp add: abs_of_def t)
  ultimately show ?thesis using True by (simp only: abs_step.establish)
next
  case False
  show ?thesis
  proof (cases "ecdh_keypair (sess s)")
    case None
    with False post have "abs_of (sess t) = abs_of (sess s)"
      by (auto simp: handshake_post_def abs_of_def)
    with False show ?thesis by (simp add: abs_step.stutter)
  next
    case (Some k)
    then have p: "exchange (abs_of (sess s)) = Pending k" "\<not> session_key_valid (sess s)"
      using inv by (simp_all add: abs_of_def ta_inv_def session_wf_def)
    from False post have "sess t = sess s \<or> sess t = (sess s)\<lparr>ecdh_keypair := None\<rparr>"
      by (simp add: handshake_post_def)
    then have "abs_of (sess t) = abs_of (sess s) \<or> abs_of (sess t) = (abs_of (sess s))\<lparr>exchange := NoKey\<rparr>"
      by (elim disjE) (simp_all add: abs_of_def p)
    with abs_step.abort [OF p(1) False]
      abs_step.stutter [of CMD_HANDSHAKE_COMPLETE res "abs_of (sess s)"] False
    show ?thesis
      by (elim disjE) simp_all
  qed
qed

lemma protect_refines:
  assumes inv: "ta_inv V s" and post: "protect_post V P s res t"
  shows "abs_step CMD_READ_AND_PROTECT res (abs_of (sess s)) (abs_of (sess t))"
proof -
  obtain rd n b where ok: "res = TEE_SUCCESS \<Longrightarrow> sensor_authenticated (sess s)"
      "res = TEE_SUCCESS \<Longrightarrow> session_key_valid (sess s)" "res = TEE_SUCCESS \<Longrightarrow> send_seq (sess s) < 0xffffffff"
      "res = TEE_SUCCESS \<Longrightarrow> sess t = (set_reading rd n (with_pta b (sess s)))\<lparr>send_seq := send_seq (sess s) + 1\<rparr>"
    and st: "res \<noteq> TEE_SUCCESS \<Longrightarrow> sess t = set_reading rd n (with_pta b (sess s))"
    using protect_postD [OF post] by blast
  show ?thesis
  proof (cases "res = TEE_SUCCESS")
    case True
    with ok have g: "authed (abs_of (sess s))" "session_key_valid (sess s)" "send_seq (sess s) < 0xffffffff"
      and t: "sess t = (set_reading rd n (with_pta b (sess s)))\<lparr>send_seq := send_seq (sess s) + 1\<rparr>"
      by (simp_all add: abs_of_def)
    from inv have wf: "session_wf (sess s)" by (simp add: ta_inv_def)
    note ex = abs_of_pending [OF wf g(2)]
    have none: "ecdh_keypair (sess s) = None"
      using wf g(2) by (cases "ecdh_keypair (sess s)") (simp_all add: session_wf_def)
    have "abs_of (sess t) = (abs_of (sess s))\<lparr>exchange := Established (session_key (sess s)) (send_seq (sess s) + 1)\<rparr>"
      by (simp add: t abs_of_def none g)
    with True abs_step.send [OF g(1) ex g(3)] show ?thesis by simp
  next
    case False
    with st show ?thesis by (simp add: abs_step.stutter)
  qed
qed

text \<open>Every command that returns is a step of the abstract machine.\<close>

lemma wp_dispatch_refines:
  assumes laws: "platform_laws V P" and inv: "ta_inv V s" and ready: "cmd_ready s"
  shows "wp (TA_InvokeCommandEntryPoint P c types)
    (\<lambda>r t. \<forall>res. r = Ret res \<longrightarrow> abs_step c res (abs_of (sess s)) (abs_of (sess t))) s"
proof -
  let ?Q = "\<lambda>r t. \<forall>res. r = Ret res \<longrightarrow> abs_step c res (abs_of (sess s)) (abs_of (sess t))"
  have sensor: "wp (ta_authenticate_sensor P) (\<lambda>res t.
      abs_step CMD_AUTHENTICATE_SENSOR res (abs_of (sess s)) (abs_of (sess t))) s"
  proof (rule wp_mono [OF wp_ta_authenticate_sensor [OF laws inv]])
    fix res t
    assume "auth_post V P s res t"
    then obtain b where "sess t = (with_pta b (sess s))\<lparr>sensor_authenticated := (res = TEE_SUCCESS)\<rparr>"
      by (auto simp: auth_post_def data_frame_def)
    then have "abs_of (sess t) = (abs_of (sess s))\<lparr>authed := (res = TEE_SUCCESS)\<rparr>"
      by (simp add: abs_of_def split: option.split)
    then show "abs_step CMD_AUTHENTICATE_SENSOR res (abs_of (sess s)) (abs_of (sess t))"
      by (simp only: abs_step.sensor)
  qed
  have provision: "wp (ta_provision_sensor_secret P types) (\<lambda>res t.
      abs_step CMD_PROVISION_SENSOR_SECRET res (abs_of (sess s)) (abs_of (sess t))) s"
  proof (rule wp_mono [OF wp_ta_provision_sensor_secret [OF laws inv]])
    fix res t
    assume "provision_post V P s res t"
    then have "abs_of (sess t) = abs_of (sess s)"
      by (auto simp: provision_post_def data_frame_def)
    then show "abs_step CMD_PROVISION_SENSOR_SECRET res (abs_of (sess s)) (abs_of (sess t))"
      using abs_step.provision abs_step.stutter by (cases "res = TEE_SUCCESS") simp_all
  qed
  have identity: "wp (ta_generate_ta_identity P types) (\<lambda>res t.
      abs_step CMD_GENERATE_TA_IDENTITY res (abs_of (sess s)) (abs_of (sess t))) s"
  proof (rule wp_mono [OF wp_ta_generate_ta_identity [OF laws ready]])
    fix res t
    assume "\<exists>i. length i = psize s ! 0 \<and> (quiet_host P \<longrightarrow> i = shm s ! 0) \<and>
      identity_post V (psize s ! 0) i s res t"
    then have "abs_of (sess t) = abs_of (sess s)"
      by (auto simp: identity_post_def)
    then show "abs_step CMD_GENERATE_TA_IDENTITY res (abs_of (sess s)) (abs_of (sess t))"
      using abs_step.identity abs_step.stutter by (cases "res = TEE_SUCCESS") simp_all
  qed
  have unknown: "abs_step c TEE_ERROR_NOT_SUPPORTED (abs_of (sess s)) (abs_of (sess s))"
    if "c \<noteq> CMD_AUTHENTICATE_SENSOR"
    using that by (intro abs_step.stutter) simp_all
  consider "c = CMD_AUTHENTICATE_SENSOR" | "c = CMD_READ_AND_PROTECT" | "c = CMD_GENERATE_ATTESTATION_EVIDENCE"
    | "c = CMD_HANDSHAKE_COMPLETE" | "c = CMD_PROVISION_SENSOR_SECRET" | "c = CMD_GENERATE_TA_IDENTITY"
    | "c \<notin> {CMD_AUTHENTICATE_SENSOR, CMD_READ_AND_PROTECT, CMD_GENERATE_ATTESTATION_EVIDENCE,
        CMD_HANDSHAKE_COMPLETE, CMD_PROVISION_SENSOR_SECRET, CMD_GENERATE_TA_IDENTITY}"
    by blast
  then show ?thesis
  proof cases
    case 1
    with sensor show ?thesis by (simp add: TA_InvokeCommandEntryPoint_def)
  next
    case 2
    then show ?thesis
      using wp_mono [OF wp_ta_read_and_protect [OF laws inv ready] protect_refines [OF inv]]
      by (simp add: TA_InvokeCommandEntryPoint_def)
  next
    case 3
    have "wp (ta_generate_attestation_evidence P types)
        (\<lambda>r t. \<forall>res. r = Ret res \<longrightarrow> abs_step CMD_GENERATE_ATTESTATION_EVIDENCE res (abs_of (sess s)) (abs_of (sess t))) s"
      using evidence_refines by (blast intro: wp_mono [OF wp_ta_generate_attestation_evidence [OF laws inv ready]])
    with 3 show ?thesis by (simp add: TA_InvokeCommandEntryPoint_def)
  next
    case 4
    have "wp (ta_handshake_complete P types)
        (\<lambda>r t. \<forall>res. r = Ret res \<longrightarrow> abs_step CMD_HANDSHAKE_COMPLETE res (abs_of (sess s)) (abs_of (sess t))) s"
      using handshake_refines [OF inv] by (blast intro: wp_mono [OF wp_ta_handshake_complete [OF laws inv ready]])
    with 4 show ?thesis by (simp add: TA_InvokeCommandEntryPoint_def)
  next
    case 5
    with provision show ?thesis by (simp add: TA_InvokeCommandEntryPoint_def)
  next
    case 6
    with identity show ?thesis by (simp add: TA_InvokeCommandEntryPoint_def)
  next
    case 7
    with unknown show ?thesis by (simp add: TA_InvokeCommandEntryPoint_def)
  qed
qed

section \<open>Counter and key\<close>

text \<open>The session key changes only when a handshake succeeds, the counter then and with each message.\<close>

definition counter_post :: "nat \<Rightarrow> TEE_Result \<Rightarrow> ta_session \<Rightarrow> ta_session \<Rightarrow> bool" where
  "counter_post c res x y \<longleftrightarrow>
     (if c = CMD_HANDSHAKE_COMPLETE \<and> res = TEE_SUCCESS then send_seq y = 0 \<and> ecdh_keypair x \<noteq> None
      else if c = CMD_READ_AND_PROTECT \<and> res = TEE_SUCCESS
      then send_seq x < 0xffffffff \<and> send_seq y = send_seq x + 1 \<and> session_key y = session_key x \<and>
        sensor_authenticated x \<and> session_key_valid x
      else send_seq y = send_seq x \<and> session_key y = session_key x)"

lemma counter_commands:
  shows "auth_post V P s res t \<Longrightarrow> counter_post CMD_AUTHENTICATE_SENSOR res (sess s) (sess t)"
    and "provision_post V P s res t \<Longrightarrow> counter_post CMD_PROVISION_SENSOR_SECRET res (sess s) (sess t)"
    and "identity_post V n i s res t \<Longrightarrow> counter_post CMD_GENERATE_TA_IDENTITY res (sess s) (sess t)"
    and "evidence_post V P s (Ret res) t \<Longrightarrow> counter_post CMD_GENERATE_ATTESTATION_EVIDENCE res (sess s) (sess t)"
    and "handshake_post V P s (Ret res) t \<Longrightarrow> counter_post CMD_HANDSHAKE_COMPLETE res (sess s) (sess t)"
    and "protect_post V P s res t \<Longrightarrow> counter_post CMD_READ_AND_PROTECT res (sess s) (sess t)"
proof -
  show "auth_post V P s res t \<Longrightarrow> counter_post CMD_AUTHENTICATE_SENSOR res (sess s) (sess t)"
    by (auto simp: auth_post_def data_frame_def counter_post_def)
  show "provision_post V P s res t \<Longrightarrow> counter_post CMD_PROVISION_SENSOR_SECRET res (sess s) (sess t)"
    by (auto simp: provision_post_def data_frame_def counter_post_def)
  show "identity_post V n i s res t \<Longrightarrow> counter_post CMD_GENERATE_TA_IDENTITY res (sess s) (sess t)"
    by (simp add: identity_post_def counter_post_def)
  show "evidence_post V P s (Ret res) t \<Longrightarrow> counter_post CMD_GENERATE_ATTESTATION_EVIDENCE res (sess s) (sess t)"
    by (cases "res = TEE_SUCCESS")
      (auto simp: evidence_post_def evidence_of_copies_def evidence_ok_def counter_post_def)
  show "handshake_post V P s (Ret res) t \<Longrightarrow> counter_post CMD_HANDSHAKE_COMPLETE res (sess s) (sess t)"
    by (cases "res = TEE_SUCCESS")
      (auto simp: handshake_post_def handshake_ok_def counter_post_def)
  assume post: "protect_post V P s res t"
  from protect_postD [OF post] obtain rd n b where
    "res = TEE_SUCCESS \<Longrightarrow> sensor_authenticated (sess s) \<and> session_key_valid (sess s) \<and>
       send_seq (sess s) < 0xffffffff \<and>
       sess t = (set_reading rd n (with_pta b (sess s)))\<lparr>send_seq := send_seq (sess s) + 1\<rparr>"
    "res \<noteq> TEE_SUCCESS \<Longrightarrow> sess t = set_reading rd n (with_pta b (sess s))" by blast
  then show "counter_post CMD_READ_AND_PROTECT res (sess s) (sess t)"
    by (cases "res = TEE_SUCCESS") (simp_all add: counter_post_def)
qed

lemma wp_dispatch_counter:
  assumes laws: "platform_laws V P" and inv: "ta_inv V s" and ready: "cmd_ready s"
  shows "wp (TA_InvokeCommandEntryPoint P c types)
    (\<lambda>r t. \<forall>res. r = Ret res \<longrightarrow> counter_post c res (sess s) (sess t)) s"
proof -
  let ?Q = "\<lambda>c r t. \<forall>res. r = Ret res \<longrightarrow> counter_post c res (sess s) (sess t)"
  note cc = counter_commands
  have 0: "wp (ta_authenticate_sensor P) (\<lambda>res. ?Q CMD_AUTHENTICATE_SENSOR (Ret res)) s"
    by (rule wp_mono [OF wp_ta_authenticate_sensor [OF laws inv]]) (use cc(1) in blast)
  have 1: "wp (ta_read_and_protect P types) (\<lambda>res. ?Q CMD_READ_AND_PROTECT (Ret res)) s"
    by (rule wp_mono [OF wp_ta_read_and_protect [OF laws inv ready]]) (use cc(6) in blast)
  have 3: "wp (ta_generate_attestation_evidence P types) (?Q CMD_GENERATE_ATTESTATION_EVIDENCE) s"
    by (rule wp_mono [OF wp_ta_generate_attestation_evidence [OF laws inv ready]]) (use cc(4) in blast)
  have 4: "wp (ta_handshake_complete P types) (?Q CMD_HANDSHAKE_COMPLETE) s"
    by (rule wp_mono [OF wp_ta_handshake_complete [OF laws inv ready]]) (use cc(5) in blast)
  have 5: "wp (ta_provision_sensor_secret P types) (\<lambda>res. ?Q CMD_PROVISION_SENSOR_SECRET (Ret res)) s"
    by (rule wp_mono [OF wp_ta_provision_sensor_secret [OF laws inv]]) (use cc(2) in blast)
  have 6: "wp (ta_generate_ta_identity P types) (\<lambda>res. ?Q CMD_GENERATE_TA_IDENTITY (Ret res)) s"
    by (rule wp_mono [OF wp_ta_generate_ta_identity [OF laws ready]]) (use cc(3) in blast)
  show ?thesis
    using 0 1 3 4 5 6 by (simp add: TA_InvokeCommandEntryPoint_def) (simp add: counter_post_def)
qed

section \<open>Histories of a session\<close>

text \<open>
  \<open>ta_hist V P s e msgs\<close>: a session opened and used in any way is in state \<open>s\<close>, \<open>e\<close>
  handshakes have succeeded in it, and \<open>msgs\<close> are the messages it produced, each with the
  key it was encrypted under (the number of the handshake) and its counter. Between
  commands the Host sets the parameters and anything may happen outside the session that
  loses nothing sealed. No code reads \<open>e\<close> and \<open>msgs\<close>.
\<close>

definition fresh_ta :: "'e ta_state \<Rightarrow> bool" where
  "fresh_ta w \<longleftrightarrow> n_objects w = 0 \<and> n_operations w = 0 \<and> n_persistent w = 0 \<and> n_sessions w = 0 \<and> \<not> oob w"

inductive ta_hist ::
    "'e storage_view \<Rightarrow> 'e platform \<Rightarrow> 'e ta_state \<Rightarrow> nat \<Rightarrow> (nat \<times> u64) list \<Rightarrow> bool"
  for V :: "'e storage_view" and P :: "'e platform" where
  opened: "fresh_ta w \<Longrightarrow> run_state (TA_OpenSessionEntryPoint P) w = (TEE_SUCCESS, s) \<Longrightarrow> ta_hist V P s 0 []"
| outside: "ta_hist V P s e msgs \<Longrightarrow> V (ext s) \<subseteq>\<^sub>m V x \<Longrightarrow> ta_hist V P (link_update s x rd tx w) e msgs"
| params: "ta_hist V P s e msgs \<Longrightarrow> length m = 4 \<Longrightarrow> length v = 4 \<Longrightarrow>
    ta_hist V P (s\<lparr>shm := m, psize := map length m, pvalue := v\<rparr>) e msgs"
| command: "ta_hist V P s e msgs \<Longrightarrow> cmd_ready s \<Longrightarrow>
    run_state (TA_InvokeCommandEntryPoint P c types) s = (Ret res, t) \<Longrightarrow>
    ta_hist V P t (if c = CMD_HANDSHAKE_COMPLETE \<and> res = TEE_SUCCESS then Suc e else e)
      (if c = CMD_READ_AND_PROTECT \<and> res = TEE_SUCCESS then msgs @ [(e, send_seq (sess t))] else msgs)"

lemma zero_session_wf: "session_wf zero_session"
  by (simp add: session_wf_def zero_session_def)

lemma ta_hist_inv:
  assumes laws: "platform_laws V P" and hist: "ta_hist V P s e msgs"
  shows "ta_inv V s"
  using hist
proof (induction rule: ta_hist.induct)
  case (opened w s)
  then have "wp (TA_OpenSessionEntryPoint P) (\<lambda>res t. res = TEE_SUCCESS \<longrightarrow> ta_inv V t) w"
    unfolding TA_OpenSessionEntryPoint_def wp_bind
    by (intro wp_tee_call [OF laws])
      (use zero_session_wf in \<open>simp add: fresh_ta_def ta_inv_def zero_session_def key_handles_def pta_handles_def\<close>)
  from wp_run [OF this opened(2)] show ?case by simp
next
  case (outside s e msgs x rd tx w)
  from ta_inv_ext [OF outside.IH outside.hyps(2)] show ?case
    by (simp add: ta_inv_def)
next
  case (params s e msgs m v)
  then show ?case by (simp add: ta_inv_def)
next
  case (command s e msgs c types res t)
  from dispatch.run_inv [OF laws command.IH command.hyps(2,3)] show ?case .
qed

lemma seq_step:
  fixes q :: u64
  assumes "q < 0xffffffff"
  shows "q < q + 1"
proof -
  have "1 + q \<noteq> 0"
  proof
    assume "1 + q = 0"
    then have "q = - 1" by (simp add: add_eq_0_iff)
    with assms show False by simp
  qed
  then have "unat (1 + q) = Suc (unat q)" by (rule unatSuc)
  then show ?thesis by (simp add: word_less_nat_alt add.commute)
qed

definition later :: "nat \<times> u64 \<Rightarrow> nat \<times> u64 \<Rightarrow> bool" where
  "later m n \<longleftrightarrow> fst m < fst n \<or> fst m = fst n \<and> snd m < snd n"

lemma ta_hist_counters:
  assumes laws: "platform_laws V P" and hist: "ta_hist V P s e msgs"
  shows "sorted_wrt later msgs \<and>
    list_all (\<lambda>m. fst m < e \<or> fst m = e \<and> snd m \<le> send_seq (sess s)) msgs"
  using hist
proof (induction rule: ta_hist.induct)
  case (command s e msgs c types res t)
  note inv = ta_hist_inv [OF laws command.hyps(1)]
  have post: "counter_post c res (sess s) (sess t)"
    using wp_run [OF wp_dispatch_counter [OF laws inv command.hyps(2)] command.hyps(3)] by simp
  have old: "list_all (\<lambda>m. fst m < Suc e \<or> fst m = Suc e \<and> snd m \<le> q) msgs" for q
    using command.IH by (auto simp: list_all_iff)
  consider (key) "c = CMD_HANDSHAKE_COMPLETE" "res = TEE_SUCCESS"
    | (msg) "c = CMD_READ_AND_PROTECT" "res = TEE_SUCCESS"
    | (other) "\<not> (c = CMD_HANDSHAKE_COMPLETE \<and> res = TEE_SUCCESS)" "\<not> (c = CMD_READ_AND_PROTECT \<and> res = TEE_SUCCESS)"
    by blast
  then show ?case
  proof cases
    case key
    with command.IH old show ?thesis by simp
  next
    case msg
    with post have q: "send_seq (sess s) < 0xffffffff" "send_seq (sess t) = send_seq (sess s) + 1"
      by (simp_all add: counter_post_def)
    from seq_step [OF q(1)] have lt: "send_seq (sess s) < send_seq (sess t)" by (simp add: q(2))
    have "later m (e, send_seq (sess t))" if "m \<in> set msgs" for m
      using command.IH lt that by (auto simp: list_all_iff later_def)
    then have "sorted_wrt later (msgs @ [(e, send_seq (sess t))])"
      using command.IH by (simp add: sorted_wrt_append)
    moreover have "list_all (\<lambda>m. fst m < e \<or> fst m = e \<and> snd m \<le> send_seq (sess t)) msgs"
      using command.IH lt by (auto simp: list_all_iff)
    ultimately show ?thesis using msg by simp
  next
    case other
    with post command.IH show ?thesis
      unfolding counter_post_def by (simp only: if_False simp_thms)
  qed
qed simp_all

end
