(* ===== verification/ServerBase.thy ===== *)
theory ServerBase
  imports Protocol Complex_Main
begin

text \<open>
  What the three parts of the management server that face the device share (CC_Server/server,
  Python): parsed JSON values, exceptions as values, and the record \<open>server_env\<close> of what the
  server calls outside the repository. A Python string is its UTF-8 bytes, a clock reading and a
  float are rationals, so NaN and the infinities are left out. \<open>device_pub\<close> and the like are the same bytes as on the device's side.
\<close>

section \<open>Values and exceptions\<close>

datatype py =
    PyNone | PyBool bool | PyInt int | PyFloat rat | PyStr bytes
  | PyList "py list" | PyDict "(bytes \<times> py) list"

text \<open>The truth value of \<open>x or y\<close> and \<open>if not x\<close>.\<close>

fun truthy :: "py \<Rightarrow> bool" where
  "truthy PyNone = False"
| "truthy (PyBool b) = b"
| "truthy (PyInt i) = (i \<noteq> 0)"
| "truthy (PyFloat r) = (r \<noteq> 0)"
| "truthy (PyStr s) = (s \<noteq> [])"
| "truthy (PyList xs) = (xs \<noteq> [])"
| "truthy (PyDict kvs) = (kvs \<noteq> [])"

text \<open>
  The exceptions the code raises or lets through. Only the text of \<open>AttestationError\<close> reaches the
  peer; the texts of the exceptions it quotes are left out of it here.
\<close>

datatype exn =
    AttestationError bytes | KeyError bytes | ValueError | TypeError | AttributeError | OverflowError | StructError | InvalidTag

fun and_then :: "exn + 'a \<Rightarrow> ('a \<Rightarrow> exn + 'b) \<Rightarrow> exn + 'b" where
  "and_then (Inl x) f = Inl x"
| "and_then (Inr a) f = f a"

lemma and_then_Inr: "and_then r f = Inr b \<longleftrightarrow> (\<exists>a. r = Inr a \<and> f a = Inr b)"
  by (cases r) simp_all

text \<open>\<open>raise\<close> unless the condition holds.\<close>

definition require :: "bool \<Rightarrow> exn \<Rightarrow> exn + unit" where
  "require ok x = (if ok then Inr () else Inl x)"

lemma require_Inr [simp]: "require ok x = Inr u \<longleftrightarrow> ok"
  by (simp add: require_def)

text \<open>A method of \<open>str\<close> or \<open>dict\<close> called on a value of another type.\<close>

fun as_str :: "py \<Rightarrow> exn + bytes" where
  "as_str (PyStr s) = Inr s"
| "as_str _ = Inl AttributeError"

fun as_dict :: "py \<Rightarrow> exn + (bytes \<times> py) list" where
  "as_dict (PyDict kvs) = Inr kvs"
| "as_dict _ = Inl AttributeError"

text \<open>\<open>d.get (k)\<close> and \<open>d[k]\<close>.\<close>

definition py_get :: "(bytes \<times> py) list \<Rightarrow> string \<Rightarrow> py \<Rightarrow> py" where
  "py_get kvs k d = (case map_of kvs (ascii k) of None \<Rightarrow> d | Some v \<Rightarrow> v)"

definition py_item :: "(bytes \<times> py) list \<Rightarrow> string \<Rightarrow> exn + py" where
  "py_item kvs k = (case map_of kvs (ascii k) of None \<Rightarrow> Inl (KeyError (ascii k)) | Some v \<Rightarrow> Inr v)"


section \<open>What the server calls\<close>

text \<open>\<open>load_pem_public_key\<close> raises, or gives a key that may not be an elliptic-curve one.\<close>

datatype pem_key = NotPem | OtherKey | EcKey bytes

record 'w server_env =
  \<comment> \<open>operating system\<close>
  v_urandom :: "nat \<Rightarrow> 'w \<Rightarrow> bytes \<times> 'w"
  v_time :: "'w \<Rightarrow> rat \<times> 'w"
  \<comment> \<open>the cryptography package and hashlib\<close>
  v_keygen :: "'w \<Rightarrow> (bytes \<times> bytes) \<times> 'w"
  v_sha256 :: "bytes \<Rightarrow> bytes"
  v_load_pem :: "bytes \<Rightarrow> pem_key"
  v_on_curve :: "bytes \<Rightarrow> bool"
  v_verify :: "bytes \<Rightarrow> bytes \<Rightarrow> nat \<Rightarrow> nat \<Rightarrow> bool"
  v_exchange :: "bytes \<Rightarrow> bytes \<Rightarrow> bytes"
  v_hkdf :: "bytes \<Rightarrow> bytes \<Rightarrow> bytes \<Rightarrow> nat \<Rightarrow> bytes"
  v_sign :: "bytes \<Rightarrow> bytes \<Rightarrow> 'w \<Rightarrow> (nat \<times> nat) \<times> 'w"
  v_decrypt :: "bytes \<Rightarrow> bytes \<Rightarrow> bytes \<Rightarrow> bytes \<Rightarrow> bytes option"
  \<comment> \<open>base64, json and the rendering of values as text or floats\<close>
  v_b64e :: "bytes \<Rightarrow> bytes"
  v_b64d :: "bytes \<Rightarrow> bytes option"
  v_loads :: "bytes \<Rightarrow> py option"
  v_repr :: "py \<Rightarrow> bytes"
  v_str :: "py \<Rightarrow> bytes"
  v_float :: "py \<Rightarrow> exn + rat"

text \<open>\<open>crypto.b64d\<close>: \<open>text.encode\<close> first, then the decoder.\<close>

definition b64d :: "'w server_env \<Rightarrow> py \<Rightarrow> exn + bytes" where
  "b64d E x = and_then (as_str x) (\<lambda>t. case v_b64d E t of None \<Rightarrow> Inl ValueError | Some b \<Rightarrow> Inr b)"

text \<open>\<open>str (x)\<close>\<close>

fun py_str :: "'w server_env \<Rightarrow> py \<Rightarrow> bytes" where
  "py_str E (PyStr s) = s"
| "py_str E x = v_str E x"

section \<open>Constants (constants.py)\<close>

definition ATTEST_NONCE_LEN :: nat where [simp]: "ATTEST_NONCE_LEN = 32"
definition AEAD_KEY_LEN :: nat where [simp]: "AEAD_KEY_LEN = 32"
definition DEVICE_SESSION_TTL_SECONDS :: rat where [simp]: "DEVICE_SESSION_TTL_SECONDS = 3600"
definition ATTEST_CHALLENGE_TTL_SECONDS :: rat where [simp]: "ATTEST_CHALLENGE_TTL_SECONDS = 30"
definition DEVICE_ECDH_PUBKEY_LEN :: nat where [simp]: "DEVICE_ECDH_PUBKEY_LEN = 65"
definition TA_IDENTITY_SIG_LEN :: nat where [simp]: "TA_IDENTITY_SIG_LEN = 64"
definition INFO_DEVICE_AEAD :: bytes where "INFO_DEVICE_AEAD = ascii ''CC-IOT-1 device-aead''"

lemma info_labels_agree: "INFO_DEVICE_AEAD = HKDF_INFO"
  by (simp add: INFO_DEVICE_AEAD_def HKDF_INFO_def)

section \<open>The registry (device_registry.py)\<close>

record device_record =
  ak_pub_pem :: bytes
  expected_pcr :: bytes
  pcr_bank :: bytes
  created_at :: rat
  ta_pub_b64 :: bytes

type_synonym registry = "bytes \<rightharpoonup> device_record"

text \<open>
  \<open>register\<close>: every pinned field is compared before a device counts as already registered; an
  error names the field that differs. The file is rewritten from the records after each change.
\<close>

datatype register_result = DeviceKeyMismatch string | Registered device_record bool

definition register :: "bytes \<Rightarrow> bytes \<Rightarrow> bytes \<Rightarrow> bytes \<Rightarrow> bytes \<Rightarrow> rat \<Rightarrow> registry \<Rightarrow> register_result \<times> registry" where
  "register device_id ak pcr bank ta now R = (case R device_id of
     Some existing \<Rightarrow>
       if ak_pub_pem existing \<noteq> ak then (DeviceKeyMismatch ''ak_pub_pem'', R)
       else if ta_pub_b64 existing \<noteq> ta then (DeviceKeyMismatch ''ta_pub_b64'', R)
       else (Registered existing False, R)
   | None \<Rightarrow>
       (let record = \<lparr>ak_pub_pem = ak, expected_pcr = pcr, pcr_bank = bank, created_at = now, ta_pub_b64 = ta\<rparr>
        in (Registered record True, R(device_id \<mapsto> record))))"

definition remove_device :: "bytes \<Rightarrow> registry \<Rightarrow> bool \<times> registry" where
  "remove_device device_id R = (if R device_id = None then (False, R) else (True, R(device_id := None)))"

definition clear_registry :: "registry \<Rightarrow> registry" where
  "clear_registry R = Map.empty"

text \<open>The identifiers registration admits: the regular expression, then the length in bytes.\<close>

definition id_char :: "u8 \<Rightarrow> bool" where
  "id_char b \<longleftrightarrow> 48 \<le> b \<and> b \<le> 57 \<or> 65 \<le> b \<and> b \<le> 90 \<or> 97 \<le> b \<and> b \<le> 122"

definition validate_device_id :: "bytes \<Rightarrow> bool" where
  "validate_device_id d \<longleftrightarrow> d \<noteq> [] \<and> id_char (hd d) \<and>
     list_all (\<lambda>b. id_char b \<or> b \<in> set (ascii ''._:-'')) (tl d) \<and> length (tl d) \<le> 62 \<and> length d \<le> 63"

text \<open>They are identifiers of the size the TA seals, without a NUL or a line break.\<close>

lemma validated_id:
  assumes "validate_device_id d"
  shows "0 < length d \<and> length d \<le> DEVICE_ID_MAX \<and> 0 \<notin> set d \<and> 10 \<notin> set d"
proof -
  have c: "id_char b \<or> b \<in> set (ascii ''._:-'') \<Longrightarrow> b \<noteq> 0 \<and> b \<noteq> 10" for b
    by (auto simp: id_char_def ascii_def)
  have "set d = insert (hd d) (set (tl d))" using assms by (cases d) (simp_all add: validate_device_id_def)
  with assms c show ?thesis
    unfolding validate_device_id_def list_all_iff by (metis insert_iff length_greater_0_conv DEVICE_ID_MAX_def)
qed

text \<open>
  Registration never replaces a record: what is enrolled stays as it is, and success means that
  the keys asked for are the ones enrolled.
\<close>

lemma register_keeps: "register d ak pcr bank ta now R = (r, R') \<Longrightarrow> R \<subseteq>\<^sub>m R'"
  by (auto simp: register_def map_le_def Let_def split: option.splits if_splits)

lemma register_pins:
  assumes "register d ak pcr bank ta now R = (Registered rec new, R')"
  shows "R' d = Some rec \<and> ak_pub_pem rec = ak \<and> ta_pub_b64 rec = ta \<and> new = (R d = None)"
  using assms by (auto simp: register_def Let_def split: option.splits if_splits)

lemma register_refuses:
  assumes "R d = Some rec" "ak_pub_pem rec \<noteq> ak \<or> ta_pub_b64 rec \<noteq> ta"
  shows "\<exists>f. register d ak pcr bank ta now R = (DeviceKeyMismatch f, R)"
  using assms by (auto simp: register_def)

end
