(* ===== verification/Verifier.thy ===== *)
theory Verifier
  imports ServerBase "HOL-Library.AList"
begin

text \<open>
  The verifier of the management server (CC_Server/server/attestation.py): parsing of a quote, a
  quote signature and PCR values, the challenge, the five checks on a response, derivation of the
  session key, and the sequence numbers of a session. Text outside ASCII is not treated
  specially: the classes of the regular expression and \<open>splitlines\<close> are those of ASCII.
\<close>

section \<open>Parsing the quote\<close>

text \<open>\<open>struct.unpack_from\<close> of a big-endian number of \<open>n\<close> bytes.\<close>

definition unpack_from :: "nat \<Rightarrow> bytes \<Rightarrow> nat \<Rightarrow> exn + nat" where
  "unpack_from n b off = (if off + n \<le> length b then Inr (be_val (sub off n b)) else Inl StructError)"

lemma unpack_from_Inr: "unpack_from n b off = Inr v \<longleftrightarrow> off + n \<le> length b \<and> v = be_val (sub off n b)"
  by (auto simp: unpack_from_def)

record attest =
  raw_body :: bytes
  extra_data :: bytes
  pcr_digest :: bytes

definition TPM_GENERATED_VALUE :: nat where [simp]: "TPM_GENERATED_VALUE = 0xFF544347"
definition TPM_ST_ATTEST_QUOTE :: nat where [simp]: "TPM_ST_ATTEST_QUOTE = 0x8018"
definition TPM_ALG_ECDSA :: nat where [simp]: "TPM_ALG_ECDSA = 0x0018"

text \<open>The loop over the PCR selections: the offset behind \<open>n\<close> of them.\<close>

fun skip_selections :: "bytes \<Rightarrow> nat \<Rightarrow> nat \<Rightarrow> exn + nat" where
  "skip_selections body off 0 = Inr off"
| "skip_selections body off (Suc n) =
     and_then (unpack_from 1 body (off + 2)) (\<lambda>size_of_select. skip_selections body (off + 3 + size_of_select) n)"

definition parse_tpms_attest :: "bytes \<Rightarrow> exn + attest" where
  "parse_tpms_attest raw =
     and_then (require (2 \<le> length raw) (AttestationError (ascii ''quote too short''))) (\<lambda>_.
     and_then (unpack_from 2 raw 0) (\<lambda>body_len.
     let body = sub 2 body_len raw in
     and_then (require (length body = body_len) (AttestationError (ascii ''truncated quote''))) (\<lambda>_.
     and_then (unpack_from 4 body 0) (\<lambda>magic.
     and_then (require (magic = TPM_GENERATED_VALUE)
       (AttestationError (ascii ''not a TPM-generated structure (bad magic)''))) (\<lambda>_.
     and_then (unpack_from 2 body 4) (\<lambda>attest_type.
     and_then (require (attest_type = TPM_ST_ATTEST_QUOTE)
       (AttestationError (ascii ''not a QUOTE attestation structure''))) (\<lambda>_.
     and_then (unpack_from 2 body 6) (\<lambda>name_len.
     let off = 8 + name_len in
     and_then (unpack_from 2 body off) (\<lambda>extra_len.
     let off = off + 2; extra = sub off extra_len body; off = off + extra_len + 17 + 8 in
     and_then (unpack_from 4 body off) (\<lambda>pcr_sel_count.
     and_then (skip_selections body (off + 4) pcr_sel_count) (\<lambda>off.
     and_then (unpack_from 2 body off) (\<lambda>pcr_digest_len.
     Inr \<lparr>raw_body = body, extra_data = extra, pcr_digest = sub (off + 2) pcr_digest_len body\<rparr>))))))))))))"

definition parse_tpmt_signature_ecdsa :: "bytes \<Rightarrow> exn + nat \<times> nat" where
  "parse_tpmt_signature_ecdsa raw =
     and_then (require (4 \<le> length raw) (AttestationError (ascii ''signature too short''))) (\<lambda>_.
     and_then (unpack_from 2 raw 0) (\<lambda>sig_alg.
     and_then (require (sig_alg = TPM_ALG_ECDSA) (AttestationError (ascii ''expected an ECDSA signature''))) (\<lambda>_.
     and_then (unpack_from 2 raw 4) (\<lambda>r_len.
     let off = 6 + r_len in
     and_then (unpack_from 2 raw off) (\<lambda>s_len.
     Inr (be_val (sub 6 r_len raw), be_val (sub (off + 2) s_len raw)))))))"

section \<open>PCR values\<close>

definition is_ws :: "u8 \<Rightarrow> bool" where
  "is_ws b \<longleftrightarrow> b = 32 \<or> 9 \<le> b \<and> b \<le> 13 \<or> 28 \<le> b \<and> b \<le> 31"

text \<open>A line break of \<open>splitlines\<close>; CR LF counts as one, which only adds an empty line here.\<close>

definition is_break :: "u8 \<Rightarrow> bool" where
  "is_break b \<longleftrightarrow> 10 \<le> b \<and> b \<le> 13 \<or> 28 \<le> b \<and> b \<le> 30"

fun split_at :: "(u8 \<Rightarrow> bool) \<Rightarrow> bytes \<Rightarrow> bytes list" where
  "split_at p [] = [[]]"
| "split_at p (b # bs) = (if p b then [] # split_at p bs else
     (case split_at p bs of [] \<Rightarrow> [[b]] | l # ls \<Rightarrow> (b # l) # ls))"

fun hex_value :: "u8 \<Rightarrow> nat option" where
  "hex_value b = (if 48 \<le> b \<and> b \<le> 57 then Some (unat b - 48)
     else if 65 \<le> b \<and> b \<le> 70 then Some (unat b - 55)
     else if 97 \<le> b \<and> b \<le> 102 then Some (unat b - 87) else None)"

declare hex_value.simps [simp del]

text \<open>\<open>bytes.fromhex\<close>, for a string of hexadecimal digits: an odd one out is an error.\<close>

fun fromhex :: "bytes \<Rightarrow> bytes option" where
  "fromhex [] = Some []"
| "fromhex [a] = None"
| "fromhex (a # b # bs) = (case (hex_value a, hex_value b, fromhex bs) of
     (Some h, Some l, Some r) \<Rightarrow> Some (of_nat (16 * h + l) # r) | _ \<Rightarrow> None)"

text \<open>The regular expression of a value line: the index and the digits behind 0x.\<close>

definition pcr_line :: "bytes \<Rightarrow> (nat \<times> bytes) option" where
  "pcr_line l =
     (let l = dropWhile is_ws l; n = takeWhile is_digit l; l = dropWhile is_ws (dropWhile is_digit l) in
      if n = [] \<or> take 1 l \<noteq> [58] then None
      else let l = dropWhile is_ws (drop 1 l) in
        if take 2 l \<noteq> [48, 120] then None
        else let h = takeWhile (\<lambda>b. hex_value b \<noteq> None) (drop 2 l);
               rest = dropWhile (\<lambda>b. hex_value b \<noteq> None) (drop 2 l) in
          if h = [] \<or> \<not> list_all is_ws rest then None else Some (nat (digits_val n), h))"

fun pcr_values :: "bytes list \<Rightarrow> (nat \<times> bytes) list \<Rightarrow> exn + (nat \<times> bytes) list" where
  "pcr_values [] vs = Inr vs"
| "pcr_values (l # ls) vs = (case pcr_line l of
     None \<Rightarrow> pcr_values ls vs
   | Some (i, h) \<Rightarrow> (case fromhex h of None \<Rightarrow> Inl ValueError | Some b \<Rightarrow> pcr_values ls (AList.update i b vs)))"

definition parse_pcr_text :: "bytes \<Rightarrow> exn + (nat \<times> bytes) list" where
  "parse_pcr_text t = and_then (pcr_values (split_at is_break t) []) (\<lambda>vs.
     and_then (require (vs \<noteq> []) (AttestationError (ascii ''could not parse any PCR values''))) (\<lambda>_. Inr vs))"

definition recompute_pcr_digest :: "'w server_env \<Rightarrow> bytes \<Rightarrow> exn + bytes" where
  "recompute_pcr_digest E t = and_then (parse_pcr_text t) (\<lambda>vs.
     Inr (v_sha256 E (concat (map (\<lambda>i. the (map_of vs i)) (sort (map fst vs))))))"

section \<open>State\<close>

record pending_challenge =
  pc_nonce :: bytes
  pc_priv :: bytes
  pc_pub :: bytes
  pc_issued :: rat

record device_session =
  ds_key :: bytes
  ds_expires :: rat
  ds_last_seq :: int

text \<open>
  One process serves every connection; \<open>sv_w\<close> is the outside. \<open>sv_identity\<close> is the signing key
  the process loaded at its start, with its public point.
\<close>

record 'w verifier =
  sv_w :: 'w
  sv_registry :: registry
  sv_pending :: "bytes \<rightharpoonup> pending_challenge"
  sv_sessions :: "bytes \<rightharpoonup> device_session"
  sv_identity :: "bytes \<times> bytes"

definition srv_op :: "('w \<Rightarrow> 'a \<times> 'w) \<Rightarrow> (('w, 'm) verifier_scheme, 'a) state" where
  "srv_op f = State (\<lambda>s. case f (sv_w s) of (a, w) \<Rightarrow> (a, s\<lparr>sv_w := w\<rparr>))"

lemma run_srv_op [simp]: "run_state (srv_op f) s = (fst (f (sv_w s)), s\<lparr>sv_w := snd (f (sv_w s))\<rparr>)"
  by (simp add: srv_op_def case_prod_beta)

lemma wp_srv_op [simp, wp_simps]: "wp (srv_op f) Q s = Q (fst (f (sv_w s))) (s\<lparr>sv_w := snd (f (sv_w s))\<rparr>)"
  by (simp add: wp_def)

section \<open>Challenge\<close>

definition not_registered :: "'w server_env \<Rightarrow> bytes \<Rightarrow> exn" where
  "not_registered E device_id = AttestationError (ascii ''device '' @ v_repr E (PyStr device_id) @ ascii '' is not registered'')"

definition issue_challenge :: "'w server_env \<Rightarrow> bytes \<Rightarrow> (('w, 'm) verifier_scheme, exn + (bytes \<times> py) list) state" where
  "issue_challenge E device_id = do {
     R \<leftarrow> gets sv_registry;
     if R device_id = None then State_Monad.return (Inl (not_registered E device_id))
     else do {
       nonce \<leftarrow> srv_op (v_urandom E ATTEST_NONCE_LEN);
       (priv, pub) \<leftarrow> srv_op (v_keygen E);
       now \<leftarrow> srv_op (v_time E);
       modify (\<lambda>s. s\<lparr>sv_pending := (sv_pending s)
         (device_id \<mapsto> \<lparr>pc_nonce = nonce, pc_priv = priv, pc_pub = pub, pc_issued = now\<rparr>)\<rparr>);
       identity \<leftarrow> gets sv_identity;
       State_Monad.return (Inr
         [(ascii ''nonce'', PyStr (v_b64e E nonce)), (ascii ''server_ecdh_pub'', PyStr (v_b64e E pub)),
          (ascii ''server_identity_pub'', PyStr (v_b64e E (snd identity)))]) } }"

section \<open>The response\<close>

text \<open>The challenge is taken, whatever comes of the response.\<close>

definition take_challenge :: "'w server_env \<Rightarrow> bytes \<Rightarrow> (('w, 'm) verifier_scheme, exn + device_record \<times> pending_challenge) state" where
  "take_challenge E device_id = do {
     R \<leftarrow> gets sv_registry;
     case R device_id of
       None \<Rightarrow> State_Monad.return (Inl (not_registered E device_id))
     | Some record \<Rightarrow> do {
         pending \<leftarrow> gets (\<lambda>s. sv_pending s device_id);
         modify (\<lambda>s. s\<lparr>sv_pending := (sv_pending s)(device_id := None)\<rparr>);
         case pending of
           None \<Rightarrow> State_Monad.return (Inl (AttestationError
             (ascii ''no pending challenge for '' @ v_repr E (PyStr device_id))))
         | Some p \<Rightarrow> do {
             now \<leftarrow> srv_op (v_time E);
             State_Monad.return
               (if now - pc_issued p > ATTEST_CHALLENGE_TTL_SECONDS
                then Inl (AttestationError (ascii ''attestation challenge expired'')) else Inr (record, p)) } } }"

text \<open>The fields of the message, as they came out of the parser.\<close>

record response =
  rs_device_ecdh_pub :: py
  rs_quote :: py
  rs_signature :: py
  rs_pcr_values :: py
  rs_ta_sig :: py

text \<open>Each decoding error of the four base64 fields is an \<open>AttestationError\<close>.\<close>

fun decode_fields :: "(exn + bytes) list \<Rightarrow> exn + bytes list" where
  "decode_fields [] = Inr []"
| "decode_fields (Inl x # rs) = Inl (AttestationError (ascii ''malformed base64 in attest_response''))"
| "decode_fields (Inr b # rs) = and_then (decode_fields rs) (\<lambda>bs. Inr (b # bs))"

definition compute_transcript_hash :: "'w server_env \<Rightarrow> bytes \<Rightarrow> bytes \<Rightarrow> bytes \<Rightarrow> bytes" where
  "compute_transcript_hash E nonce server_pub device_pub = v_sha256 E (nonce @ server_pub @ device_pub)"

definition build_ta_identity_preimage :: "bytes \<Rightarrow> bytes \<Rightarrow> bytes \<Rightarrow> bytes \<Rightarrow> bytes" where
  "build_ta_identity_preimage device_id nonce server_pub device_pub =
     ascii ''CC-IOT-1 ta-identity'' @ nonce @ server_pub @ device_pub @ device_id"

text \<open>Checks a to d: the quote is signed by the enrolled AK, about this session and the enrolled PCRs.\<close>

definition check_quote :: "'w server_env \<Rightarrow> device_record \<Rightarrow> pending_challenge \<Rightarrow> bytes \<Rightarrow> bytes \<Rightarrow> bytes \<Rightarrow> py \<Rightarrow> exn + unit" where
  "check_quote E record pending device_ecdh_pub quote_raw sig_raw pcr_text =
     and_then (parse_tpms_attest quote_raw) (\<lambda>attest.
     and_then (parse_tpmt_signature_ecdsa sig_raw) (\<lambda>(r, s).
     and_then (and_then (as_str pcr_text) (recompute_pcr_digest E)) (\<lambda>digest.
     and_then (require (digest = pcr_digest attest)
       (AttestationError (ascii ''reported PCR values don't match the signed quote''))) (\<lambda>_.
     and_then (case v_load_pem E (ak_pub_pem record) of
         NotPem \<Rightarrow> Inl ValueError
       | OtherKey \<Rightarrow> Inl (AttestationError (ascii ''registered AK is not an EC public key''))
       | EcKey ak \<Rightarrow> require (v_verify E ak (raw_body attest) r s)
           (AttestationError (ascii ''quote signature verification failed''))) (\<lambda>_.
     and_then (require (extra_data attest = compute_transcript_hash E (pc_nonce pending) (pc_pub pending) device_ecdh_pub)
       (AttestationError (ascii ''quote does not match this session's transcript''))) (\<lambda>_.
     and_then (recompute_pcr_digest E (expected_pcr record)) (\<lambda>expected.
     require (digest = expected)
       (AttestationError (ascii ''PCR values do not match the registered baseline'')))))))))"

text \<open>Check e: the TA that holds the enrolled identity key signed this session's transcript.\<close>

definition check_ta :: "'w server_env \<Rightarrow> device_record \<Rightarrow> pending_challenge \<Rightarrow> bytes \<Rightarrow> bytes \<Rightarrow> bytes \<Rightarrow> exn + unit" where
  "check_ta E record pending device_id device_ecdh_pub ta_sig =
     and_then (require (ta_pub_b64 record \<noteq> [])
       (AttestationError (ascii ''device has no enrolled TA identity key''))) (\<lambda>_.
     and_then (case v_b64d E (ta_pub_b64 record) of
         None \<Rightarrow> Inl (AttestationError (ascii ''registered TA identity key is unusable''))
       | Some pub \<Rightarrow> if v_on_curve E pub then Inr pub
           else Inl (AttestationError (ascii ''registered TA identity key is unusable''))) (\<lambda>ta_pub.
     require (v_verify E ta_pub
         (build_ta_identity_preimage device_id (pc_nonce pending) (pc_pub pending) device_ecdh_pub)
         (be_val (take 32 ta_sig)) (be_val (drop 32 ta_sig)))
       (AttestationError (ascii ''TA identity verification failed''))))"

definition check_attest_response ::
    "'w server_env \<Rightarrow> device_record \<Rightarrow> pending_challenge \<Rightarrow> bytes \<Rightarrow> response \<Rightarrow> exn + bytes" where
  "check_attest_response E record pending device_id msg =
     and_then (decode_fields [b64d E (rs_device_ecdh_pub msg), b64d E (rs_quote msg), b64d E (rs_signature msg),
       b64d E (rs_ta_sig msg)]) (\<lambda>fields.
     let device_ecdh_pub = fields ! 0; quote_raw = fields ! 1; sig_raw = fields ! 2; ta_sig = fields ! 3 in
     and_then (require (length device_ecdh_pub = DEVICE_ECDH_PUBKEY_LEN)
       (AttestationError (ascii ''bad device_ecdh_pub length''))) (\<lambda>_.
     and_then (require (length ta_sig = TA_IDENTITY_SIG_LEN) (AttestationError (ascii ''bad ta_sig length''))) (\<lambda>_.
     and_then (check_quote E record pending device_ecdh_pub quote_raw sig_raw (rs_pcr_values msg)) (\<lambda>_.
     and_then (check_ta E record pending device_id device_ecdh_pub ta_sig) (\<lambda>_.
     Inr device_ecdh_pub)))))"

text \<open>Derivation: a peer point off the curve raises before anything is stored.\<close>

definition p256_shared :: "'w server_env \<Rightarrow> bytes \<Rightarrow> bytes \<Rightarrow> exn + bytes" where
  "p256_shared E priv peer = (if v_on_curve E peer then Inr (v_exchange E priv peer) else Inl ValueError)"

definition sign_server_identity_raw :: "'w server_env \<Rightarrow> bytes \<Rightarrow> bytes \<Rightarrow> (('w, 'm) verifier_scheme, bytes) state" where
  "sign_server_identity_raw E priv message = do {
     (r, s) \<leftarrow> srv_op (v_sign E priv message);
     State_Monad.return (be_bytes 32 (of_nat r :: 256 word) @ be_bytes 32 (of_nat s :: 256 word)) }"

definition store_session :: "'w server_env \<Rightarrow> bytes \<Rightarrow> bytes \<Rightarrow> (('w, 'm) verifier_scheme, unit) state" where
  "store_session E device_id key = do {
     now \<leftarrow> srv_op (v_time E);
     modify (\<lambda>s. s\<lparr>sv_sessions := (sv_sessions s)
       (device_id \<mapsto> \<lparr>ds_key = key, ds_expires = now + DEVICE_SESSION_TTL_SECONDS, ds_last_seq = 0\<rparr>)\<rparr>) }"

definition verify_and_derive :: "'w server_env \<Rightarrow> bytes \<Rightarrow> response \<Rightarrow> (('w, 'm) verifier_scheme, exn + bytes) state" where
  "verify_and_derive E device_id msg = do {
     taken \<leftarrow> take_challenge E device_id;
     case taken of
       Inl x \<Rightarrow> State_Monad.return (Inl x)
     | Inr (record, pending) \<Rightarrow>
         (case and_then (check_attest_response E record pending device_id msg) (\<lambda>device_ecdh_pub.
             and_then (p256_shared E (pc_priv pending) device_ecdh_pub) (\<lambda>shared. Inr (device_ecdh_pub, shared))) of
           Inl x \<Rightarrow> State_Monad.return (Inl x)
         | Inr (device_ecdh_pub, shared) \<Rightarrow> do {
             let key = v_hkdf E shared (pc_nonce pending) INFO_DEVICE_AEAD AEAD_KEY_LEN;
             store_session E device_id key;
             identity \<leftarrow> gets sv_identity;
             sig \<leftarrow> sign_server_identity_raw E (fst identity)
               (ascii ''CC-IOT-1 server-identity'' @ pc_nonce pending @ pc_pub pending @ device_ecdh_pub);
             State_Monad.return (Inr sig) }) }"

section \<open>Sessions\<close>

definition session_key_of :: "'w server_env \<Rightarrow> bytes \<Rightarrow> (('w, 'm) verifier_scheme, bytes option) state" where
  "session_key_of E device_id = do {
     sess \<leftarrow> gets (\<lambda>s. sv_sessions s device_id);
     case sess of
       None \<Rightarrow> State_Monad.return None
     | Some d \<Rightarrow> do {
         now \<leftarrow> srv_op (v_time E);
         if ds_expires d < now then do {
           modify (\<lambda>s. s\<lparr>sv_sessions := (sv_sessions s)(device_id := None)\<rparr>);
           State_Monad.return None }
         else State_Monad.return (Some (ds_key d)) } }"

definition check_and_advance_seq :: "'w server_env \<Rightarrow> bytes \<Rightarrow> py \<Rightarrow> (('w, 'm) verifier_scheme, bool) state" where
  "check_and_advance_seq E device_id seq = (case seq of
     PyInt n \<Rightarrow>
       if n \<le> 0 \<or> n > 0xFFFFFFFF then State_Monad.return False
       else do {
         sess \<leftarrow> gets (\<lambda>s. sv_sessions s device_id);
         case sess of
           None \<Rightarrow> State_Monad.return False
         | Some d \<Rightarrow> do {
             now \<leftarrow> srv_op (v_time E);
             if ds_expires d < now then State_Monad.return False
             else if n \<le> ds_last_seq d then State_Monad.return False
             else do {
               modify (\<lambda>s. s\<lparr>sv_sessions := (sv_sessions s)(device_id \<mapsto> d\<lparr>ds_last_seq := n\<rparr>)\<rparr>);
               State_Monad.return True } } }
   | _ \<Rightarrow> State_Monad.return False)"

section \<open>What a response has to prove\<close>

lemma require_Inr_and_then: "and_then (require b x) f = Inr v \<longleftrightarrow> b \<and> f () = Inr v"
  by (simp add: require_def)

lemma decode_fields_Inr: "decode_fields rs = Inr bs \<longleftrightarrow> rs = map Inr bs"
proof (induction rs arbitrary: bs rule: decode_fields.induct)
  case (3 b rs)
  then show ?case by (cases bs) (auto simp: and_then_Inr)
qed auto

text \<open>Checks a to d hold of a quote, with the AK and the PCR text of the record.\<close>

definition quote_proves :: "'w server_env \<Rightarrow> device_record \<Rightarrow> pending_challenge \<Rightarrow> bytes \<Rightarrow> bytes \<Rightarrow> bytes \<Rightarrow> py \<Rightarrow> bool" where
  "quote_proves E record pending device_pub quote_raw sig_raw pcr_text \<longleftrightarrow> (\<exists>a r s t ak.
     parse_tpms_attest quote_raw = Inr a \<and> parse_tpmt_signature_ecdsa sig_raw = Inr (r, s) \<and>
     pcr_text = PyStr t \<and> recompute_pcr_digest E t = Inr (pcr_digest a) \<and>
     v_load_pem E (ak_pub_pem record) = EcKey ak \<and> v_verify E ak (raw_body a) r s \<and>
     extra_data a = v_sha256 E (transcript_preimage (pc_nonce pending) (pc_pub pending) device_pub) \<and>
     recompute_pcr_digest E (expected_pcr record) = Inr (pcr_digest a))"

text \<open>Check e.\<close>

definition ta_proves :: "'w server_env \<Rightarrow> device_record \<Rightarrow> pending_challenge \<Rightarrow> bytes \<Rightarrow> bytes \<Rightarrow> bytes \<Rightarrow> bool" where
  "ta_proves E record pending device_id device_pub ta_sig \<longleftrightarrow> ta_pub_b64 record \<noteq> [] \<and>
     (\<exists>pub. v_b64d E (ta_pub_b64 record) = Some pub \<and> v_on_curve E pub \<and>
        v_verify E pub (ta_identity_preimage device_id (pc_nonce pending) (pc_pub pending) device_pub)
          (be_val (take 32 ta_sig)) (be_val (drop 32 ta_sig)))"

definition response_proves :: "'w server_env \<Rightarrow> device_record \<Rightarrow> pending_challenge \<Rightarrow> bytes \<Rightarrow> response \<Rightarrow> bytes \<Rightarrow> bool" where
  "response_proves E record pending device_id msg device_pub \<longleftrightarrow> (\<exists>quote_raw sig_raw ta_sig.
     b64d E (rs_device_ecdh_pub msg) = Inr device_pub \<and> b64d E (rs_quote msg) = Inr quote_raw \<and>
     b64d E (rs_signature msg) = Inr sig_raw \<and> b64d E (rs_ta_sig msg) = Inr ta_sig \<and>
     length device_pub = 65 \<and> length ta_sig = 64 \<and>
     quote_proves E record pending device_pub quote_raw sig_raw (rs_pcr_values msg) \<and>
     ta_proves E record pending device_id device_pub ta_sig)"

lemma as_str_Inr: "as_str x = Inr t \<longleftrightarrow> x = PyStr t"
  by (cases x) auto

lemma check_quote_iff:
  "check_quote E record pending device_pub q sg pcr = Inr () \<longleftrightarrow> quote_proves E record pending device_pub q sg pcr"
proof -
  have ak: "(case v_load_pem E pem of NotPem \<Rightarrow> Inl ValueError | OtherKey \<Rightarrow> Inl x | EcKey k \<Rightarrow> require (P k) y) = Inr u \<longleftrightarrow>
      (\<exists>k. v_load_pem E pem = EcKey k \<and> P k)" for pem x y P and u :: unit
    by (cases "v_load_pem E pem") auto
  show ?thesis
    unfolding check_quote_def quote_proves_def
    by (auto simp: and_then_Inr as_str_Inr ak compute_transcript_hash_def transcript_preimage_def)
qed

lemma check_ta_iff:
  "check_ta E record pending device_id device_pub sg = Inr () \<longleftrightarrow> ta_proves E record pending device_id device_pub sg"
proof -
  have key: "(case v_b64d E k of None \<Rightarrow> Inl x | Some p \<Rightarrow> if v_on_curve E p then Inr p else Inl x) = Inr q \<longleftrightarrow>
      v_b64d E k = Some q \<and> v_on_curve E q" for k x q
    by (auto split: option.splits)
  show ?thesis
    unfolding check_ta_def ta_proves_def
    by (auto simp: and_then_Inr key build_ta_identity_preimage_def ta_identity_preimage_def TA_IDENTITY_LABEL_def)
qed

lemma check_attest_response_iff:
  "check_attest_response E record pending device_id msg = Inr device_pub \<longleftrightarrow>
   response_proves E record pending device_id msg device_pub"
proof -
  have four: "decode_fields [a, b, c, d] = Inr fs \<longleftrightarrow>
      (\<exists>x y z w. a = Inr x \<and> b = Inr y \<and> c = Inr z \<and> d = Inr w \<and> fs = [x, y, z, w])" for a b c d fs
    by (auto simp: decode_fields_Inr map_eq_Cons_conv eq_commute [of _ "map _ _"])
  show ?thesis
    unfolding check_attest_response_def response_proves_def Let_def
    by (auto simp: and_then_Inr four check_quote_iff check_ta_iff)
qed

text \<open>
  The effect of a response: the challenge is gone; the sessions change only by the one a proven
  response opens, at sequence number 0.
\<close>

definition opens_session :: "'w server_env \<Rightarrow> bytes \<Rightarrow> response \<Rightarrow> ('w, 'm) verifier_scheme \<Rightarrow> bytes \<Rightarrow> ('w, 'm) verifier_scheme \<Rightarrow> bool" where
  "opens_session E device_id msg s sig t \<longleftrightarrow> (\<exists>record p device_pub w r q w'.
     sv_registry s device_id = Some record \<and> sv_pending s device_id = Some p \<and>
     fst (v_time E (sv_w s)) - pc_issued p \<le> 30 \<and>
     response_proves E record p device_id msg device_pub \<and> v_on_curve E device_pub \<and>
     sv_sessions t = (sv_sessions s)(device_id \<mapsto>
       \<lparr>ds_key = v_hkdf E (v_exchange E (pc_priv p) device_pub) (pc_nonce p) HKDF_INFO 32,
        ds_expires = fst (v_time E (snd (v_time E (sv_w s)))) + 3600, ds_last_seq = 0\<rparr>) \<and>
     v_sign E (fst (sv_identity s)) (server_identity_preimage (pc_nonce p) (pc_pub p) device_pub) w = ((r, q), w') \<and>
     sig = be_bytes 32 (of_nat r :: 256 word) @ be_bytes 32 (of_nat q :: 256 word))"

lemma take_challenge_Inr:
  assumes "run_state (take_challenge E device_id) s = (Inr (record, p), t)"
  shows "sv_registry s device_id = Some record \<and> sv_pending s device_id = Some p \<and>
    fst (v_time E (sv_w s)) - pc_issued p \<le> 30 \<and>
    t = s\<lparr>sv_pending := (sv_pending s)(device_id := None), sv_w := snd (v_time E (sv_w s))\<rparr>"
  using assms by (auto simp: take_challenge_def split: option.splits if_splits)

lemma take_challenge_frame:
  assumes "run_state (take_challenge E device_id) s = (res, t)"
  shows "sv_registry t = sv_registry s \<and> sv_identity t = sv_identity s \<and> sv_sessions t = sv_sessions s \<and>
    sv_pending t = (if sv_registry s device_id = None then sv_pending s else (sv_pending s)(device_id := None))"
  using assms by (auto simp: take_challenge_def split: option.splits)

lemma store_session_run:
  "run_state (store_session E device_id key) s = ((), s\<lparr>sv_w := snd (v_time E (sv_w s)), sv_sessions := (sv_sessions s)
     (device_id \<mapsto> \<lparr>ds_key = key, ds_expires = fst (v_time E (sv_w s)) + 3600, ds_last_seq = 0\<rparr>)\<rparr>)"
  by (simp add: store_session_def)

lemma sign_server_identity_run:
  assumes "v_sign E priv m (sv_w s) = ((r, q), w)"
  shows "run_state (sign_server_identity_raw E priv m) s =
    (be_bytes 32 (of_nat r :: 256 word) @ be_bytes 32 (of_nat q :: 256 word), s\<lparr>sv_w := w\<rparr>)"
  using assms by (simp add: sign_server_identity_raw_def)

lemma verify_and_derive_spec:
  assumes run: "run_state (verify_and_derive E device_id msg) s = (res, t)"
  shows "(sv_registry t = sv_registry s \<and> sv_identity t = sv_identity s \<and>
      sv_pending t = (if sv_registry s device_id = None then sv_pending s else (sv_pending s)(device_id := None))) \<and>
    (case res of Inl x \<Rightarrow> sv_sessions t = sv_sessions s | Inr sig \<Rightarrow> opens_session E device_id msg s sig t)"
proof -
  obtain taken u where take: "run_state (take_challenge E device_id) s = (taken, u)" by (metis prod.exhaust)
  note keep = take_challenge_frame [OF take]
  show ?thesis
  proof (cases taken)
    case (Inl x)
    with run take keep show ?thesis by (auto simp: verify_and_derive_def)
  next
    case (Inr rp)
    obtain rec p where rp: "rp = (rec, p)" by (cases rp)
    note got = take_challenge_Inr [OF take [unfolded Inr rp]]
    let ?checks = "and_then (check_attest_response E rec p device_id msg) (\<lambda>device_ecdh_pub.
        and_then (p256_shared E (pc_priv p) device_ecdh_pub) (\<lambda>shared. Inr (device_ecdh_pub, shared)))"
    show ?thesis
    proof (cases ?checks)
      case (Inl x)
      with run take Inr rp keep show ?thesis by (auto simp: verify_and_derive_def)
    next
      case ok: (Inr ps)
      obtain pub shared where ps: "ps = (pub, shared)" by (cases ps)
      from ok ps have pr: "response_proves E rec p device_id msg pub"
        and shared: "v_on_curve E pub" "shared = v_exchange E (pc_priv p) pub"
        by (auto simp: and_then_Inr check_attest_response_iff p256_shared_def split: if_splits)
      let ?w = "snd (v_time E (sv_w u))"
      let ?m = "server_identity_preimage (pc_nonce p) (pc_pub p) pub"
      obtain r q w where sign: "v_sign E (fst (sv_identity s)) ?m ?w = ((r, q), w)" by (metis prod.exhaust)
      have eff: "res = Inr (be_bytes 32 (of_nat r :: 256 word) @ be_bytes 32 (of_nat q :: 256 word)) \<and>
        t = u\<lparr>sv_w := w, sv_sessions := (sv_sessions u)(device_id \<mapsto>
          \<lparr>ds_key = v_hkdf E shared (pc_nonce p) HKDF_INFO 32, ds_expires = fst (v_time E (sv_w u)) + 3600,
           ds_last_seq = 0\<rparr>)\<rparr>"
        using run take Inr rp ok ps keep sign
        by (auto simp: verify_and_derive_def Let_def store_session_run sign_server_identity_raw_def info_labels_agree
            server_identity_preimage_def SERVER_IDENTITY_LABEL_def)
      let ?sig = "be_bytes 32 (of_nat r :: 256 word) @ be_bytes 32 (of_nat q :: 256 word)"
      have "opens_session E device_id msg s ?sig t"
        unfolding opens_session_def
        by (rule exI [of _ rec], rule exI [of _ p], rule exI [of _ pub], rule exI [of _ ?w], rule exI [of _ r],
            rule exI [of _ q], rule exI [of _ w]) (use eff got keep pr shared sign in auto)
      with eff keep show ?thesis by auto
    qed
  qed
qed

text \<open>A response that proves everything is accepted.\<close>

lemma verify_and_derive_accepts:
  assumes "sv_registry s device_id = Some record" "sv_pending s device_id = Some p"
    and "fst (v_time E (sv_w s)) - pc_issued p \<le> 30"
    and "response_proves E record p device_id msg device_pub" "v_on_curve E device_pub"
  shows "\<exists>sig t. run_state (verify_and_derive E device_id msg) s = (Inr sig, t)"
  using assms(1-3,5) assms(4) [folded check_attest_response_iff]
  by (simp add: verify_and_derive_def take_challenge_def p256_shared_def store_session_def
      sign_server_identity_raw_def Let_def case_prod_beta)

end
