(* ===== verification/ServerLink.thy ===== *)
theory ServerLink
  imports Verifier
begin

text \<open>
  The server's end of the connection to a device (CC_Server/server/device_link/attested_network.py):
  one line in, at most one line out, over the verifier and the buffers all connections share.
  \<open>_on_data\<close> is split where other connections can run, at the two locked accesses to the session.
  An exception that no handler catches ends the connection. The lines of a connection are those that
  are not blank, without the white space around them.
\<close>

section \<open>State\<close>

record sample =
  sm_ts :: rat
  sm_value :: rat
  sm_sensor :: bytes
  sm_unit :: bytes

text \<open>\<open>vd_intact\<close> is the integrity field, ok or fail.\<close>

record verdict =
  vd_attested :: bool
  vd_intact :: bool
  vd_note :: bytes
  vd_last_seen :: rat

record 'w device_link = "'w verifier" +
  sl_buf :: "bytes \<Rightarrow> sample list"
  sl_verdict :: "bytes \<rightharpoonup> verdict"

definition MAX_BUFFER :: nat where [simp]: "MAX_BUFFER = 100000"

text \<open>\<open>deque.extend\<close> with \<open>maxlen\<close>: the oldest entries make room.\<close>

definition deque_extend :: "sample list \<Rightarrow> sample list \<Rightarrow> sample list" where
  "deque_extend xs ys = drop (length (xs @ ys) - MAX_BUFFER) (xs @ ys)"

definition set_verdict :: "bytes \<Rightarrow> bool \<Rightarrow> bool \<Rightarrow> string \<Rightarrow> rat \<Rightarrow> ('w device_link, unit) state" where
  "set_verdict d attested intact note now = modify (\<lambda>s. s\<lparr>sl_verdict := (sl_verdict s)
     (d \<mapsto> \<lparr>vd_attested = attested, vd_intact = intact, vd_note = ascii note, vd_last_seen = now\<rparr>)\<rparr>)"

section \<open>A data message\<close>

text \<open>Up to the end of the first locked access: the time and the key of the session, if there is one.\<close>

definition on_data_begin :: "'w server_env \<Rightarrow> bytes \<Rightarrow> ('w device_link, rat \<times> bytes option) state" where
  "on_data_begin E d = do {
     now \<leftarrow> srv_op (v_time E);
     key \<leftarrow> session_key_of E d;
     (if key = None then set_verdict d False False ''no valid attested session - attest first'' now
      else State_Monad.return ());
     State_Monad.return (now, key) }"

text \<open>Decryption: no state is involved.\<close>

definition on_data_open :: "'w server_env \<Rightarrow> bytes \<Rightarrow> (bytes \<times> py) list \<Rightarrow> exn + int \<times> bytes" where
  "on_data_open E key msg =
     and_then (and_then (py_item msg ''nonce'') (b64d E)) (\<lambda>nonce.
     and_then (and_then (py_item msg ''ciphertext'') (b64d E)) (\<lambda>ciphertext.
     and_then (py_item msg ''seq'') (\<lambda>seq. case seq of
       PyInt n \<Rightarrow> if n \<le> 0 \<or> n > 0xFFFFFFFF then Inl ValueError
         else (case v_decrypt E key nonce ciphertext (be_bytes 8 (of_int n :: u64)) of
           None \<Rightarrow> Inl InvalidTag | Some plain \<Rightarrow> Inr (n, plain))
     | _ \<Rightarrow> Inl ValueError)))"

text \<open>The exceptions \<open>_on_data\<close> catches, and those it skips a sample for.\<close>

fun caught :: "exn \<Rightarrow> bool" where
  "caught (KeyError k) = True"
| "caught ValueError = True"
| "caught (AttestationError m) = True"
| "caught TypeError = True"
| "caught InvalidTag = True"
| "caught _ = False"

fun skipped :: "exn \<Rightarrow> bool" where
  "skipped InvalidTag = False"
| "skipped x = caught x"

definition sample_of :: "'w server_env \<Rightarrow> bytes \<Rightarrow> rat \<Rightarrow> py \<Rightarrow> exn + sample" where
  "sample_of E d now x =
     and_then (as_dict x) (\<lambda>s.
     and_then (v_float E (py_get s ''ts'' (PyFloat now))) (\<lambda>ts.
     and_then (and_then (py_item s ''value'') (v_float E)) (\<lambda>value.
     Inr \<lparr>sm_ts = ts, sm_value = value,
       sm_sensor = py_str E (py_get s ''sensor_id'' (PyStr (d @ ascii '':sensor''))),
       sm_unit = py_str E (py_get s ''unit'' (PyStr (ascii ''unit'')))\<rparr>)))"

fun samples_of :: "'w server_env \<Rightarrow> bytes \<Rightarrow> rat \<Rightarrow> py list \<Rightarrow> exn + sample list" where
  "samples_of E d now [] = Inr []"
| "samples_of E d now (x # xs) = (case sample_of E d now x of
     Inr s \<Rightarrow> and_then (samples_of E d now xs) (\<lambda>ss. Inr (s # ss))
   | Inl e \<Rightarrow> if skipped e then samples_of E d now xs else Inl e)"

text \<open>What a \<open>for\<close> loop runs over.\<close>

fun iterate :: "py \<Rightarrow> exn + py list" where
  "iterate (PyList xs) = Inr xs"
| "iterate (PyDict kvs) = Inr (map (\<lambda>kv. PyStr (fst kv)) kvs)"
| "iterate (PyStr s) = Inr (map (\<lambda>c. PyStr [c]) s)"
| "iterate _ = Inl TypeError"

definition on_data_commit :: "'w server_env \<Rightarrow> bytes \<Rightarrow> rat \<Rightarrow> int \<Rightarrow> bytes \<Rightarrow> ('w device_link, exn + unit) state" where
  "on_data_commit E d now seq plaintext = do {
     fresh \<leftarrow> check_and_advance_seq E d (PyInt seq);
     if \<not> fresh then do {
       set_verdict d True False ''replayed or out-of-order message'' now;
       State_Monad.return (Inr ()) }
     else case v_loads E plaintext of
       None \<Rightarrow> do {
         set_verdict d True False ''decrypt/verify failed'' now;
         State_Monad.return (Inr ()) }
     | Some payload \<Rightarrow>
         (case and_then (as_dict payload) (\<lambda>p. and_then (iterate (py_get p ''samples'' (PyList []))) (samples_of E d now)) of
           Inl x \<Rightarrow> State_Monad.return (Inl x)
         | Inr samples \<Rightarrow> do {
             modify (\<lambda>s. s\<lparr>sl_buf := (sl_buf s)(d := deque_extend (sl_buf s d) samples)\<rparr>);
             set_verdict d True True ''attested session, AEAD-verified'' now;
             State_Monad.return (Inr ()) }) }"

definition on_data :: "'w server_env \<Rightarrow> bytes \<Rightarrow> (bytes \<times> py) list \<Rightarrow> ('w device_link, exn + unit) state" where
  "on_data E d msg = do {
     (now, key) \<leftarrow> on_data_begin E d;
     case key of
       None \<Rightarrow> State_Monad.return (Inr ())
     | Some k \<Rightarrow> (case on_data_open E k msg of
         Inl x \<Rightarrow> if caught x then do {
             set_verdict d True False ''decrypt/verify failed'' now;
             State_Monad.return (Inr ()) }
           else State_Monad.return (Inl x)
       | Inr (seq, plaintext) \<Rightarrow> on_data_commit E d now seq plaintext) }"

section \<open>One line\<close>

text \<open>The connection goes on, or an exception ends it; either way with the device it speaks for.\<close>

datatype conn_next = Stay "bytes option" | Leave "bytes option"

definition on_hello :: "'w server_env \<Rightarrow> (bytes \<times> py) list \<Rightarrow> ('w device_link, py list \<times> conn_next) state" where
  "on_hello E msg = do {
     let v = py_get msg ''device_id'' PyNone;
     let d = (if truthy v then py_str E v else []);
     res \<leftarrow> issue_challenge E d;
     State_Monad.return (case res of
       Inr challenge \<Rightarrow> ([PyDict (challenge @ [(ascii ''type'', PyStr (ascii ''attest_challenge''))])], Stay (Some d))
     | Inl (AttestationError m) \<Rightarrow>
         ([PyDict [(ascii ''type'', PyStr (ascii ''error'')), (ascii ''error'', PyStr m)]], Stay None)
     | Inl x \<Rightarrow> ([], Leave (Some d))) }"

definition attest_failed :: "bytes \<Rightarrow> py" where
  "attest_failed m = PyDict [(ascii ''type'', PyStr (ascii ''attest_result'')), (ascii ''ok'', PyBool False),
     (ascii ''error'', PyStr m)]"

definition response_fields :: "(bytes \<times> py) list \<Rightarrow> exn + response" where
  "response_fields msg =
     and_then (py_item msg ''device_ecdh_pub'') (\<lambda>pub.
     and_then (py_item msg ''quote'') (\<lambda>q.
     and_then (py_item msg ''signature'') (\<lambda>sg.
     and_then (py_item msg ''pcr_values'') (\<lambda>pcr.
     and_then (py_item msg ''ta_sig'') (\<lambda>ta.
     Inr \<lparr>rs_device_ecdh_pub = pub, rs_quote = q, rs_signature = sg, rs_pcr_values = pcr, rs_ta_sig = ta\<rparr>)))))"

definition on_response :: "'w server_env \<Rightarrow> bytes \<Rightarrow> (bytes \<times> py) list \<Rightarrow> ('w device_link, py list \<times> conn_next) state" where
  "on_response E d msg = do {
     res \<leftarrow> (case response_fields msg of
       Inl x \<Rightarrow> State_Monad.return (Inl x)
     | Inr r \<Rightarrow> verify_and_derive E d r);
     State_Monad.return (case res of
       Inr server_sig \<Rightarrow> ([PyDict [(ascii ''type'', PyStr (ascii ''attest_result'')), (ascii ''ok'', PyBool True),
           (ascii ''session_ttl'', PyInt 3600), (ascii ''server_sig'', PyStr (v_b64e E server_sig))]], Stay (Some d))
     | Inl (AttestationError m) \<Rightarrow> ([attest_failed m], Stay (Some d))
     | Inl (KeyError k) \<Rightarrow> ([attest_failed (v_repr E (PyStr k))], Stay (Some d))
     | Inl x \<Rightarrow> ([], Leave (Some d))) }"

definition not_ok :: "bytes \<Rightarrow> py" where
  "not_ok m = PyDict [(ascii ''ok'', PyBool False), (ascii ''error'', PyStr m)]"

text \<open>The answer to a data message, whatever became of it.\<close>

definition data_reply :: py where
  "data_reply = PyDict [(ascii ''ok'', PyBool True)]"

definition handle_line :: "'w server_env \<Rightarrow> bytes option \<Rightarrow> bytes \<Rightarrow> ('w device_link, py list \<times> conn_next) state" where
  "handle_line E device_id line = (case v_loads E line of
     None \<Rightarrow> State_Monad.return ([not_ok (ascii ''invalid JSON'')], Stay device_id)
   | Some x \<Rightarrow> (case as_dict x of
       Inl e \<Rightarrow> State_Monad.return ([], Leave device_id)
     | Inr msg \<Rightarrow>
        (let ty = py_get msg ''type'' PyNone; none = (device_id = None \<or> device_id = Some []) in
         if ty = PyStr (ascii ''hello'') then on_hello E msg
         else if ty = PyStr (ascii ''attest_response'') then
           (if none then State_Monad.return ([attest_failed (ascii ''send hello first'')], Stay device_id)
            else on_response E (the device_id) msg)
         else if ty = PyStr (ascii ''data'') then
           (if none then State_Monad.return ([not_ok (ascii ''send hello first'')], Stay device_id)
            else do {
              res \<leftarrow> on_data E (the device_id) msg;
              State_Monad.return (case res of Inl x \<Rightarrow> ([], Leave device_id) | Inr u \<Rightarrow> ([data_reply], Stay device_id)) })
         else State_Monad.return ([not_ok (ascii ''unknown type '' @ v_repr E ty)], Stay device_id))))"

section \<open>A connection\<close>

definition on_close :: "'w server_env \<Rightarrow> bytes option \<Rightarrow> ('w device_link, unit) state" where
  "on_close E device_id = (case device_id of
     None \<Rightarrow> State_Monad.return ()
   | Some d \<Rightarrow> if d = [] then State_Monad.return ()
       else do {
         now \<leftarrow> srv_op (v_time E);
         set_verdict d False False ''device disconnected'' now })"

fun handle_connection :: "'w server_env \<Rightarrow> bytes option \<Rightarrow> bytes list \<Rightarrow> ('w device_link, py list) state" where
  "handle_connection E device_id [] = do { on_close E device_id; State_Monad.return [] }"
| "handle_connection E device_id (line # lines) = do {
     (replies, next) \<leftarrow> handle_line E device_id line;
     case next of
       Leave d \<Rightarrow> do { on_close E d; State_Monad.return replies }
     | Stay d \<Rightarrow> do {
         more \<leftarrow> handle_connection E d lines;
         State_Monad.return (replies @ more) } }"

section \<open>What a collection shows\<close>

text \<open>The field \<open>measurement_ok\<close> is always the same as \<open>attested\<close>; device and window are the request's.\<close>

record batch =
  bt_samples :: "sample list"
  bt_attested :: bool
  bt_intact :: bool
  bt_note :: bytes

definition collect :: "bytes \<Rightarrow> ('w device_link, batch) state" where
  "collect d = do {
     new \<leftarrow> gets (\<lambda>s. sl_buf s d);
     modify (\<lambda>s. s\<lparr>sl_buf := (sl_buf s)(d := [])\<rparr>);
     verdict \<leftarrow> gets (\<lambda>s. sl_verdict s d);
     State_Monad.return (case verdict of
       None \<Rightarrow> \<lparr>bt_samples = [], bt_attested = False, bt_intact = False,
         bt_note = ascii ''no data received from this device yet''\<rparr>
     | Some v \<Rightarrow> \<lparr>bt_samples = drop (length new - 1) new, bt_attested = vd_attested v,
         bt_intact = vd_intact v, bt_note = vd_note v\<rparr>) }"

end
