(* ===== verification/HostPlatform.thy ===== *)
theory HostPlatform
  imports Platform Protocol
begin

text \<open>
  What the Host process (edge_device/host, attestation) calls and the repository does not
  contain: the C library and the kernel (sockets, files, clock, shell), the TEE client API,
  cJSON and mbedTLS's base64. It is the record \<open>host_env\<close>, over an opaque state
  \<open>'w\<close> and parsed documents \<open>'j\<close>. The Host keeps a ghost log of what it exchanged with the
  outside; no code reads it.
\<close>

named_theorems host_intros "calls that change nothing but the outside and the log"

section \<open>Calls of the Host\<close>

text \<open>
  A parameter of a TEE client operation: a temporary memory reference with the size field
  the callee may change, or the two words of a value.
\<close>

datatype op_param = NoParam | TmpRef bytes nat | ValueRef u32 u32

fun tmp_buffer :: "op_param \<Rightarrow> bytes" where
  "tmp_buffer (TmpRef b n) = b"
| "tmp_buffer _ = []"

fun tmp_size :: "op_param \<Rightarrow> nat" where
  "tmp_size (TmpRef b n) = n"
| "tmp_size _ = 0"

fun value_a :: "op_param \<Rightarrow> u32" where
  "value_a (ValueRef a b) = a"
| "value_a _ = 0"

text \<open>A member of a JSON object as the Host adds it.\<close>

datatype json_field = JString string bytes | JNumber string u32

text \<open>
  \<open>mbedtls_base64_decode\<close> either fills the destination or fails; a failure for lack of
  room still stores the size it would need.
\<close>

datatype b64_result = Decoded bytes | Undecoded "nat option"

record ('w, 'j) host_env =
  \<comment> \<open>sockets\<close>
  env_getaddrinfo :: "bytes \<Rightarrow> bytes \<Rightarrow> 'w \<Rightarrow> nat list option \<times> 'w"
  env_socket :: "nat \<Rightarrow> 'w \<Rightarrow> int \<times> 'w"
  env_connect :: "int \<Rightarrow> nat \<Rightarrow> 'w \<Rightarrow> int \<times> 'w"
  env_close :: "int \<Rightarrow> 'w \<Rightarrow> 'w"
  env_send :: "int \<Rightarrow> bytes \<Rightarrow> 'w \<Rightarrow> int \<times> 'w"
  env_recv :: "int \<Rightarrow> 'w \<Rightarrow> (int \<times> u8) \<times> 'w"
  \<comment> \<open>files, environment, processes, clock\<close>
  env_fopen :: "bytes \<Rightarrow> 'w \<Rightarrow> bytes option \<times> 'w"
  env_getenv :: "string \<Rightarrow> bytes option"
  env_mkstemp :: "bytes \<Rightarrow> 'w \<Rightarrow> bytes option \<times> 'w"
  env_unlink :: "bytes \<Rightarrow> 'w \<Rightarrow> 'w"
  env_system :: "bytes \<Rightarrow> 'w \<Rightarrow> int \<times> 'w"
  env_monotonic :: "'w \<Rightarrow> int option \<times> 'w"
  env_time :: "'w \<Rightarrow> int \<times> 'w"
  env_sleep :: "nat \<Rightarrow> 'w \<Rightarrow> 'w"
  \<comment> \<open>cJSON: allocations, printing, parsing and the three accessors used\<close>
  env_alloc :: "'w \<Rightarrow> bool \<times> 'w"
  env_print :: "json_field list \<Rightarrow> 'w \<Rightarrow> bytes option \<times> 'w"
  env_parse :: "bytes \<Rightarrow> 'w \<Rightarrow> 'j option \<times> 'w"
  j_string :: "'j \<Rightarrow> string \<Rightarrow> bytes option"
  j_is_true :: "'j \<Rightarrow> string \<Rightarrow> bool"
  j_number :: "'j \<Rightarrow> string \<Rightarrow> int option"
  \<comment> \<open>base64 into a buffer of the given size\<close>
  b64_encode :: "nat \<Rightarrow> bytes \<Rightarrow> bytes option"
  b64_decode :: "nat \<Rightarrow> bytes \<Rightarrow> b64_result"
  \<comment> \<open>TEE client API\<close>
  env_teec_init :: "'w \<Rightarrow> TEE_Result \<times> 'w"
  env_teec_open :: "'w \<Rightarrow> TEE_Result \<times> 'w"
  env_teec_close :: "'w \<Rightarrow> 'w"
  env_teec_fini :: "'w \<Rightarrow> 'w"
  env_invoke :: "nat \<Rightarrow> ptype list \<Rightarrow> op_param list \<Rightarrow> 'w \<Rightarrow> (TEE_Result \<times> op_param list) \<times> 'w"

section \<open>The state of the Host process\<close>

datatype host_event =
    Connected int
  | Closed int
  | Tx int bytes
  | Rx int u8
  | Invoked nat "op_param list" TEE_Result "op_param list"
  | Message "json_field list"
  | TempFile bytes
  | Unlinked bytes
  | Shell bytes
  | Stdout bytes

record 'w host =
  hw :: 'w
  log :: "host_event list"

definition env_op :: "('w \<Rightarrow> 'a \<times> 'w) \<Rightarrow> (('w, 'm) host_scheme, 'a) state" where
  "env_op f = State (\<lambda>s. case f (hw s) of (a, w) \<Rightarrow> (a, s\<lparr>hw := w\<rparr>))"

definition env_do :: "('w \<Rightarrow> 'w) \<Rightarrow> (('w, 'm) host_scheme, unit) state" where
  "env_do f = modify (\<lambda>s. s\<lparr>hw := f (hw s)\<rparr>)"

definition note_event :: "host_event \<Rightarrow> (('w, 'm) host_scheme, unit) state" where
  "note_event e = modify (\<lambda>s. s\<lparr>log := log s @ [e]\<rparr>)"

text \<open>\<open>TEEC_InvokeCommand\<close> on the session the process holds.\<close>

definition teec_invoke ::
    "('w, 'j) host_env \<Rightarrow> nat \<Rightarrow> ptype list \<Rightarrow> op_param list \<Rightarrow> (('w, 'm) host_scheme, TEE_Result \<times> op_param list) state" where
  "teec_invoke H cmd types ps = do {
     (res, qs) \<leftarrow> env_op (env_invoke H cmd types ps);
     note_event (Invoked cmd ps res qs);
     State_Monad.return (res, qs) }"

section \<open>Calculus\<close>

lemma run_env_op [simp]:
  "run_state (env_op f) s = (fst (f (hw s)), s\<lparr>hw := snd (f (hw s))\<rparr>)"
  by (simp add: env_op_def case_prod_beta)

lemma run_env_do [simp]: "run_state (env_do f) s = ((), s\<lparr>hw := f (hw s)\<rparr>)"
  by (simp add: env_do_def)

lemma run_note_event [simp]: "run_state (note_event e) s = ((), s\<lparr>log := log s @ [e]\<rparr>)"
  by (simp add: note_event_def)

lemma wp_env_op [simp, wp_simps]:
  "wp (env_op f) Q s = (case f (hw s) of (a, w) \<Rightarrow> Q a (s\<lparr>hw := w\<rparr>))"
  by (simp add: wp_def case_prod_beta)

lemma wp_env_do [simp, wp_simps]: "wp (env_do f) Q s = Q () (s\<lparr>hw := f (hw s)\<rparr>)"
  by (simp add: wp_def)

lemma wp_note_event [simp, wp_simps]: "wp (note_event e) Q s = Q () (s\<lparr>log := log s @ [e]\<rparr>)"
  by (simp add: wp_def)

text \<open>
  \<open>host_only s t\<close>: nothing changed but the outside and the log, which grew by traffic, files
  and shell commands. Every call of the lower layers is of this kind, whatever state the
  process keeps on top.
\<close>

fun low_level :: "host_event \<Rightarrow> bool" where
  "low_level (Connected fd) = False"
| "low_level (Closed fd) = False"
| "low_level (Invoked c ps r qs) = False"
| "low_level (Message m) = False"
| "low_level (Stdout bs) = False"
| "low_level _ = True"

lemma low_levels [host_intros]:
  "low_level (Tx fd bs)" "low_level (Rx fd b)" "low_level (TempFile p)" "low_level (Unlinked p)" "low_level (Shell c)"
  by simp_all

definition host_only :: "('w, 'm) host_scheme \<Rightarrow> ('w, 'm) host_scheme \<Rightarrow> bool" where
  "host_only s t \<longleftrightarrow> (\<exists>w es. list_all low_level es \<and> t = s\<lparr>hw := w, log := log s @ es\<rparr>)"

lemma host_onlyI: "list_all low_level es \<Longrightarrow> t = s\<lparr>hw := w, log := log s @ es\<rparr> \<Longrightarrow> host_only s t"
  by (auto simp: host_only_def)

interpretation host: effect_order host_only
proof
  fix s t u :: "('w, 'm) host_scheme"
  show "host_only s s" by (rule host_onlyI [where w = "hw s" and es = "[]"]) simp_all
  assume "host_only s t" "host_only t u"
  then obtain w es w' es' where "t = s\<lparr>hw := w, log := log s @ es\<rparr>" "u = t\<lparr>hw := w', log := log t @ es'\<rparr>"
    "list_all low_level es" "list_all low_level es'"
    unfolding host_only_def by blast
  then have "u = s\<lparr>hw := w', log := log s @ (es @ es')\<rparr>" "list_all low_level (es @ es')" by simp_all
  then show "host_only s u" by (intro host_onlyI)
qed

lemma host_only_env_op [host_intros]: "bounded host_only (env_op f)"
  by (auto simp: bounded_def intro: host_onlyI [where es = "[]"])

lemma host_only_env_do [host_intros]: "bounded host_only (env_do f)"
  by (auto simp: bounded_def intro: host_onlyI [where es = "[]"])

lemma host_only_note [host_intros]:
  assumes "low_level e"
  shows "bounded host_only (note_event e :: (('w, 'm) host_scheme, unit) state)"
proof -
  have "host_only s (s\<lparr>log := log s @ [e]\<rparr>)" for s :: "('w, 'm) host_scheme"
    by (rule host_onlyI [where w = "hw s" and es = "[e]"]) (simp_all add: assms)
  then show ?thesis by (simp add: bounded_def)
qed

lemma host_only_log: "host_only s t \<Longrightarrow> \<exists>es. log t = log s @ es \<and> list_all low_level es"
  by (auto simp: host_only_def)

section \<open>Documented behaviour\<close>

text \<open>
  Base64: a text of \<open>4 * ((n + 2) div 3)\<close> characters, none of them NUL, refused exactly when
  it does not fit with its terminator; decoding gives the bytes back, and what is decoded fits.
  Nothing is said of encoding no bytes at all, which leaves the destination as it was.
\<close>

definition b64_laws :: "('w, 'j) host_env \<Rightarrow> bool" where
  "b64_laws H \<longleftrightarrow>
     (\<forall>cap d. d \<noteq> [] \<longrightarrow> (b64_encode H cap d \<noteq> None) = (4 * ((length d + 2) div 3) < cap)) \<and>
     (\<forall>cap d e. d \<noteq> [] \<longrightarrow> b64_encode H cap d = Some e \<longrightarrow> length e = 4 * ((length d + 2) div 3) \<and> 0 \<notin> set e) \<and>
     (\<forall>cap cap' d e. d \<noteq> [] \<longrightarrow> b64_encode H cap d = Some e \<longrightarrow>
        b64_decode H cap' e = (if length d \<le> cap' then Decoded d else Undecoded (Some (length d)))) \<and>
     (\<forall>cap e d. b64_decode H cap e = Decoded d \<longrightarrow> length d \<le> cap)"

text \<open>The TEE client library never moves or resizes the caller's buffers.\<close>

definition teec_laws :: "('w, 'j) host_env \<Rightarrow> bool" where
  "teec_laws H \<longleftrightarrow> (\<forall>cmd types ps w.
     map (\<lambda>p. length (tmp_buffer p)) (snd (fst (env_invoke H cmd types ps w))) = map (\<lambda>p. length (tmp_buffer p)) ps)"

text \<open>A connection that delivers the bytes of \<open>q\<close> one by one.\<close>

definition recv_queue :: "('w, 'j) host_env \<Rightarrow> ('w \<Rightarrow> bytes) \<Rightarrow> bool" where
  "recv_queue H q \<longleftrightarrow> (\<forall>fd w. q w \<noteq> [] \<longrightarrow>
     (\<exists>w'. env_recv H fd w = ((1, hd (q w)), w') \<and> q w' = tl (q w)))"

end
