(* ===== verification/Attestation.thy ===== *)
theory Attestation
  imports HostPlatform
begin

text \<open>
  The fTPM quote (attestation/attestation.c): \<open>create_attestation_report\<close> runs tpm2-tools
  through the shell on three temporary files, prefixes the quote with the size the server's
  parser expects, and encodes quote and signature.
\<close>

section \<open>Operations\<close>

record attestation_evidence =
  quote_b64 :: bytes
  signature_b64 :: bytes
  pcr_values_text :: bytes

text \<open>The first \<open>cap\<close> bytes of a file; a failed open and a read error have the same outcome.\<close>

definition read_whole_file :: "('w, 'j) host_env \<Rightarrow> bytes \<Rightarrow> nat \<Rightarrow> (('w, 'm) host_scheme, bytes option) state" where
  "read_whole_file H path cap = do {
     r \<leftarrow> env_op (env_fopen H path);
     State_Monad.return (map_option (take cap) r) }"

definition read_text_file :: "('w, 'j) host_env \<Rightarrow> bytes \<Rightarrow> nat \<Rightarrow> (('w, 'm) host_scheme, bytes option) state" where
  "read_text_file H path cap =
     (if cap = 0 then State_Monad.return None else read_whole_file H path (cap - 1))"

text \<open>\<open>snprintf\<close> into \<open>n\<close> bytes keeps \<open>n - 1\<close>.\<close>

definition snprintf :: "nat \<Rightarrow> bytes \<Rightarrow> bytes" where
  "snprintf n text = take (n - 1) text"

definition hex_digit :: "u8 \<Rightarrow> u8" where
  "hex_digit d = (if d < 10 then 48 + d else 87 + d)"

definition hash_hex :: "bytes \<Rightarrow> bytes" where
  "hash_hex h = concat (map (\<lambda>b. [hex_digit (drop_bit 4 b), hex_digit (b AND 15)]) (take 32 h))"

definition quote_command :: "bytes \<Rightarrow> bytes \<Rightarrow> bytes \<Rightarrow> bytes \<Rightarrow> bytes" where
  "quote_command ak_handle hex msg_path sig_path =
     ascii ''tpm2_quote -c '' @ ak_handle @ ascii '' -l sha256:0 -q '' @ hex @ ascii '' -m '' @ msg_path @
     ascii '' -s '' @ sig_path @ ascii '' -g sha256 >/dev/null 2>&1''"

definition pcr_command :: "bytes \<Rightarrow> bytes" where
  "pcr_command pcr_path = ascii ''tpm2_pcrread sha256:0 > '' @ pcr_path @ ascii '' 2>&1''"

definition shell :: "('w, 'j) host_env \<Rightarrow> bytes \<Rightarrow> (('w, 'm) host_scheme, int) state" where
  "shell H cmd = do { note_event (Shell cmd); env_op (env_system H cmd) }"

text \<open>The TPM2B wrapper: a big-endian 16-bit size before the attestation body.\<close>

definition tpm2b :: "bytes \<Rightarrow> bytes" where
  "tpm2b m = of_nat (length m div 256) # of_nat (length m mod 256) # m"

text \<open>From the two commands to the encoded fields; \<open>ret = -1\<close> wherever the code jumps to \<open>out\<close>.\<close>

definition encode_report ::
    "('w, 'j) host_env \<Rightarrow> bytes \<Rightarrow> bytes \<Rightarrow> bytes \<Rightarrow> attestation_evidence \<Rightarrow>
     (('w, 'm) host_scheme, int \<times> attestation_evidence) state" where
  "encode_report H msg_path sig_path pcr_path ev = do {
     m \<leftarrow> read_whole_file H msg_path 1022;
     case m of None \<Rightarrow> State_Monad.return (- 1, ev)
     | Some m \<Rightarrow> do {
         sg \<leftarrow> read_whole_file H sig_path 512;
         case sg of None \<Rightarrow> State_Monad.return (- 1, ev)
         | Some sg \<Rightarrow> do {
             txt \<leftarrow> read_text_file H pcr_path 4096;
             case txt of None \<Rightarrow> State_Monad.return (- 1, ev)
             | Some txt \<Rightarrow> (let ev = ev\<lparr>pcr_values_text := txt\<rparr> in
                 case b64_encode H 2048 (tpm2b m) of None \<Rightarrow> State_Monad.return (- 1, ev)
                 | Some q \<Rightarrow> (let ev = ev\<lparr>quote_b64 := q\<rparr> in
                     case b64_encode H 1024 sg of None \<Rightarrow> State_Monad.return (- 1, ev)
                     | Some s \<Rightarrow> State_Monad.return (0, ev\<lparr>signature_b64 := s\<rparr>))) } } }"

definition quote_report ::
    "('w, 'j) host_env \<Rightarrow> bytes \<Rightarrow> bytes \<Rightarrow> bytes \<Rightarrow> bytes \<Rightarrow> bytes \<Rightarrow> attestation_evidence \<Rightarrow>
     (('w, 'm) host_scheme, int \<times> attestation_evidence) state" where
  "quote_report H ak_handle hex msg_path sig_path pcr_path ev = do {
     rc \<leftarrow> shell H (snprintf 512 (quote_command ak_handle hex msg_path sig_path));
     if rc \<noteq> 0 then State_Monad.return (- 1, ev)
     else do {
       rc \<leftarrow> shell H (snprintf 512 (pcr_command pcr_path));
       if rc \<noteq> 0 then State_Monad.return (- 1, ev)
       else encode_report H msg_path sig_path pcr_path ev } }"

definition temp_file :: "('w, 'j) host_env \<Rightarrow> bytes \<Rightarrow> (('w, 'm) host_scheme, bytes option) state" where
  "temp_file H template = do {
     r \<leftarrow> env_op (env_mkstemp H template);
     (case r of Some path \<Rightarrow> note_event (TempFile path) | None \<Rightarrow> State_Monad.return ());
     State_Monad.return r }"

definition unlink_file :: "('w, 'j) host_env \<Rightarrow> bytes \<Rightarrow> (('w, 'm) host_scheme, unit) state" where
  "unlink_file H path = do { env_do (env_unlink H path); note_event (Unlinked path) }"

definition create_attestation_report ::
    "('w, 'j) host_env \<Rightarrow> bytes \<Rightarrow> bytes \<Rightarrow> attestation_evidence \<Rightarrow>
     (('w, 'm) host_scheme, int \<times> attestation_evidence) state" where
  "create_attestation_report H transcript_hash ak_handle ev = do {
     msg_path \<leftarrow> temp_file H (ascii ''/tmp/ciot_quote_msg_XXXXXX'');
     case msg_path of None \<Rightarrow> State_Monad.return (- 1, ev)
     | Some msg_path \<Rightarrow> do {
         sig_path \<leftarrow> temp_file H (ascii ''/tmp/ciot_quote_sig_XXXXXX'');
         case sig_path of None \<Rightarrow> do {
             unlink_file H msg_path;
             State_Monad.return (- 1, ev) }
         | Some sig_path \<Rightarrow> do {
             pcr_path \<leftarrow> temp_file H (ascii ''/tmp/ciot_pcr_out_XXXXXX'');
             case pcr_path of None \<Rightarrow> do {
                 unlink_file H msg_path;
                 unlink_file H sig_path;
                 State_Monad.return (- 1, ev) }
             | Some pcr_path \<Rightarrow> do {
                 (ret, ev) \<leftarrow> quote_report H ak_handle (hash_hex transcript_hash) msg_path sig_path pcr_path ev;
                 unlink_file H msg_path;
                 unlink_file H sig_path;
                 unlink_file H pcr_path;
                 State_Monad.return (ret, ev) } } } }"

section \<open>What it does\<close>

lemma length_hash_hex: "length (hash_hex h) = 2 * min 32 (length h)"
  by (simp add: hash_hex_def length_concat comp_def sum_list_triv)

lemma tpm2b_fields:
  assumes "length m \<le> 1022"
  shows "be_val (take 2 (tpm2b m)) = length m" "drop 2 (tpm2b m) = m" "length (tpm2b m) = length m + 2"
proof -
  have "length m div 256 < 256" "length m mod 256 < 256" using assms by simp_all
  then have "unat (of_nat (length m div 256) :: u8) = length m div 256"
    "unat (of_nat (length m mod 256) :: u8) = length m mod 256"
    by (simp_all add: unat_of_nat)
  then show "be_val (take 2 (tpm2b m)) = length m"
    by (simp add: tpm2b_def numeral_2_eq_2)
qed (simp_all add: tpm2b_def)

lemma run_read_whole_file [simp]:
  "run_state (read_whole_file H path cap) s =
     (map_option (take cap) (fst (env_fopen H path (hw s))), s\<lparr>hw := snd (env_fopen H path (hw s))\<rparr>)"
  by (simp add: read_whole_file_def)

lemma run_shell [simp]:
  "run_state (shell H cmd) s =
     (fst (env_system H cmd (hw s)), s\<lparr>hw := snd (env_system H cmd (hw s)), log := log s @ [Shell cmd]\<rparr>)"
  by (simp add: shell_def)

lemma host_only_shell [host_intros]: "bounded host_only (shell H cmd)"
  unfolding shell_def by (intro host.bounded_rules host_intros)

lemma host_only_read_file [host_intros]: "bounded host_only (read_whole_file H path cap)"
  unfolding read_whole_file_def by (intro host.bounded_rules host_intros)

lemma host_only_encode [host_intros]: "bounded host_only (encode_report H m sg pcr ev)"
  unfolding encode_report_def read_text_file_def Let_def by (intro host.bounded_rules host_intros)

lemma host_only_temp_file [host_intros]: "bounded host_only (temp_file H template)"
  unfolding temp_file_def by (intro host.bounded_rules host_intros)

lemma host_only_unlink [host_intros]: "bounded host_only (unlink_file H path)"
  unfolding unlink_file_def by (intro host.bounded_rules host_intros)

lemma host_only_quote [host_intros]: "bounded host_only (quote_report H ak hex m sg pcr ev)"
  unfolding quote_report_def by (intro host.bounded_rules host_intros)

lemma host_only_report [host_intros]: "bounded host_only (create_attestation_report H h ak ev)"
  unfolding create_attestation_report_def by (intro host.bounded_rules host_intros)

text \<open>
  Where the evidence comes from: from \<open>w\<close> on the first command ran, then the second, both with
  status 0, then the three files were read in this order: \<open>m\<close> from \<open>a\<close>, the signature from \<open>b\<close>
  and the text of the PCR values from \<open>c\<close>.
\<close>

definition files_read ::
    "('w, 'j) host_env \<Rightarrow> bytes \<Rightarrow> bytes \<Rightarrow> bytes \<Rightarrow> bytes \<Rightarrow> bytes \<Rightarrow> 'w \<Rightarrow> bytes \<Rightarrow> bytes \<Rightarrow> bytes \<Rightarrow> bool" where
  "files_read H quote pcr a b c w m sg tx \<longleftrightarrow> (\<exists>w1 w2 w3 w4 w5 msg_file sig_file pcr_file.
     env_system H quote w = (0, w1) \<and> env_system H pcr w1 = (0, w2) \<and>
     env_fopen H a w2 = (Some msg_file, w3) \<and> env_fopen H b w3 = (Some sig_file, w4) \<and>
     env_fopen H c w4 = (Some pcr_file, w5) \<and>
     m = take 1022 msg_file \<and> sg = take 512 sig_file \<and> tx = take 4095 pcr_file)"

lemma files_read_bounds:
  "files_read H quote pcr a b c w m sg tx \<Longrightarrow> length m \<le> 1022 \<and> length sg \<le> 512 \<and> length tx < 4096"
  by (auto simp: files_read_def)

definition evidence_from ::
    "('w, 'j) host_env \<Rightarrow> bytes \<Rightarrow> bytes \<Rightarrow> bytes \<Rightarrow> bytes \<Rightarrow> bytes \<Rightarrow> 'w \<Rightarrow> attestation_evidence \<Rightarrow> bool" where
  "evidence_from H quote pcr a b c w ev \<longleftrightarrow> (\<exists>m sg. files_read H quote pcr a b c w m sg (pcr_values_text ev) \<and>
     b64_encode H 2048 (tpm2b m) = Some (quote_b64 ev) \<and> b64_encode H 1024 sg = Some (signature_b64 ev))"

text \<open>A successful report from \<open>w\<close>, and what it did meanwhile.\<close>

definition report_ok ::
    "('w, 'j) host_env \<Rightarrow> bytes \<Rightarrow> bytes \<Rightarrow> 'w \<Rightarrow> attestation_evidence \<Rightarrow> host_event list \<Rightarrow> bool" where
  "report_ok H h ak w ev es \<longleftrightarrow>
     (\<exists>a b c w1 w2 w3. env_mkstemp H (ascii ''/tmp/ciot_quote_msg_XXXXXX'') w = (Some a, w1) \<and>
        env_mkstemp H (ascii ''/tmp/ciot_quote_sig_XXXXXX'') w1 = (Some b, w2) \<and>
        env_mkstemp H (ascii ''/tmp/ciot_pcr_out_XXXXXX'') w2 = (Some c, w3) \<and>
        evidence_from H (snprintf 512 (quote_command ak (hash_hex h) a b)) (snprintf 512 (pcr_command c)) a b c w3 ev \<and>
        es = [TempFile a, TempFile b, TempFile c, Shell (snprintf 512 (quote_command ak (hash_hex h) a b)),
          Shell (snprintf 512 (pcr_command c)), Unlinked a, Unlinked b, Unlinked c])"

definition temp_files :: "host_event list \<Rightarrow> bytes list" where
  "temp_files es = concat (map (\<lambda>e. case e of TempFile p \<Rightarrow> [p] | _ \<Rightarrow> []) es)"

definition unlinked :: "host_event list \<Rightarrow> bytes list" where
  "unlinked es = concat (map (\<lambda>e. case e of Unlinked p \<Rightarrow> [p] | _ \<Rightarrow> []) es)"

lemma temp_files_append [simp]:
  "temp_files (xs @ ys) = temp_files xs @ temp_files ys" "unlinked (xs @ ys) = unlinked xs @ unlinked ys"
  by (simp_all add: temp_files_def unlinked_def)

lemma encode_report_run:
  assumes "run_state (encode_report H a b c ev) s = ((rc, ev'), t)"
    and sys: "env_system H quote w = (0, w1)" "env_system H pcr w1 = (0, hw s)"
  shows "log t = log s \<and> rc \<in> {0, - 1} \<and> (rc = 0 \<longrightarrow> evidence_from H quote pcr a b c w ev')"
proof -
  obtain m w3 where 1: "env_fopen H a (hw s) = (m, w3)" by (metis prod.exhaust)
  obtain sg w4 where 2: "env_fopen H b w3 = (sg, w4)" by (metis prod.exhaust)
  obtain pcrs w5 where 3: "env_fopen H c w4 = (pcrs, w5)" by (metis prod.exhaust)
  note run = assms(1) [unfolded encode_report_def read_text_file_def]
  have "log t = log s \<and> rc \<in> {0, - 1}"
    using run 1 2 3 by (auto simp: Let_def split: option.splits)
  moreover have "evidence_from H quote pcr a b c w ev'" if "rc = 0"
    using run 1 2 3 sys that
    by (auto simp: evidence_from_def files_read_def Let_def split: option.splits)
  ultimately show ?thesis by blast
qed

lemma quote_report_run:
  assumes "run_state (quote_report H ak hex a b c ev) s = ((rc, ev'), t)"
  shows "\<exists>es. log t = log s @ es \<and> temp_files es = [] \<and> unlinked es = [] \<and> rc \<in> {0, - 1} \<and>
    (rc = 0 \<longrightarrow> es = [Shell (snprintf 512 (quote_command ak hex a b)), Shell (snprintf 512 (pcr_command c))] \<and>
      evidence_from H (snprintf 512 (quote_command ak hex a b)) (snprintf 512 (pcr_command c)) a b c (hw s) ev')"
proof -
  let ?q = "Shell (snprintf 512 (quote_command ak hex a b))" and ?p = "Shell (snprintf 512 (pcr_command c))"
  obtain r1 w1 where 1: "env_system H (snprintf 512 (quote_command ak hex a b)) (hw s) = (r1, w1)"
    by (metis prod.exhaust)
  obtain r2 w2 where 2: "env_system H (snprintf 512 (pcr_command c)) w1 = (r2, w2)"
    by (metis prod.exhaust)
  let ?u = "s\<lparr>hw := w2, log := log s @ [?q, ?p]\<rparr>"
  show ?thesis
  proof (cases "r1 = 0 \<and> r2 = 0")
    case True
    with assms 1 2 have run: "run_state (encode_report H a b c ev) ?u = ((rc, ev'), t)"
      by (simp add: quote_report_def)
    from encode_report_run [OF run, of "snprintf 512 (quote_command ak hex a b)" "hw s" w1 "snprintf 512 (pcr_command c)"]
      1 2 True show ?thesis
      by (intro exI [of _ "[?q, ?p]"]) (simp add: temp_files_def unlinked_def)
  next
    case False
    with assms 1 2 show ?thesis
      by (intro exI [of _ "if r1 = 0 then [?q, ?p] else [?q]"])
        (auto simp: quote_report_def temp_files_def unlinked_def split: if_splits)
  qed
qed

lemma run_unlink_file [simp]:
  "run_state (unlink_file H p) s = ((), s\<lparr>hw := env_unlink H p (hw s), log := log s @ [Unlinked p]\<rparr>)"
  by (simp add: unlink_file_def)

lemma run_temp_file [simp]:
  "run_state (temp_file H t) s = (let (r, w) = env_mkstemp H t (hw s) in
     (r, s\<lparr>hw := w, log := log s @ (case r of Some p \<Rightarrow> [TempFile p] | None \<Rightarrow> [])\<rparr>))"
  by (auto simp: temp_file_def case_prod_beta split: option.splits)

lemma create_report_run:
  assumes "run_state (create_attestation_report H h ak ev) s = ((rc, ev'), t)"
  shows "\<exists>es. log t = log s @ es \<and> temp_files es = unlinked es \<and> rc \<in> {0, - 1} \<and> (rc = 0 \<longrightarrow> report_ok H h ak (hw s) ev' es)"
proof -
  obtain r1 w1 where 1: "env_mkstemp H (ascii ''/tmp/ciot_quote_msg_XXXXXX'') (hw s) = (r1, w1)"
    by (metis prod.exhaust)
  obtain r2 w2 where 2: "env_mkstemp H (ascii ''/tmp/ciot_quote_sig_XXXXXX'') w1 = (r2, w2)"
    by (metis prod.exhaust)
  obtain r3 w3 where 3: "env_mkstemp H (ascii ''/tmp/ciot_pcr_out_XXXXXX'') w2 = (r3, w3)"
    by (metis prod.exhaust)
  note defs = create_attestation_report_def temp_files_def unlinked_def
  show ?thesis
  proof (cases "\<exists>a b c. r1 = Some a \<and> r2 = Some b \<and> r3 = Some c")
    case False
    then consider "r1 = None" | a where "r1 = Some a" "r2 = None" | a b where "r1 = Some a" "r2 = Some b" "r3 = None"
      by (cases r1; cases r2; cases r3) auto
    then show ?thesis
    proof cases
      case 1
      with assms \<open>env_mkstemp H (ascii ''/tmp/ciot_quote_msg_XXXXXX'') (hw s) = (r1, w1)\<close> show ?thesis
        by (intro exI [of _ "[]"]) (auto simp: defs)
    next
      case a: 2
      with assms 1 2 show ?thesis
        by (intro exI [of _ "[TempFile a, Unlinked a]"]) (auto simp: defs)
    next
      case ab: 3
      with assms 1 2 3 show ?thesis
        by (intro exI [of _ "[TempFile a, TempFile b, Unlinked a, Unlinked b]"]) (auto simp: defs)
    qed
  next
    case True
    then obtain a b c where r: "r1 = Some a" "r2 = Some b" "r3 = Some c" by blast
    let ?u = "s\<lparr>hw := w3, log := log s @ [TempFile a, TempFile b, TempFile c]\<rparr>"
    obtain rc0 ev0 v where q: "run_state (quote_report H ak (hash_hex h) a b c ev) ?u = ((rc0, ev0), v)"
      by (metis prod.exhaust)
    from quote_report_run [OF q] obtain es where es: "log v = log ?u @ es" "temp_files es = []" "unlinked es = []"
      "rc0 \<in> {0, - 1}"
      and ok: "rc0 = 0 \<Longrightarrow> es = [Shell (snprintf 512 (quote_command ak (hash_hex h) a b)), Shell (snprintf 512 (pcr_command c))] \<and>
        evidence_from H (snprintf 512 (quote_command ak (hash_hex h) a b)) (snprintf 512 (pcr_command c)) a b c w3 ev0"
      by auto
    from assms 1 2 3 r q es(1) have res: "rc = rc0" "ev' = ev0"
      "log t = log s @ [TempFile a, TempFile b, TempFile c] @ es @ [Unlinked a, Unlinked b, Unlinked c]"
      by (auto simp: create_attestation_report_def)
    let ?es = "[TempFile a, TempFile b, TempFile c] @ es @ [Unlinked a, Unlinked b, Unlinked c]"
    have "temp_files ?es = unlinked ?es"
      using es(2,3) by (simp only: temp_files_append) (simp add: temp_files_def unlinked_def)
    moreover have "report_ok H h ak (hw s) ev' ?es" if "rc = 0"
      unfolding report_ok_def using ok that 1 2 3 r res
      by (intro exI [of _ a] exI [of _ b] exI [of _ c] exI [of _ w1] exI [of _ w2] exI [of _ w3]) simp
    ultimately show ?thesis
      using res es(4) by (intro exI [of _ ?es]) simp
  qed
qed

text \<open>The shell sees the whole command: 512 bytes are enough for every configured handle.\<close>

lemma commands_fit:
  assumes "length ak \<le> 31" "length h = 32" "length a \<le> 64" "length b \<le> 64" "length c \<le> 64"
  shows "snprintf 512 (quote_command ak (hash_hex h) a b) = quote_command ak (hash_hex h) a b"
    and "snprintf 512 (pcr_command c) = pcr_command c"
  using assms by (simp_all add: snprintf_def quote_command_def pcr_command_def length_hash_hex)

end
