(* ===== verification/Quote.thy ===== *)
theory Quote
  imports Verifier Attestation
begin

text \<open>
  What the TPM signs, between the two programs that carry it: attestation.c puts a size before the
  body that \<open>tpm2_quote\<close> wrote, and the verifier of the server takes it apart. The layouts of a quote and
  of an ECDSA signature are those of the TPM 2.0 structures, the PCR text is that of \<open>tpm2_pcrread\<close>; they
  are stated here as encoders and model no code.
\<close>

section \<open>Layouts\<close>

text \<open>A number in \<open>n\<close> big-endian bytes.\<close>

fun be_nat :: "nat \<Rightarrow> nat \<Rightarrow> bytes" where
  "be_nat 0 v = []"
| "be_nat (Suc n) v = be_nat n (v div 256) @ [of_nat (v mod 256)]"

lemma length_be_nat [simp]: "length (be_nat n v) = n"
  by (induction n arbitrary: v) simp_all

lemma be_val_be_nat: "v < 256 ^ n \<Longrightarrow> be_val (be_nat n v) = v"
proof (induction n arbitrary: v)
  case (Suc n)
  then have "v div 256 < 256 ^ n" by (simp add: less_mult_imp_div_less mult.commute)
  with Suc.IH show ?case by (simp add: be_val_append unat_of_nat)
qed simp

definition selection :: "nat \<times> bytes \<Rightarrow> bytes" where
  "selection s = be_nat 2 (fst s) @ of_nat (length (snd s)) # snd s"

record quote =
  q_name :: bytes
  q_extra :: bytes
  q_clock :: bytes
  q_firmware :: bytes
  q_selections :: "(nat \<times> bytes) list"
  q_digest :: bytes

definition quote_body :: "quote \<Rightarrow> bytes" where
  "quote_body q = be_nat 4 TPM_GENERATED_VALUE @ be_nat 2 TPM_ST_ATTEST_QUOTE @
     be_nat 2 (length (q_name q)) @ q_name q @ be_nat 2 (length (q_extra q)) @ q_extra q @
     q_clock q @ q_firmware q @ be_nat 4 (length (q_selections q)) @ concat (map selection (q_selections q)) @
     be_nat 2 (length (q_digest q)) @ q_digest q"

definition quote_wf :: "quote \<Rightarrow> bool" where
  "quote_wf q \<longleftrightarrow> length (q_clock q) = 17 \<and> length (q_firmware q) = 8 \<and>
     list_all (\<lambda>s. length (snd s) < 256) (q_selections q) \<and> length (quote_body q) \<le> 1022"

definition ecdsa_signature :: "bytes \<Rightarrow> bytes \<Rightarrow> bytes" where
  "ecdsa_signature r s = be_nat 2 TPM_ALG_ECDSA @ be_nat 2 11 @ be_nat 2 (length r) @ r @ be_nat 2 (length s) @ s"

section \<open>Taking them apart\<close>

lemma unpack_from_drop:
  assumes "drop off b = be_nat n v @ rest" "v < 256 ^ n" "0 < n"
  shows "unpack_from n b off = Inr v"
proof -
  from assms(1,3) have "off + n \<le> length b"
    by (metis length_append length_be_nat length_drop le_add1 le_diff_conv2 nat_le_linear diff_is_0_eq' add.commute
        le_zero_eq not_gr_zero)
  with assms show ?thesis by (simp add: unpack_from_def sub_def be_val_be_nat)
qed

lemma sub_drop: "drop off b = xs @ rest \<Longrightarrow> length xs = n \<Longrightarrow> sub off n b = xs"
  by (simp add: sub_def)

text \<open>Behind a field of known length.\<close>

lemma drop_behind: "drop off b = xs @ rest \<Longrightarrow> length xs = n \<Longrightarrow> drop (off + n) b = rest"
  by (metis add.commute append_eq_conv_conj drop_drop)

lemma skip_selections_all:
  assumes "drop off body = concat (map selection sels) @ rest" "list_all (\<lambda>s. length (snd s) < 256) sels"
  shows "\<exists>off'. skip_selections body off (length sels) = Inr off' \<and> drop off' body = rest"
  using assms
proof (induction sels arbitrary: off)
  case (Cons s sels)
  let ?l = "length (snd s)" and ?more = "concat (map selection sels) @ rest"
  from Cons.prems have l: "?l < 256" by simp
  have alg: "drop (off + 2) body = of_nat ?l # snd s @ ?more"
    using drop_behind [of off body "be_nat 2 (fst s)" _ 2] Cons.prems by (simp add: selection_def [of s])
  have one: "be_nat 1 ?l = [of_nat ?l]" using l by simp
  have "unpack_from 1 body (off + 2) = Inr ?l"
    by (rule unpack_from_drop [where rest = "snd s @ ?more"]) (use alg l one in simp_all)
  moreover have "drop (off + 3 + ?l) body = ?more"
    using drop_behind [of "off + 2" body "of_nat ?l # snd s" ?more "1 + ?l"] alg by (simp add: numeral_3_eq_3)
  ultimately show ?case using Cons by simp
qed simp

lemma tpm2b_be_nat: "length m < 65536 \<Longrightarrow> tpm2b m = be_nat 2 (length m) @ m"
  by (simp add: tpm2b_def numeral_2_eq_2)

lemma parse_quote:
  assumes "quote_wf q"
  shows "parse_tpms_attest (tpm2b (quote_body q)) =
    Inr \<lparr>raw_body = quote_body q, extra_data = q_extra q, pcr_digest = q_digest q\<rparr>"
proof -
  let ?b = "quote_body q"
  from assms have len: "length ?b \<le> 1022" and fixed: "length (q_clock q) = 17" "length (q_firmware q) = 8"
    and sels: "list_all (\<lambda>s. length (snd s) < 256) (q_selections q)" by (simp_all add: quote_wf_def)
  have small: "length (q_name q) < 256 ^ 2" "length (q_extra q) < 256 ^ 2" "length (q_digest q) < 256 ^ 2"
    using len fixed by (simp_all add: quote_body_def)
  have "length sl \<le> length (concat (map selection sl))" for sl
    by (induction sl) (simp_all add: selection_def)
  from this [of "q_selections q"] have count: "length (q_selections q) < 256 ^ 4"
    using len fixed by (simp add: quote_body_def)
  have wrap: "tpm2b ?b = be_nat 2 (length ?b) @ ?b" using len by (simp add: tpm2b_be_nat)
  have "unpack_from 2 (tpm2b ?b) 0 = Inr (length ?b)"
    by (rule unpack_from_drop [where rest = ?b]) (use wrap len in simp_all)
  moreover have "sub 2 (length ?b) (tpm2b ?b) = ?b"
    using wrap by (simp add: sub_def)
  moreover have d0: "drop 0 ?b = be_nat 4 TPM_GENERATED_VALUE @ drop 4 ?b" by (simp add: quote_body_def)
  then have "unpack_from 4 ?b 0 = Inr TPM_GENERATED_VALUE" by (rule unpack_from_drop) simp_all
  moreover have "unpack_from 2 ?b 4 = Inr TPM_ST_ATTEST_QUOTE"
    by (rule unpack_from_drop [where rest = "drop 6 ?b"]) (simp_all add: quote_body_def)
  moreover have "unpack_from 2 ?b 6 = Inr (length (q_name q))"
    by (rule unpack_from_drop [where rest = "drop 8 ?b"]) (use small in \<open>simp_all add: quote_body_def\<close>)
  moreover
  let ?o1 = "8 + length (q_name q)"
  have d1: "drop ?o1 ?b = be_nat 2 (length (q_extra q)) @ q_extra q @ (q_clock q @ q_firmware q) @
      be_nat 4 (length (q_selections q)) @ concat (map selection (q_selections q)) @
      be_nat 2 (length (q_digest q)) @ q_digest q @ []"
    by (simp add: quote_body_def)
  have "unpack_from 2 ?b ?o1 = Inr (length (q_extra q))"
    by (rule unpack_from_drop [OF d1]) (use small in simp_all)
  moreover have d2: "drop (?o1 + 2) ?b = q_extra q @ (q_clock q @ q_firmware q) @
      be_nat 4 (length (q_selections q)) @ concat (map selection (q_selections q)) @
      be_nat 2 (length (q_digest q)) @ q_digest q @ []"
    by (rule drop_behind [OF d1]) simp
  then have "sub (?o1 + 2) (length (q_extra q)) ?b = q_extra q"
    by (rule sub_drop) simp
  moreover
  let ?o3 = "?o1 + 2 + length (q_extra q) + 17 + 8"
  have d3: "drop ?o3 ?b = be_nat 4 (length (q_selections q)) @ concat (map selection (q_selections q)) @
      be_nat 2 (length (q_digest q)) @ q_digest q @ []"
    using drop_behind [OF drop_behind [OF d2 refl], of 25] fixed by (simp add: ac_simps)
  have "unpack_from 4 ?b ?o3 = Inr (length (q_selections q))"
    by (rule unpack_from_drop [OF d3]) (use count in simp_all)
  moreover
  have "drop (?o3 + 4) ?b = concat (map selection (q_selections q)) @ be_nat 2 (length (q_digest q)) @ q_digest q @ []"
    by (rule drop_behind [OF d3]) simp
  from skip_selections_all [OF this sels]
  obtain o4 where o4: "skip_selections ?b (?o3 + 4) (length (q_selections q)) = Inr o4"
    and d4: "drop o4 ?b = be_nat 2 (length (q_digest q)) @ q_digest q @ []" by auto
  note o4
  moreover have "unpack_from 2 ?b o4 = Inr (length (q_digest q))"
    by (rule unpack_from_drop [OF d4]) (use small in simp_all)
  moreover have "sub (o4 + 2) (length (q_digest q)) ?b = q_digest q"
    by (rule sub_drop [OF drop_behind [OF d4]]) simp_all
  moreover have "2 \<le> length (tpm2b ?b)" using wrap by simp
  ultimately show ?thesis
    by (simp add: parse_tpms_attest_def Let_def require_def)
qed

lemma parse_signature:
  assumes "length r < 65536" "length s < 65536"
  shows "parse_tpmt_signature_ecdsa (ecdsa_signature r s) = Inr (be_val r, be_val s)"
proof -
  let ?b = "ecdsa_signature r s"
  have "unpack_from 2 ?b 0 = Inr TPM_ALG_ECDSA"
    by (rule unpack_from_drop [where rest = "drop 2 ?b"]) (simp_all add: ecdsa_signature_def)
  moreover have "unpack_from 2 ?b 4 = Inr (length r)"
    by (rule unpack_from_drop [where rest = "drop 6 ?b"]) (use assms in \<open>simp_all add: ecdsa_signature_def\<close>)
  moreover have d: "drop 6 ?b = r @ be_nat 2 (length s) @ s @ []" by (simp add: ecdsa_signature_def)
  from drop_behind [OF d refl] have d': "drop (6 + length r) ?b = be_nat 2 (length s) @ s @ []" .
  have "unpack_from 2 ?b (6 + length r) = Inr (length s)"
    by (rule unpack_from_drop [OF d']) (use assms in simp_all)
  moreover have "sub 6 (length r) ?b = r" by (rule sub_drop [OF d]) simp
  moreover have "sub (6 + length r + 2) (length s) ?b = s"
    by (rule sub_drop [OF drop_behind [OF d']]) simp_all
  moreover have "4 \<le> length ?b" by (simp add: ecdsa_signature_def)
  ultimately show ?thesis by (simp add: parse_tpmt_signature_ecdsa_def Let_def require_def)
qed

end
