(* ===== verification/Agreement.thy ===== *)
theory Agreement
  imports TaDispatch ServerLink Quote
begin

text \<open>
  The two ends of a session together: the trusted application and the verifier of the management
  server, with an honest Host between them that hands every field on. What the cryptography of the
  two sides has in common is \<open>common_crypto\<close>; with it an honest device is admitted, both ends hold the
  same key, and a message of the TA is a sample of the server.
\<close>

section \<open>One cryptography, two libraries\<close>

text \<open>
  SHA-256, HKDF, GCM and base64 are the same functions on both sides. ECDH between generated pairs
  gives one secret, and what a generated key signs is verified under its public point: the server
  reads a raw signature as two numbers and hashes the message itself.
\<close>

definition common_crypto :: "'e platform \<Rightarrow> 'w server_env \<Rightarrow> bool" where
  "common_crypto P E \<longleftrightarrow>
     v_sha256 E = p_sha256 P \<and>
     (\<forall>z salt info n. v_hkdf E z salt info n = p_hkdf P z salt info n) \<and>
     (\<forall>k n a p c tag. p_gcm P k n a p = (c, tag) \<longrightarrow> v_decrypt E k n (c @ tag) a = Some p) \<and>
     (\<forall>d. v_b64d E (v_b64e E d) = Some d) \<and>
     (\<forall>n w. length (fst (v_urandom E n w)) = n) \<and>
     (\<forall>key. key_made P key \<longrightarrow> v_on_curve E (device_point key)) \<and>
     (\<forall>w priv pub. fst (v_keygen E w) = (priv, pub) \<longrightarrow> length pub = 65 \<and> hd pub = 4) \<and>
     (\<forall>key w priv pub. key_made P key \<longrightarrow> fst (v_keygen E w) = (priv, pub) \<longrightarrow>
        p_ecdh P (ec_d key) (take 32 (drop 1 pub)) (drop 32 (drop 1 pub)) = Some (v_exchange E priv (device_point key))) \<and>
     (\<forall>key m e sig. key_made P key \<longrightarrow> fst (p_sign P (lpad 32 (ec_d key)) (p_sha256 P m) e) = Some sig \<longrightarrow>
        v_verify E (device_point key) m (be_val (take 32 sig)) (be_val (drop 32 sig)))"

lemma common_cryptoD:
  assumes "common_crypto P E"
  shows "v_sha256 E = p_sha256 P" "v_hkdf E z salt info n = p_hkdf P z salt info n"
    "p_gcm P k n' a p = (c, tag) \<Longrightarrow> v_decrypt E k n' (c @ tag) a = Some p"
    "v_b64d E (v_b64e E d) = Some d" "length (fst (v_urandom E n w)) = n"
    "key_made P key \<Longrightarrow> v_on_curve E (device_point key)"
    "fst (v_keygen E w) = (priv, pub) \<Longrightarrow> length pub = 65"
    "key_made P key \<Longrightarrow> fst (v_keygen E w) = (priv, pub) \<Longrightarrow>
      p_ecdh P (ec_d key) (take 32 (drop 1 pub)) (drop 32 (drop 1 pub)) = Some (v_exchange E priv (device_point key))"
    "key_made P key \<Longrightarrow> fst (p_sign P (lpad 32 (ec_d key)) (p_sha256 P m) e) = Some sig \<Longrightarrow>
      v_verify E (device_point key) m (be_val (take 32 sig)) (be_val (drop 32 sig))"
  using assms unfolding common_crypto_def by ((elim conjE, fastforce)+)

text \<open>A field the Host encodes and the server decodes.\<close>

lemma b64d_encoded [simp]: "common_crypto P E \<Longrightarrow> b64d E (PyStr (v_b64e E d)) = Inr d"
  by (simp add: b64d_def common_cryptoD(4))

section \<open>The challenge\<close>

text \<open>A challenge holds a pair the server generated and a nonce the evidence command accepts.\<close>

definition issued :: "'w server_env \<Rightarrow> pending_challenge \<Rightarrow> bool" where
  "issued E p \<longleftrightarrow> length (pc_nonce p) = 32 \<and> (\<exists>w. fst (v_keygen E w) = (pc_priv p, pc_pub p))"

lemma issue_challenge_issues:
  assumes "common_crypto P E" "run_state (issue_challenge E d) s = (Inr ch, t)"
  shows "\<exists>p. sv_pending t = (sv_pending s)(d \<mapsto> p) \<and> issued E p \<and> sv_registry t = sv_registry s \<and>
    sv_registry s d \<noteq> None \<and>
    ch = [(ascii ''nonce'', PyStr (v_b64e E (pc_nonce p))), (ascii ''server_ecdh_pub'', PyStr (v_b64e E (pc_pub p))),
      (ascii ''server_identity_pub'', PyStr (v_b64e E (snd (sv_identity s))))]"
proof -
  obtain n w1 where n: "v_urandom E 32 (sv_w s) = (n, w1)" by (metis prod.exhaust)
  obtain priv pub w2 where k: "v_keygen E w1 = ((priv, pub), w2)" by (metis prod.exhaust)
  obtain now w3 where tm: "v_time E w2 = (now, w3)" by (metis prod.exhaust)
  have "length n = 32" using common_cryptoD(5) [OF assms(1), of 32 "sv_w s"] n by simp
  moreover have "\<exists>w. fst (v_keygen E w) = (priv, pub)" using k by (intro exI [of _ w1]) simp
  ultimately show ?thesis
    using assms(2) n k tm
    by (intro exI [of _ "\<lparr>pc_nonce = n, pc_priv = priv, pc_pub = pub, pc_issued = now\<rparr>"])
      (auto simp: issue_challenge_def issued_def split: if_splits)
qed

section \<open>The same key on both ends\<close>

text \<open>What evidence over the challenge \<open>p\<close> leaves in the buffers the Host shares with the TA.\<close>

definition evidence_for :: "'e storage_view \<Rightarrow> 'e platform \<Rightarrow> pending_challenge \<Rightarrow> ec_key \<Rightarrow> 'e ta_state \<Rightarrow> bool" where
  "evidence_for V P p key t \<longleftrightarrow> key_fits key \<and> key_made P key \<and> ecdh_keypair (sess t) = Some key \<and>
     take 65 (shm t ! 0) = device_point key \<and>
     take 32 (shm t ! 3) = p_sha256 P (transcript_preimage (pc_nonce p) (pc_pub p) (device_point key)) \<and>
     (\<exists>c e. V (ext t) TA_IDENTITY_OBJID = Some c \<and> blob_wf (take 160 c) \<and>
        identity_sig P (take 160 c) (pc_nonce p) (pc_pub p) (device_point key) e = Some (take 64 (drop 32 (shm t ! 3))))"

lemma evidence_answers:
  assumes laws: "platform_laws V P" and quiet: "quiet_host P" and inv: "ta_inv V s" and ready: "cmd_ready s"
    and asked: "shm s ! 1 = pc_nonce p" "shm s ! 2 = pc_pub p"
    and run: "run_state (ta_generate_attestation_evidence P types) s = (Ret TEE_SUCCESS, t)"
  shows "\<exists>key. evidence_for V P p key t"
proof -
  have "evidence_of_copies V P s t"
    using wp_run [OF wp_ta_generate_attestation_evidence [OF laws inv ready] run] by (simp add: evidence_post_def)
  with quiet asked show ?thesis
    by (auto simp: evidence_of_copies_def evidence_ok_def evidence_for_def)
qed

lemma handshake_key:
  assumes laws: "platform_laws V P" and quiet: "quiet_host P" and inv: "ta_inv V u" and ready: "cmd_ready u"
    and given: "shm u ! 0 = pc_pub p" "shm u ! 1 = pc_nonce p" and kp: "ecdh_keypair (sess u) = Some key"
    and run: "run_state (ta_handshake_complete P types) u = (Ret TEE_SUCCESS, v)"
  shows "\<exists>z. p_ecdh P (ec_d key) (take 32 (drop 1 (pc_pub p))) (drop 32 (drop 1 (pc_pub p))) = Some z \<and>
    session_key (sess v) = p_hkdf P z (pc_nonce p) HKDF_INFO 32 \<and> session_key_valid (sess v) \<and> send_seq (sess v) = 0"
proof -
  have "handshake_ok V P u v"
    using wp_run [OF wp_ta_handshake_complete [OF laws inv ready] run] by (simp add: handshake_post_def)
  with quiet given kp show ?thesis by (auto simp: handshake_ok_def)
qed

lemma accepted_key:
  assumes "opens_session E d msg s sig t" "sv_pending s d = Some p" "b64d E (rs_device_ecdh_pub msg) = Inr pub"
  shows "\<exists>ex. sv_sessions t d =
    Some \<lparr>ds_key = v_hkdf E (v_exchange E (pc_priv p) pub) (pc_nonce p) HKDF_INFO 32, ds_expires = ex, ds_last_seq = 0\<rparr>"
  using assms by (auto simp: opens_session_def response_proves_def)

section \<open>An honest device is admitted\<close>

text \<open>The record of a device enrolled with its attestation key, its PCRs and the point its TA sealed.\<close>

definition enrolled :: "'e platform \<Rightarrow> 'w server_env \<Rightarrow> device_record \<Rightarrow> bytes \<Rightarrow> bytes \<Rightarrow> bytes \<Rightarrow> bytes \<Rightarrow> bool" where
  "enrolled P E record ak dg device_id blob \<longleftrightarrow>
     v_load_pem E (ak_pub_pem record) = EcKey ak \<and> recompute_pcr_digest E (expected_pcr record) = Inr dg \<and>
     0 < length device_id \<and> length device_id \<le> DEVICE_ID_MAX \<and> ta_pub_b64 record \<noteq> [] \<and>
     (\<exists>key. key_fits key \<and> key_made P key \<and> v_b64d E (ta_pub_b64 record) = Some (device_point key) \<and>
        blob = identity_blob (lpad 32 (ec_d key)) (lpad 32 (ec_x key)) (lpad 32 (ec_y key)) device_id)"

text \<open>
  The response an honest Host makes of the evidence: the TPM quotes the transcript hash it was given
  and signs the quote under the attestation key.
\<close>

definition honest_response ::
    "'w server_env \<Rightarrow> bytes \<Rightarrow> bytes \<Rightarrow> bytes \<Rightarrow> bytes \<Rightarrow> quote \<Rightarrow> bytes \<Rightarrow> bytes \<Rightarrow> bytes \<Rightarrow> response \<Rightarrow> bool" where
  "honest_response E ak dg device_pub block q r s text msg \<longleftrightarrow>
     quote_wf q \<and> q_extra q = take 32 block \<and> q_digest q = dg \<and> recompute_pcr_digest E text = Inr dg \<and>
     length r \<le> 32 \<and> length s \<le> 32 \<and> v_verify E ak (quote_body q) (be_val r) (be_val s) \<and>
     msg = \<lparr>rs_device_ecdh_pub = PyStr (v_b64e E device_pub), rs_quote = PyStr (v_b64e E (tpm2b (quote_body q))),
       rs_signature = PyStr (v_b64e E (ecdsa_signature r s)), rs_pcr_values = PyStr text,
       rs_ta_sig = PyStr (v_b64e E (take 64 (drop 32 block)))\<rparr>"

lemma honest_response_proves:
  assumes crypto: "common_crypto P E" and laws: "platform_laws V P"
    and blob: "V (ext t) TA_IDENTITY_OBJID = Some blob" "length blob = 160" and enr: "enrolled P E record ak dg device_id blob"
    and ev: "evidence_for V P p key t"
    and msg: "honest_response E ak dg (take 65 (shm t ! 0)) (take 96 (shm t ! 3)) q r s text msg"
    and room: "96 \<le> length (shm t ! 3)"
  shows "response_proves E record p device_id msg (device_point key)"
proof -
  note D = common_cryptoD [OF crypto]
  have block: "take 32 (take 96 (shm t ! 3)) = take 32 (shm t ! 3)"
    "take 64 (drop 32 (take 96 (shm t ! 3))) = take 64 (drop 32 (shm t ! 3))"
    by (simp_all add: drop_take)
  from ev have pub: "take 65 (shm t ! 0) = device_point key" and len: "length (device_point key) = 65"
    by (simp_all add: evidence_for_def)
  have parsed: "parse_tpms_attest (tpm2b (quote_body q)) =
      Inr \<lparr>raw_body = quote_body q, extra_data = q_extra q, pcr_digest = q_digest q\<rparr>"
    "parse_tpmt_signature_ecdsa (ecdsa_signature r s) = Inr (be_val r, be_val s)"
    using msg by (simp_all add: honest_response_def parse_quote parse_signature)
  have quote: "quote_proves E record p (device_point key) (tpm2b (quote_body q)) (ecdsa_signature r s) (rs_pcr_values msg)"
    using msg enr ev parsed
    by (simp add: quote_proves_def honest_response_def enrolled_def evidence_for_def block D)
  have ta: "ta_proves E record p device_id (device_point key) (take 64 (drop 32 (shm t ! 3)))"
  proof -
    from enr obtain k where k: "key_fits k" "key_made P k" "v_b64d E (ta_pub_b64 record) = Some (device_point k)"
      "blob = identity_blob (lpad 32 (ec_d k)) (lpad 32 (ec_x k)) (lpad 32 (ec_y k)) device_id"
      and id: "0 < length device_id" "length device_id \<le> DEVICE_ID_MAX" "ta_pub_b64 record \<noteq> []"
      by (auto simp: enrolled_def)
    have fields: "blob_d blob = lpad 32 (ec_d k)" "blob_id blob = device_id"
      using identity_blob_fields [of "lpad 32 (ec_d k)" "lpad 32 (ec_x k)" "lpad 32 (ec_y k)" device_id] k id
      by (simp_all add: key_fits_def)
    from ev blob obtain e where
      "identity_sig P blob (pc_nonce p) (pc_pub p) (device_point key) e = Some (take 64 (drop 32 (shm t ! 3)))"
      by (auto simp: evidence_for_def)
    with fields have "fst (p_sign P (lpad 32 (ec_d k)) (p_sha256 P (ta_identity_preimage device_id (pc_nonce p) (pc_pub p)
        (device_point key))) e) = Some (take 64 (drop 32 (shm t ! 3)))"
      by (simp add: identity_sig_def)
    from D(9) [OF k(2) this] D(6) [OF k(2)] k(3) id(3) show ?thesis
      by (simp add: ta_proves_def)
  qed
  show ?thesis
    unfolding response_proves_def
    using msg quote ta crypto len pub room by (simp add: honest_response_def block)
qed

section \<open>A message arrives\<close>

fun joined :: "bytes list \<Rightarrow> bytes" where
  "joined [] = []"
| "joined [x] = x"
| "joined (x # y # xs) = x @ ascii '','' @ joined (y # xs)"

text \<open>The text of a list of samples, and the object a JSON parser makes of it.\<close>

definition sample_json :: "int \<times> bytes \<Rightarrow> bytes" where
  "sample_json p = ascii ''{'' @ quoted (ascii ''value'') @ ascii '':'' @ dec_int (fst p) @ ascii '','' @
     quoted (ascii ''unit'') @ ascii '':'' @ quoted (snd p) @ ascii ''}''"

definition samples_json :: "(int \<times> bytes) list \<Rightarrow> bytes" where
  "samples_json ps = ascii ''{'' @ quoted (ascii ''samples'') @ ascii '':['' @ joined (map sample_json ps) @ ascii '']}''"

definition samples_py :: "(int \<times> bytes) list \<Rightarrow> py" where
  "samples_py ps = PyDict [(ascii ''samples'',
     PyList (map (\<lambda>p. PyDict [(ascii ''value'', PyInt (fst p)), (ascii ''unit'', PyStr (snd p))]) ps))]"

text \<open>The parser and \<open>float\<close> do this for the samples \<open>ps\<close>.\<close>

definition json_laws :: "'w server_env \<Rightarrow> (int \<times> bytes) list \<Rightarrow> bool" where
  "json_laws E ps \<longleftrightarrow> v_loads E (samples_json ps) = Some (samples_py ps) \<and>
     (\<forall>i. \<bar>i\<bar> < 2 ^ 53 \<longrightarrow> v_float E (PyInt i) = Inr (of_int i)) \<and> (\<forall>r. v_float E (PyFloat r) = Inr r)"

lemma reading_is_sample: "reading_json v u = samples_json [(v, c_string u)]"
  by (simp add: reading_json_def samples_json_def sample_json_def ascii_def)

text \<open>The sample the server makes of a value and a unit.\<close>

definition sample_at :: "bytes \<Rightarrow> rat \<Rightarrow> int \<times> bytes \<Rightarrow> sample" where
  "sample_at d now p = \<lparr>sm_ts = now, sm_value = of_int (fst p), sm_sensor = d @ ascii '':sensor'', sm_unit = snd p\<rparr>"

lemma samples_of_py:
  assumes "json_laws E qs" "list_all (\<lambda>p. \<bar>fst p\<bar> < 2 ^ 53) ps"
  shows "samples_of E d now (map (\<lambda>p. PyDict [(ascii ''value'', PyInt (fst p)), (ascii ''unit'', PyStr (snd p))]) ps) =
    Inr (map (sample_at d now) ps)"
proof -
  have keys: "ascii ''value'' \<noteq> ascii ''ts''" "ascii ''unit'' \<noteq> ascii ''ts''" "ascii ''value'' \<noteq> ascii ''unit''"
    "ascii ''value'' \<noteq> ascii ''sensor_id''" "ascii ''unit'' \<noteq> ascii ''sensor_id''" "ascii ''unit'' \<noteq> ascii ''value''"
    by (simp_all add: ascii_def)
  show ?thesis
    using assms(2)
    by (induction ps)
      (use assms(1) in \<open>auto simp: sample_of_def py_get_def py_item_def keys keys [symmetric] json_laws_def sample_at_def\<close>)
qed

text \<open>An opened message is committed: the counter advances, the samples are buffered and the verdict is good.\<close>

lemma commit_accepts:
  assumes json: "json_laws E ps" and small: "list_all (\<lambda>p. \<bar>fst p\<bar> < 2 ^ 53) ps"
    and sess: "sv_sessions s d = Some ss" "fst (v_time E (sv_w s)) \<le> ds_expires ss" "ds_last_seq ss < n"
    and n: "0 < n" "n \<le> 0xFFFFFFFF"
  shows "\<exists>t. run_state (on_data_commit E d now n (samples_json ps)) s = (Inr (), t) \<and>
    sv_sessions t = (sv_sessions s)(d \<mapsto> ss\<lparr>ds_last_seq := n\<rparr>) \<and>
    sl_buf t d = deque_extend (sl_buf s d) (map (sample_at d now) ps) \<and>
    (\<exists>v. sl_verdict t d = Some v \<and> vd_attested v \<and> vd_intact v)"
proof -
  have "v_loads E (samples_json ps) = Some (samples_py ps)"
    using json by (simp add: json_laws_def)
  moreover have "samples_of E d now (map (\<lambda>p. PyDict [(ascii ''value'', PyInt (fst p)), (ascii ''unit'', PyStr (snd p))]) ps) =
      Inr (map (sample_at d now) ps)"
    by (rule samples_of_py [OF json small])
  ultimately show ?thesis
    using sess n
    by (simp add: on_data_commit_def check_and_advance_seq_def set_verdict_def samples_py_def py_get_def)
qed

text \<open>The \<open>data\<close> message in which the Host hands on what the TA put out.\<close>

definition carries :: "'w server_env \<Rightarrow> 'e ta_state \<Rightarrow> (bytes \<times> py) list \<Rightarrow> bool" where
  "carries E t msg \<longleftrightarrow>
     and_then (py_item msg ''nonce'') (b64d E) = Inr (take 12 (shm t ! 0)) \<and>
     and_then (py_item msg ''ciphertext'') (b64d E) = Inr (take (psize t ! 1) (shm t ! 1)) \<and>
     py_item msg ''seq'' = Inr (PyInt (uint (fst (pvalue t ! 2))))"

lemma message_opens:
  assumes crypto: "common_crypto P E" and quiet: "quiet_host P" and ready: "cmd_ready s"
    and ok: "message_ok P s t" and carried: "carries E t msg"
    and seq: "0 < send_seq (sess t)" "send_seq (sess t) \<le> 0xffffffff"
  shows "on_data_open E (session_key (sess s)) msg =
    Inr (uint (send_seq (sess t)), take (reading_len (sess t)) (reading (sess t)))"
proof -
  from ok quiet obtain ct tag where
    gcm: "p_gcm P (session_key (sess s)) (take 12 (shm t ! 0)) (seq_aad (send_seq (sess t)))
       (take (reading_len (sess t)) (reading (sess t))) = (ct, tag)"
    and out: "take (length ct + 16) (shm t ! 1) = ct @ tag" "psize t = (psize s)[0 := 12, 1 := length ct + 16]"
      "pvalue t = (pvalue s)[2 := (ucast (send_seq (sess t)), 0)]"
    by (auto simp: message_ok_def)
  from ready have n: "length (psize s) = 4" "length (pvalue s) = 4"
    by (auto simp: cmd_ready_def)
  have val: "uint (ucast (send_seq (sess t)) :: u32) = uint (send_seq (sess t))"
  proof -
    have "unat (send_seq (sess t)) < 2 ^ 32" using seq(2) by (simp add: word_le_nat_alt)
    then have "unat (ucast (send_seq (sess t)) :: u32) = unat (send_seq (sess t))"
      by (simp add: unsigned_ucast_eq take_bit_nat_eq_self)
    then show ?thesis by (simp only: uint_nat)
  qed
  have pos: "0 < uint (send_seq (sess t))" "uint (send_seq (sess t)) \<le> 0xffffffff"
    using seq by (simp_all add: word_less_def word_le_def)
  from common_cryptoD(3) [OF crypto gcm]
  have dec: "v_decrypt E (session_key (sess s)) (take 12 (shm t ! 0)) (ct @ tag) (be_bytes 8 (send_seq (sess t))) =
      Some (take (reading_len (sess t)) (reading (sess t)))"
    by (simp add: seq_aad_def)
  show ?thesis
    using carried out n val pos dec by (simp add: on_data_open_def carries_def)
qed

lemma reading_frame_inj:
  assumes "encode_frame FRAME_READING (reading_payload v u) = encode_frame FRAME_READING (reading_payload v' u')"
    and "length u \<le> READING_UNIT_MAX" "length u' \<le> READING_UNIT_MAX"
  shows "v = v' \<and> u = u'"
proof -
  from assms(1) have "reading_payload v u = reading_payload v' u'"
    by (metis encode_frame_def length_frame_header append_eq_append_conv)
  with assms(2,3) show ?thesis
    using reading_payload_fields(3,4) [of u v] reading_payload_fields(3,4) [of u' v'] by simp
qed

text \<open>The next readings of the clock are at most \<open>x\<close>.\<close>

fun readings_until :: "'w server_env \<Rightarrow> nat \<Rightarrow> rat \<Rightarrow> 'w \<Rightarrow> bool" where
  "readings_until E 0 x w = True"
| "readings_until E (Suc n) x w = (fst (v_time E w) \<le> x \<and> readings_until E n x (snd (v_time E w)))"

text \<open>A message that opens, for a session that is not over, is committed.\<close>

lemma on_data_delivers:
  assumes json: "json_laws E ps" and small: "list_all (\<lambda>p. \<bar>fst p\<bar> < 2 ^ 53) ps"
    and sess: "sv_sessions s d = Some ss" "readings_until E 3 (ds_expires ss) (sv_w s)"
    and opened: "on_data_open E (ds_key ss) msg = Inr (n, samples_json ps)"
    and n: "ds_last_seq ss < n" "0 < n" "n \<le> 0xFFFFFFFF"
  shows "\<exists>t. run_state (on_data E d msg) s = (Inr (), t) \<and>
    sv_sessions t = (sv_sessions s)(d \<mapsto> ss\<lparr>ds_last_seq := n\<rparr>) \<and>
    sl_buf t d = deque_extend (sl_buf s d) (map (sample_at d (fst (v_time E (sv_w s)))) ps) \<and>
    (\<exists>v. sl_verdict t d = Some v \<and> vd_attested v \<and> vd_intact v)"
proof -
  let ?w1 = "snd (v_time E (sv_w s))"
  let ?u = "s\<lparr>sv_w := snd (v_time E ?w1)\<rparr>" and ?now = "fst (v_time E (sv_w s))"
  from sess have t: "fst (v_time E ?w1) \<le> ds_expires ss" "fst (v_time E (sv_w ?u)) \<le> ds_expires ss"
    by (simp_all add: numeral_3_eq_3)
  have first: "run_state (on_data_begin E d) s = ((?now, Some (ds_key ss)), ?u)"
    using sess(1) t(1) by (simp add: on_data_begin_def session_key_of_def)
  have same: "sv_sessions ?u d = Some ss" using sess(1) by simp
  from commit_accepts [OF json small same t(2) n, of ?now]
  obtain t where "run_state (on_data_commit E d ?now n (samples_json ps)) ?u = (Inr (), t)"
    "sv_sessions t = (sv_sessions ?u)(d \<mapsto> ss\<lparr>ds_last_seq := n\<rparr>)"
    "sl_buf t d = deque_extend (sl_buf ?u d) (map (sample_at d ?now) ps)"
    "\<exists>v. sl_verdict t d = Some v \<and> vd_attested v \<and> vd_intact v" by auto
  with first opened show ?thesis by (auto simp: on_data_def)
qed

text \<open>
  The text of a reading is not escaped: a unit of the sensor with a quote in it ends the sample and
  starts another one, and the server takes two samples from one reading.
\<close>

definition forged_unit :: bytes where
  "forged_unit = [34] @ ascii ''},{'' @ quoted (ascii ''value'') @ ascii '':7,'' @ quoted (ascii ''unit'') @ ascii '':'' @ [34] @ ascii ''C''"

lemma forged_unit_text:
  "length forged_unit \<le> READING_UNIT_MAX" "reading_json v forged_unit = samples_json [(v, []), (7, ascii ''C'')]"
proof -
  have "c_string forged_unit = forged_unit" by code_simp
  moreover have "dec_int 7 = ascii ''7''" by code_simp
  ultimately show "reading_json v forged_unit = samples_json [(v, []), (7, ascii ''C'')]"
    by (simp add: reading_json_def samples_json_def sample_json_def forged_unit_def quoted_def ascii_def)
  show "length forged_unit \<le> READING_UNIT_MAX" by code_simp
qed

end
