(* ===== verification/Interleaving.thy ===== *)
theory Interleaving
  imports ServerLink
begin

text \<open>
  The server under many connections. Each connection is a thread; what they share they touch in the
  atomic steps below, so a run of the process is some sequence of them, whichever thread each
  belongs to. \<open>server_run\<close> allows every such sequence, with the messages accepted so far: device, number of
  the session since the start, sequence number.
\<close>

section \<open>Atomic steps\<close>

type_synonym accepted = "(bytes \<times> nat \<times> int) list"

definition seq_of :: "py \<Rightarrow> int" where
  "seq_of q = (case q of PyInt n \<Rightarrow> n | _ \<Rightarrow> 0)"

inductive server_run :: "'w server_env \<Rightarrow> ('w, 'm) verifier_scheme \<Rightarrow> (bytes \<Rightarrow> nat) \<Rightarrow> accepted \<Rightarrow> bool"
  for E :: "'w server_env" where
  start: "sv_sessions s = Map.empty \<Longrightarrow> server_run E s (\<lambda>d. 0) []"
| advance: "server_run E s ep acc \<Longrightarrow> run_state (check_and_advance_seq E d q) s = (ok, t) \<Longrightarrow>
    server_run E t ep (if ok then acc @ [(d, ep d, seq_of q)] else acc)"
| store: "server_run E s ep acc \<Longrightarrow> run_state (store_session E d key) s = (u, t) \<Longrightarrow>
    server_run E t (ep(d := Suc (ep d))) acc"
| key: "server_run E s ep acc \<Longrightarrow> run_state (session_key_of E d) s = (k, t) \<Longrightarrow> server_run E t ep acc"
| other: "server_run E s ep acc \<Longrightarrow> sv_sessions t = sv_sessions s \<Longrightarrow> server_run E t ep acc"

text \<open>Of two messages of a device the later is of a later session, or of the same with a larger number.\<close>

definition later_message :: "bytes \<times> nat \<times> int \<Rightarrow> bytes \<times> nat \<times> int \<Rightarrow> bool" where
  "later_message a b \<longleftrightarrow> fst a = fst b \<longrightarrow>
     fst (snd a) < fst (snd b) \<or> fst (snd a) = fst (snd b) \<and> snd (snd a) < snd (snd b)"

definition counted :: "('w, 'm) verifier_scheme \<Rightarrow> (bytes \<Rightarrow> nat) \<Rightarrow> accepted \<Rightarrow> bool" where
  "counted s ep acc \<longleftrightarrow> sorted_wrt later_message acc \<and> (\<forall>(d, e, n) \<in> set acc. e \<le> ep d) \<and>
     (\<forall>d ss. sv_sessions s d = Some ss \<longrightarrow> (\<forall>e n. (d, e, n) \<in> set acc \<longrightarrow> e < ep d \<or> e = ep d \<and> n \<le> ds_last_seq ss))"

lemma check_and_advance_cases:
  assumes "run_state (check_and_advance_seq E d q) s = (ok, t)"
  shows "if ok then \<exists>n ss. q = PyInt n \<and> 0 < n \<and> n \<le> 0xFFFFFFFF \<and> sv_sessions s d = Some ss \<and> ds_last_seq ss < n \<and>
      sv_sessions t = (sv_sessions s)(d \<mapsto> ss\<lparr>ds_last_seq := n\<rparr>)
    else sv_sessions t = sv_sessions s"
  using assms by (auto simp: check_and_advance_seq_def split: py.splits if_splits option.splits)

lemma session_key_sessions:
  assumes "run_state (session_key_of E d) s = (k, t)"
  shows "sv_sessions t = sv_sessions s \<or> sv_sessions t = (sv_sessions s)(d := None)"
  using assms by (auto simp: session_key_of_def split: option.splits if_splits)

lemma server_run_counted: "server_run E s ep acc \<Longrightarrow> counted s ep acc"
proof (induction rule: server_run.induct)
  case (start s)
  then show ?case by (simp add: counted_def)
next
  case (advance s ep acc d q ok t)
  show ?case
  proof (cases ok)
    case True
    with check_and_advance_cases [OF advance.hyps(2)] obtain n ss where q: "q = PyInt n" "sv_sessions s d = Some ss"
      "ds_last_seq ss < n" "sv_sessions t = (sv_sessions s)(d \<mapsto> ss\<lparr>ds_last_seq := n\<rparr>)" by auto
    have old: "later_message (d', e, m) (d, ep d, n)" if "(d', e, m) \<in> set acc" for d' e m
      using advance.IH that q unfolding counted_def later_message_def by fastforce
    from advance.IH old True q show ?thesis
      by (auto simp: counted_def sorted_wrt_append seq_of_def split: if_splits) force+
  next
    case False
    with check_and_advance_cases [OF advance.hyps(2)] advance.IH show ?thesis
      by (simp add: counted_def)
  qed
next
  case (store s ep acc d key u t)
  then show ?case by (auto simp: counted_def store_session_run split: if_splits) (fastforce simp: less_Suc_eq_le)+
next
  case (key s ep acc d k t)
  have "sv_sessions t d' = Some ss \<Longrightarrow> sv_sessions s d' = Some ss" for d' ss
    using session_key_sessions [OF key.hyps(2)] by (auto split: if_splits)
  with key.IH show ?case unfolding counted_def by blast
next
  case (other s ep acc t)
  then show ?case by (simp add: counted_def)
qed

section \<open>The handlers are made of these steps\<close>

text \<open>From \<open>s\<close> to \<open>t\<close> by steps, whatever was accepted before.\<close>

definition steps_to :: "'w server_env \<Rightarrow> ('w, 'm) verifier_scheme \<Rightarrow> ('w, 'm) verifier_scheme \<Rightarrow> bool" where
  "steps_to E s t \<longleftrightarrow> (\<forall>ep acc. server_run E s ep acc \<longrightarrow> (\<exists>ep' new. server_run E t ep' (acc @ new)))"

interpretation steps: effect_order "steps_to E" for E :: "'w server_env"
proof
  fix s t u :: "('w, 'b) verifier_scheme"
  show "steps_to E s s" unfolding steps_to_def by (metis append_Nil2)
  assume "steps_to E s t" "steps_to E t u"
  then show "steps_to E s u" unfolding steps_to_def by (metis append.assoc)
qed

lemma bounded_case_sum:
  assumes "\<And>x. r = Inl x \<Longrightarrow> bounded R (f x)" "\<And>y. r = Inr y \<Longrightarrow> bounded R (g y)"
  shows "bounded R (case r of Inl x \<Rightarrow> f x | Inr y \<Rightarrow> g y)"
  using assms by (cases r) simp_all

lemma bounded_case_next:
  assumes "\<And>d. r = Stay d \<Longrightarrow> bounded R (f d)" "\<And>d. r = Leave d \<Longrightarrow> bounded R (g d)"
  shows "bounded R (case r of Stay d \<Rightarrow> f d | Leave d \<Rightarrow> g d)"
  using assms by (cases r) simp_all

lemma steps_other: "sv_sessions t = sv_sessions s \<Longrightarrow> steps_to E s t"
  unfolding steps_to_def by (metis append_Nil2 server_run.other)

lemma steps_srv_op: "bounded (steps_to E) (srv_op f)"
  by (simp add: bounded_def steps_other)

lemma steps_modify: "(\<And>s. sv_sessions (f s) = sv_sessions s) \<Longrightarrow> bounded (steps_to E) (modify f)"
  by (simp add: bounded_def steps_other)

lemma steps_advance: "bounded (steps_to E) (check_and_advance_seq E d q)"
proof (rule boundedI)
  fix s ok t
  assume run: "run_state (check_and_advance_seq E d q) s = (ok, t)"
  have "\<exists>ep' new. server_run E t ep' (acc @ new)" if "server_run E s ep acc" for ep acc
  proof (intro exI)
    show "server_run E t ep (acc @ (if ok then [(d, ep d, seq_of q)] else []))"
      using server_run.advance [OF that run] by (cases ok) simp_all
  qed
  then show "steps_to E s t" by (simp add: steps_to_def)
qed

lemma steps_key: "bounded (steps_to E) (session_key_of E d)"
  unfolding steps_to_def bounded_def by (metis append_Nil2 prod.collapse server_run.key)

lemma steps_store: "bounded (steps_to E) (store_session E d key)"
  unfolding steps_to_def bounded_def by (metis append_Nil2 prod.collapse server_run.store)

lemmas steps_intros = bounded_case_sum bounded_case_next steps_srv_op steps_modify steps_advance steps_key steps_store

lemma steps_verdict: "bounded (steps_to E) (set_verdict d a i n now)"
  unfolding set_verdict_def by (rule steps_modify) simp

lemma steps_issue: "bounded (steps_to E) (issue_challenge E d)"
  unfolding issue_challenge_def Let_def
  by (intro steps.bounded_rules steps_intros; simp)

lemma steps_verify: "bounded (steps_to E) (verify_and_derive E d r)"
  unfolding verify_and_derive_def take_challenge_def sign_server_identity_raw_def Let_def
  by (intro steps.bounded_rules steps_intros; simp)

lemma steps_commit: "bounded (steps_to E) (on_data_commit E d now n m)"
  unfolding on_data_commit_def
  by (intro steps.bounded_rules steps_intros steps_verdict; simp)

lemma steps_on_data: "bounded (steps_to E) (on_data E d msg)"
  unfolding on_data_def on_data_begin_def
  by (intro steps.bounded_rules steps_intros steps_verdict steps_commit; simp)

lemma steps_line: "bounded (steps_to E) (handle_line E dev line)"
  unfolding handle_line_def on_hello_def on_response_def Let_def
  by (intro steps.bounded_rules steps_intros steps_issue steps_verify steps_on_data; simp)

lemma steps_connection: "bounded (steps_to E) (handle_connection E dev lines)"
proof (induction lines arbitrary: dev)
  case Nil
  show ?case
    unfolding handle_connection.simps on_close_def
    by (intro steps.bounded_rules steps_intros steps_verdict)
next
  case (Cons l ls)
  show ?case
    unfolding handle_connection.simps on_close_def
    by (intro steps.bounded_rules steps_intros steps_verdict steps_line Cons.IH)
qed

end
