(* ===== verification/ServerFaults.thy ===== *)
theory ServerFaults
  imports Agreement Interleaving
begin

text \<open>
  What the server does when things go wrong: a message that arrives while its session is replaced,
  messages it rejects, responses it cannot parse, and strangers that speak in the name of a device.
\<close>

section \<open>A session replaced under a message\<close>

text \<open>
  \<open>_on_data\<close> takes the key under one lock and the sequence number under another. When a response of
  the same device is accepted in between, on another connection, a message of the old session is
  counted in the new one.
\<close>

lemma on_data_open_seq:
  assumes "on_data_open E k msg = Inr (n, m)"
  shows "0 < n \<and> n \<le> 0xFFFFFFFF"
proof -
  from assms obtain nonce ct q where q: "(case q of PyInt n \<Rightarrow> if n \<le> 0 \<or> n > 0xFFFFFFFF then Inl ValueError
         else (case v_decrypt E k nonce ct (be_bytes 8 (of_int n :: u64)) of
           None \<Rightarrow> Inl InvalidTag | Some plain \<Rightarrow> Inr (n, plain))
     | _ \<Rightarrow> Inl ValueError) = Inr (n, m)"
    unfolding on_data_open_def by (fastforce simp: and_then_Inr)
  then show ?thesis by (cases q) (auto split: if_splits option.splits)
qed

lemma commit_after_rekey:
  assumes json: "json_laws E ps" and small: "list_all (\<lambda>p. \<bar>fst p\<bar> < 2 ^ 53) ps"
    and opened: "on_data_open E old msg = Inr (n, samples_json ps)"
    and rekeyed: "opens_session E d r s sig t" and clock: "fst (v_time E (sv_w t)) \<le> ds_expires (the (sv_sessions t d))"
  shows "\<exists>u ss. run_state (on_data_commit E d now n (samples_json ps)) t = (Inr (), u) \<and>
    sv_sessions t d = Some ss \<and> ds_last_seq ss = 0 \<and> sv_sessions u d = Some (ss\<lparr>ds_last_seq := n\<rparr>) \<and>
    sl_buf u d = deque_extend (sl_buf t d) (map (sample_at d now) ps)"
proof -
  from rekeyed obtain ss where ss: "sv_sessions t d = Some ss" "ds_last_seq ss = 0"
    by (auto simp: opens_session_def)
  from on_data_open_seq [OF opened] have n: "ds_last_seq ss < n" "0 < n" "n \<le> 0xFFFFFFFF" using ss by simp_all
  have "fst (v_time E (sv_w t)) \<le> ds_expires ss" using clock ss by simp
  from commit_accepts [OF json small ss(1) this n, of now] ss show ?thesis by auto
qed

lemma seq_refused:
  assumes "sv_sessions s d = Some ss" "m \<le> ds_last_seq ss"
  shows "fst (run_state (check_and_advance_seq E d (PyInt m)) s) = False"
  using assms by (simp add: check_and_advance_seq_def)

section \<open>What the device is told\<close>

text \<open>A line that is a data message.\<close>

definition data_line :: "'w server_env \<Rightarrow> bytes \<Rightarrow> (bytes \<times> py) list \<Rightarrow> bool" where
  "data_line E line msg \<longleftrightarrow> v_loads E line = Some (PyDict msg) \<and> py_get msg ''type'' PyNone = PyStr (ascii ''data'')"

lemma data_line_handled:
  assumes "data_line E line msg" "d \<noteq> []"
  shows "run_state (handle_line E (Some d) line) s = (case run_state (on_data E d msg) s of
    (Inl x, t) \<Rightarrow> (([], Leave (Some d)), t) | (Inr u, t) \<Rightarrow> (([data_reply], Stay (Some d)), t))"
proof -
  have "ascii ''data'' \<noteq> ascii ''hello''" "ascii ''data'' \<noteq> ascii ''attest_response''" by (simp_all add: ascii_def)
  with assms show ?thesis
    by (simp add: handle_line_def data_line_def Let_def split: prod.splits sum.splits)
qed

text \<open>
  The clock is read once for the verdict, once when the key is looked up and once when the number
  is advanced; a session can expire before the second reading or between the second and the third.
\<close>

definition lookup_time :: "'w server_env \<Rightarrow> ('w, 'm) verifier_scheme \<Rightarrow> rat" where
  "lookup_time E s = fst (v_time E (snd (v_time E (sv_w s))))"

definition advance_time :: "'w server_env \<Rightarrow> ('w, 'm) verifier_scheme \<Rightarrow> rat" where
  "advance_time E s = fst (v_time E (snd (v_time E (snd (v_time E (sv_w s))))))"

text \<open>The message decrypts, to \<open>plain\<close> under number \<open>n\<close>, in the session \<open>ss\<close> found alive.\<close>

definition decrypts :: "'w server_env \<Rightarrow> bytes \<Rightarrow> (bytes \<times> py) list \<Rightarrow> 'w device_link \<Rightarrow> device_session \<Rightarrow> int \<Rightarrow> bytes \<Rightarrow> bool" where
  "decrypts E d msg s ss n plain \<longleftrightarrow> sv_sessions s d = Some ss \<and> lookup_time E s \<le> ds_expires ss \<and>
     on_data_open E (ds_key ss) msg = Inr (n, plain)"

text \<open>
  Every way in which a message is refused: there is no session, it has expired, the message does not
  decrypt, the session expires while it is decrypted, its number is old, or what it decrypts to is
  not JSON.
\<close>

datatype refusal = NoSession | Expired | BadMessage | ExpiredMeanwhile | OldSeq | BadPlaintext

fun refused :: "'w server_env \<Rightarrow> bytes \<Rightarrow> (bytes \<times> py) list \<Rightarrow> 'w device_link \<Rightarrow> refusal \<Rightarrow> bool" where
  "refused E d msg s NoSession = (sv_sessions s d = None)"
| "refused E d msg s Expired = (\<exists>ss. sv_sessions s d = Some ss \<and> ds_expires ss < lookup_time E s)"
| "refused E d msg s BadMessage = (\<exists>ss x. sv_sessions s d = Some ss \<and> lookup_time E s \<le> ds_expires ss \<and>
     on_data_open E (ds_key ss) msg = Inl x \<and> caught x)"
| "refused E d msg s ExpiredMeanwhile = (\<exists>ss n m. decrypts E d msg s ss n m \<and> ds_expires ss < advance_time E s)"
| "refused E d msg s OldSeq = (\<exists>ss n m. decrypts E d msg s ss n m \<and> advance_time E s \<le> ds_expires ss \<and> n \<le> ds_last_seq ss)"
| "refused E d msg s BadPlaintext = (\<exists>ss n m. decrypts E d msg s ss n m \<and> advance_time E s \<le> ds_expires ss \<and>
     ds_last_seq ss < n \<and> v_loads E m = None)"

text \<open>
  What a refusal does to the sessions: an expired one is dropped, and a message that is not JSON has
  used up its number by then; otherwise they stay as they are.
\<close>

fun sessions_after :: "'w server_env \<Rightarrow> bytes \<Rightarrow> (bytes \<times> py) list \<Rightarrow> 'w device_link \<Rightarrow> refusal \<Rightarrow> (bytes \<rightharpoonup> device_session)" where
  "sessions_after E d msg s Expired = (sv_sessions s)(d := None)"
| "sessions_after E d msg s BadPlaintext = (case sv_sessions s d of
     Some ss \<Rightarrow> (case on_data_open E (ds_key ss) msg of
       Inr (n, m) \<Rightarrow> (sv_sessions s)(d \<mapsto> ss\<lparr>ds_last_seq := n\<rparr>) | Inl x \<Rightarrow> sv_sessions s)
   | None \<Rightarrow> sv_sessions s)"
| "sessions_after E d msg s _ = sv_sessions s"

lemmas on_data_steps = on_data_def on_data_begin_def session_key_of_def set_verdict_def on_data_commit_def
  check_and_advance_seq_def decrypts_def lookup_time_def advance_time_def

lemma on_data_refused:
  assumes "refused E d msg s why"
  shows "\<exists>t v. run_state (on_data E d msg) s = (Inr (), t) \<and> sl_buf t = sl_buf s \<and>
    sv_sessions t = sessions_after E d msg s why \<and> sl_verdict t d = Some v \<and> \<not> vd_intact v"
  using assms
proof (cases why)
  case ExpiredMeanwhile
  with assms obtain ss n m where "decrypts E d msg s ss n m" "ds_expires ss < advance_time E s" by auto
  with ExpiredMeanwhile show ?thesis by (simp add: on_data_steps)
next
  case OldSeq
  with assms obtain ss n m where "decrypts E d msg s ss n m" "advance_time E s \<le> ds_expires ss" "n \<le> ds_last_seq ss" by auto
  with OldSeq show ?thesis by (simp add: on_data_steps)
next
  case BadPlaintext
  with assms obtain ss n m where m: "decrypts E d msg s ss n m" "advance_time E s \<le> ds_expires ss" "ds_last_seq ss < n"
    "v_loads E m = None" by auto
  then have "0 < n" "n \<le> 0xFFFFFFFF"
    using on_data_open_seq [of E "ds_key ss" msg n m] by (simp_all add: decrypts_def)
  with m BadPlaintext show ?thesis by (simp add: on_data_steps)
qed (auto simp: on_data_steps)

text \<open>A message that is handled without an exception and for which none of these holds is taken.\<close>

lemma on_data_taken:
  assumes run: "run_state (on_data E d msg) s = (Inr (), t)" and none: "\<And>why. \<not> refused E d msg s why"
  shows "\<exists>v. sl_verdict t d = Some v \<and> vd_intact v"
proof -
  note no = none [of NoSession] none [of Expired] none [of BadMessage] none [of ExpiredMeanwhile] none [of OldSeq]
    none [of BadPlaintext]
  obtain ss where ss: "sv_sessions s d = Some ss" "lookup_time E s \<le> ds_expires ss"
    using no(1,2) by (cases "sv_sessions s d") (auto simp: not_less)
  show ?thesis
  proof (cases "on_data_open E (ds_key ss) msg")
    case (Inl x)
    with no(3) ss have "\<not> caught x" by auto
    with run ss Inl show ?thesis by (simp add: on_data_steps)
  next
    case (Inr nm)
    then obtain n m where o: "on_data_open E (ds_key ss) msg = Inr (n, m)" by (cases nm) simp
    then have dec: "decrypts E d msg s ss n m" using ss by (simp add: decrypts_def)
    have live: "advance_time E s \<le> ds_expires ss" using no(4) dec by (fastforce simp: not_less)
    moreover have "ds_last_seq ss < n" using no(5) dec live by (fastforce simp: not_less)
    moreover from this have "v_loads E m \<noteq> None" using no(6) dec live by fastforce
    ultimately show ?thesis using run ss o on_data_open_seq [OF o]
      by (auto simp: on_data_steps split: if_splits sum.splits)
  qed
qed

section \<open>Responses that cannot be parsed\<close>

text \<open>A quote whose body is cut short, behind a size that fits.\<close>

lemma short_quote_raises:
  assumes "length body < 4"
  shows "parse_tpms_attest (tpm2b body) = Inl StructError"
proof -
  have "unpack_from 2 (tpm2b body) 0 = Inr (length body)"
    by (rule unpack_from_drop [where rest = body]) (use assms in \<open>simp_all add: tpm2b_be_nat\<close>)
  moreover have "sub 2 (length body) (tpm2b body) = body"
    using assms by (simp add: tpm2b_be_nat sub_def)
  ultimately show ?thesis
    using assms by (simp add: parse_tpms_attest_def require_def Let_def unpack_from_def tpm2b_be_nat)
qed

lemma unparsed_quote_leaves:
  assumes "sv_registry s d = Some rec" "sv_pending s d = Some p" "fst (v_time E (sv_w s)) - pc_issued p \<le> 30"
    and "response_fields msg = Inr r" "b64d E (rs_device_ecdh_pub r) = Inr pub" "length pub = 65"
    and "b64d E (rs_ta_sig r) = Inr sg" "length sg = 64" "b64d E (rs_signature r) = Inr q"
    and "b64d E (rs_quote r) = Inr raw" "parse_tpms_attest raw = Inl StructError"
  shows "\<exists>t. run_state (on_response E d msg) s = (([], Leave (Some d)), t) \<and> sv_pending t d = None \<and>
    sv_sessions t = sv_sessions s"
  using assms
  by (simp add: on_response_def verify_and_derive_def take_challenge_def check_attest_response_def check_quote_def
      require_def Let_def)

section \<open>Strangers\<close>

text \<open>
  A \<open>hello\<close> needs no proof. It replaces the challenge of the device it names, so the response the
  device is computing no longer matches; and when the connection of the stranger ends, the device
  counts as disconnected.
\<close>

lemma hello_replaces_challenge:
  assumes "sv_registry s d \<noteq> None" "d \<noteq> []" "py_get msg ''device_id'' PyNone = PyStr d"
  shows "\<exists>p ch t. run_state (on_hello E msg) s = (([PyDict ch], Stay (Some d)), t) \<and> sv_pending t = (sv_pending s)(d \<mapsto> p) \<and>
    pc_nonce p = fst (v_urandom E 32 (sv_w s)) \<and> sv_sessions t = sv_sessions s \<and> sv_registry t = sv_registry s"
  using assms by (auto simp: on_hello_def issue_challenge_def case_prod_beta)

lemma stale_response_refused:
  assumes "sv_pending s d = Some p" "quote_proves E rec q pub raw sg pcr"
    and "v_sha256 E (transcript_preimage (pc_nonce q) (pc_pub q) pub) \<noteq> v_sha256 E (transcript_preimage (pc_nonce p) (pc_pub p) pub)"
  shows "\<not> quote_proves E rec p pub raw sg pcr"
  using assms(2,3) by (auto simp: quote_proves_def)

end
