(* ===== verification/HostNet.thy ===== *)
theory HostNet
  imports HostPlatform
begin

text \<open>
  The device's TCP link (edge_device/host/net.c): connecting to the first address that
  answers, sending one line, receiving one line into a bounded buffer, closing.
\<close>

section \<open>Operations\<close>

record net_conn =
  net_fd :: int

text \<open>The loop over the addresses; it leaves \<open>fd\<close> negative when none answers.\<close>

fun try_addresses :: "('w, 'j) host_env \<Rightarrow> nat list \<Rightarrow> (('w, 'm) host_scheme, int) state" where
  "try_addresses H [] = State_Monad.return (- 1)"
| "try_addresses H (rp # rps) = do {
     fd \<leftarrow> env_op (env_socket H rp);
     if fd < 0 then (if rps = [] then State_Monad.return fd else try_addresses H rps)
     else do {
       rc \<leftarrow> env_op (env_connect H fd rp);
       if rc = 0 then State_Monad.return fd
       else do {
         env_do (env_close H fd);
         try_addresses H rps } } }"

definition net_connect ::
    "('w, 'j) host_env \<Rightarrow> bytes \<Rightarrow> u16 \<Rightarrow> net_conn \<Rightarrow> (('w, 'm) host_scheme, int \<times> net_conn) state" where
  "net_connect H host port conn = do {
     res \<leftarrow> env_op (env_getaddrinfo H host (take 7 (dec_nat (unat port))));
     case res of
       None \<Rightarrow> State_Monad.return (- 1, conn)
     | Some addrs \<Rightarrow> do {
         fd \<leftarrow> try_addresses H addrs;
         if fd < 0 then State_Monad.return (- 1, conn)
         else do {
           note_event (Connected fd);
           State_Monad.return (0, conn\<lparr>net_fd := fd\<rparr>) } } }"

text \<open>\<open>buf\<close> is what is left to send.\<close>

function send_all :: "('w, 'j) host_env \<Rightarrow> int \<Rightarrow> bytes \<Rightarrow> (('w, 'm) host_scheme, bool) state" where
  "send_all H fd buf =
     (if buf \<noteq> [] then do {
        n \<leftarrow> env_op (env_send H fd buf);
        if n \<le> 0 then State_Monad.return False
        else do {
          note_event (Tx fd (take (nat n) buf));
          send_all H fd (drop (nat n) buf) } }
      else State_Monad.return True)"
  by pat_completeness auto
termination
  by (relation "measure (\<lambda>(H, fd, buf). length buf)") auto

declare send_all.simps [simp del]

definition net_send_line :: "('w, 'j) host_env \<Rightarrow> net_conn \<Rightarrow> bytes \<Rightarrow> (('w, 'm) host_scheme, int) state" where
  "net_send_line H conn line = do {
     ok \<leftarrow> send_all H (net_fd conn) line;
     if \<not> ok then State_Monad.return (- 1)
     else do {
       n \<leftarrow> env_op (env_send H (net_fd conn) [10]);
       if n \<noteq> 1 then State_Monad.return (- 1)
       else do {
         note_event (Tx (net_fd conn) [10]);
         State_Monad.return 0 } } }"

text \<open>\<open>buf\<close> holds the \<open>i\<close> bytes stored so far.\<close>

function recv_loop :: "('w, 'j) host_env \<Rightarrow> int \<Rightarrow> nat \<Rightarrow> bytes \<Rightarrow> (('w, 'm) host_scheme, int \<times> bytes) state" where
  "recv_loop H fd buf_cap buf =
     (if length buf + 1 < buf_cap then do {
        (n, c) \<leftarrow> env_op (env_recv H fd);
        if n \<le> 0 then State_Monad.return (- 1, buf)
        else do {
          note_event (Rx fd c);
          if c = 10 then State_Monad.return (int (length buf), buf)
          else recv_loop H fd buf_cap (buf @ [c]) } }
      else State_Monad.return (- 1, buf))"
  by pat_completeness auto
termination
  by (relation "measure (\<lambda>(H, fd, cap, buf). cap - length buf)") auto

declare recv_loop.simps [simp del]

definition net_recv_line :: "('w, 'j) host_env \<Rightarrow> net_conn \<Rightarrow> nat \<Rightarrow> (('w, 'm) host_scheme, int \<times> bytes) state" where
  "net_recv_line H conn buf_cap =
     (if buf_cap = 0 then State_Monad.return (- 1, []) else recv_loop H (net_fd conn) buf_cap [])"

definition net_close :: "('w, 'j) host_env \<Rightarrow> net_conn \<Rightarrow> (('w, 'm) host_scheme, net_conn) state" where
  "net_close H conn =
     (if net_fd conn \<ge> 0 then do {
        env_do (env_close H (net_fd conn));
        note_event (Closed (net_fd conn));
        State_Monad.return (conn\<lparr>net_fd := - 1\<rparr>) }
      else State_Monad.return conn)"

section \<open>What they exchange\<close>

definition tx_bytes :: "int \<Rightarrow> host_event list \<Rightarrow> bytes" where
  "tx_bytes fd es = concat (map (\<lambda>e. case e of Tx f bs \<Rightarrow> if f = fd then bs else [] | _ \<Rightarrow> []) es)"

definition rx_bytes :: "int \<Rightarrow> host_event list \<Rightarrow> bytes" where
  "rx_bytes fd es = concat (map (\<lambda>e. case e of Rx f b \<Rightarrow> if f = fd then [b] else [] | _ \<Rightarrow> []) es)"

lemma tx_bytes_simps [simp]:
  "tx_bytes fd [] = []" "tx_bytes fd (xs @ ys) = tx_bytes fd xs @ tx_bytes fd ys"
  "tx_bytes fd [Tx fd bs] = bs" "tx_bytes fd [Rx g b] = []"
  by (simp_all add: tx_bytes_def)

lemma rx_bytes_simps [simp]:
  "rx_bytes fd [] = []" "rx_bytes fd (xs @ ys) = rx_bytes fd xs @ rx_bytes fd ys"
  "rx_bytes fd [Rx fd b] = [b]" "rx_bytes fd [Tx g bs] = []"
  by (simp_all add: rx_bytes_def)

lemma send_all_run:
  "run_state (send_all H fd buf) s = (ok, t) \<Longrightarrow>
   \<exists>k \<le> length buf. tx_bytes fd (log t) = tx_bytes fd (log s) @ take k buf \<and> (ok \<longleftrightarrow> k = length buf)"
proof (induction H fd buf arbitrary: s rule: send_all.induct)
  case (1 H fd buf)
  obtain n w where op: "env_send H fd buf (hw s) = (n, w)" by (metis prod.exhaust)
  show ?case
  proof (cases "buf = []")
    case True
    with "1.prems" show ?thesis by (simp add: send_all.simps [of H fd "[]"])
  next
    case ne: False
    show ?thesis
    proof (cases "n \<le> 0")
      case True
      with "1.prems" ne op show ?thesis
        by (intro exI [of _ 0]) (auto simp: send_all.simps [of H fd buf])
    next
      case False
      let ?u = "s\<lparr>hw := w, log := log s @ [Tx fd (take (nat n) buf)]\<rparr>"
      have run: "run_state (send_all H fd (drop (nat n) buf)) ?u = (ok, t)"
        using "1.prems" ne op False by (simp add: send_all.simps [of H fd buf])
      from "1.IH" [OF ne False run] obtain k where k: "k \<le> length (drop (nat n) buf)"
        "tx_bytes fd (log t) = tx_bytes fd (log s) @ take (nat n) buf @ take k (drop (nat n) buf)"
        "ok \<longleftrightarrow> k = length (drop (nat n) buf)" by auto
      have join: "take (nat n) buf @ take k (drop (nat n) buf) = take (nat n + k) buf"
        by (simp add: take_add)
      show ?thesis
      proof (cases "nat n \<le> length buf")
        case True
        with k join show ?thesis by (intro exI [of _ "nat n + k"]) auto
      next
        case False
        with k show ?thesis by (intro exI [of _ "length buf"]) auto
      qed
    qed
  qed
qed

lemma host_only_send_all [host_intros]: "bounded host_only (send_all H fd buf)"
proof (induction H fd buf rule: send_all.induct)
  case (1 H fd buf)
  show ?case
    unfolding send_all.simps [of H fd buf]
    by (intro host.bounded_rules host_intros "1.IH"; assumption)
qed

lemma host_only_send_line [host_intros]: "bounded host_only (net_send_line H conn line)"
  unfolding net_send_line_def by (intro host.bounded_rules host_intros)

lemma net_send_line_run:
  assumes "run_state (net_send_line H conn line) s = (rc, t)"
  shows "\<exists>k \<le> length line + 1. tx_bytes (net_fd conn) (log t) = tx_bytes (net_fd conn) (log s) @ take k (line @ [10]) \<and>
    (rc = (if k = length line + 1 then 0 else - 1))"
proof -
  obtain ok u where 1: "run_state (send_all H (net_fd conn) line) s = (ok, u)" by (metis prod.exhaust)
  from send_all_run [OF 1] obtain k where k: "k \<le> length line"
    "tx_bytes (net_fd conn) (log u) = tx_bytes (net_fd conn) (log s) @ take k line" "ok \<longleftrightarrow> k = length line"
    by blast
  show ?thesis
  proof (cases "ok \<and> fst (env_send H (net_fd conn) [10] (hw u)) = 1")
    case True
    with assms 1 k show ?thesis
      by (intro exI [of _ "length line + 1"]) (auto simp: net_send_line_def)
  next
    case False
    with assms 1 k show ?thesis
      by (intro exI [of _ k]) (auto simp: net_send_line_def split: if_splits)
  qed
qed

lemma recv_loop_run:
  "run_state (recv_loop H fd cap buf) s = ((rc, got), t) \<Longrightarrow> length buf < cap \<Longrightarrow>
   \<exists>d. got = buf @ d \<and> 10 \<notin> set d \<and> length got < cap \<and>
     (rc = int (length got) \<and> rx_bytes fd (log t) = rx_bytes fd (log s) @ d @ [10] \<or>
      rc = - 1 \<and> rx_bytes fd (log t) = rx_bytes fd (log s) @ d)"
proof (induction H fd cap buf arbitrary: s rule: recv_loop.induct)
  case (1 H fd cap buf)
  obtain n c w where op: "env_recv H fd (hw s) = ((n, c), w)" by (metis prod.exhaust)
  show ?case
  proof (cases "length buf + 1 < cap \<and> \<not> n \<le> 0 \<and> c \<noteq> 10")
    case False
    with "1.prems" op show ?thesis
      by (intro exI [of _ "[]"]) (auto simp: recv_loop.simps [of H fd cap buf] split: if_splits)
  next
    case True
    let ?u = "s\<lparr>hw := w, log := log s @ [Rx fd c]\<rparr>"
    have run: "run_state (recv_loop H fd cap (buf @ [c])) ?u = ((rc, got), t)"
      using "1.prems" op True by (simp add: recv_loop.simps [of H fd cap buf])
    from True have c: "length buf + 1 < cap" "\<not> n \<le> 0" "c \<noteq> 10" "length (buf @ [c]) < cap" by simp_all
    from "1.IH" [OF c(1-3) run c(4)] obtain d where "got = buf @ [c] @ d" "10 \<notin> set d"
      "length got < cap"
      "rc = int (length got) \<and> rx_bytes fd (log t) = rx_bytes fd (log s) @ [c] @ d @ [10] \<or>
       rc = - 1 \<and> rx_bytes fd (log t) = rx_bytes fd (log s) @ [c] @ d" by auto
    with c(3) show ?thesis by (intro exI [of _ "c # d"]) auto
  qed
qed

lemma host_only_recv_loop [host_intros]: "bounded host_only (recv_loop H fd cap buf)"
proof (induction H fd cap buf rule: recv_loop.induct)
  case (1 H fd cap buf)
  show ?case
    unfolding recv_loop.simps [of H fd cap buf]
    by (intro host.bounded_rules host_intros "1.IH"; (assumption | rule refl))
qed

lemma host_only_recv_line [host_intros]: "bounded host_only (net_recv_line H conn cap)"
  unfolding net_recv_line_def by (intro host.bounded_rules host_intros)

lemma recv_loop_line:
  assumes "recv_queue H q"
  shows "q (hw s) = line @ 10 # rest \<Longrightarrow> 10 \<notin> set line \<Longrightarrow> length buf + length line + 1 < cap \<Longrightarrow>
    \<exists>t. run_state (recv_loop H fd cap buf) s = ((int (length (buf @ line)), buf @ line), t) \<and> q (hw t) = rest"
proof (induction line arbitrary: s buf)
  case Nil
  then have "q (hw s) \<noteq> []" by simp
  with assms obtain w' where "env_recv H fd (hw s) = ((1, hd (q (hw s))), w')" "q w' = tl (q (hw s))"
    unfolding recv_queue_def by blast
  with Nil.prems show ?case by (simp add: recv_loop.simps [of H fd cap buf])
next
  case (Cons c line)
  from Cons.prems have "q (hw s) \<noteq> []" by simp
  with assms obtain w' where "env_recv H fd (hw s) = ((1, hd (q (hw s))), w')" "q w' = tl (q (hw s))"
    unfolding recv_queue_def by blast
  with Cons.prems(1) have w: "env_recv H fd (hw s) = ((1, c), w')" "q w' = line @ 10 # rest" by simp_all
  let ?u = "s\<lparr>hw := w', log := log s @ [Rx fd c]\<rparr>"
  have "\<exists>t. run_state (recv_loop H fd cap (buf @ [c])) ?u =
      ((int (length ((buf @ [c]) @ line)), (buf @ [c]) @ line), t) \<and> q (hw t) = rest"
    by (rule Cons.IH) (use Cons.prems w in auto)
  with Cons.prems w show ?case by (simp add: recv_loop.simps [of H fd cap buf])
qed

end
