(* ===== verification/HostEdge.thy ===== *)
theory HostEdge
  imports HostNet Attestation
begin

text \<open>
  The Host side of the device (edge_device/host/edge_device.c): its configuration, the calls
  into the TA, the JSON dialogue with the management server, and the rules for when a session
  is attested, kept and dropped. The variant without a TEE client library
  (\<open>CONFIDENTIAL_IOT_NATIVE\<close>) and the disabled self-registration are not modelled.
\<close>

section \<open>State\<close>

definition CIOT_LINE_MAX :: nat where [simp]: "CIOT_LINE_MAX = 16384"

text \<open>
  The file-scope variables, with their names. The three configured strings are held without
  terminator; their arrays have 64, 64 and 32 bytes.
\<close>

record 'w edge = "'w host" +
  g_device_id :: bytes
  g_server_host :: bytes
  g_server_port :: u16
  g_ak_handle :: bytes
  g_admin_port :: u16
  g_conn :: net_conn
  g_conn_open :: bool
  g_nonce :: bytes
  g_nonce_len :: nat
  g_server_ecdh_pub :: bytes
  g_server_identity_pub :: bytes
  g_server_sig :: bytes
  g_attested :: bool
  g_session_expiry :: int
  g_last_seq :: u32
  g_teec_open :: bool

definition edge_start :: "'w \<Rightarrow> 'w edge" where
  "edge_start w =
     \<lparr>hw = w, log = [], g_device_id = ascii ''iot-edge-01'', g_server_host = ascii ''127.0.0.1'',
      g_server_port = 9000, g_ak_handle = ascii ''0x8101000A'', g_admin_port = 8000,
      g_conn = \<lparr>net_fd = - 1\<rparr>, g_conn_open = False, g_nonce = zeros NONCE_MAX, g_nonce_len = 0,
      g_server_ecdh_pub = zeros ECDH_PUBKEY_SIZE, g_server_identity_pub = zeros ECDH_PUBKEY_SIZE,
      g_server_sig = zeros SERVER_SIG_SIZE, g_attested = False, g_session_expiry = 0, g_last_seq = 0,
      g_teec_open = False\<rparr>"

section \<open>Configuration\<close>

text \<open>One \<open>fgets\<close> into \<open>n\<close> bytes: up to and including the next newline, at most \<open>n - 1\<close> bytes.\<close>

definition fgets :: "nat \<Rightarrow> bytes \<Rightarrow> bytes" where
  "fgets n content = (let l = takeWhile (\<lambda>b. b \<noteq> 10) (take (n - 1) content) in
     if length l < min (n - 1) (length content) then l @ [10] else l)"

lemma fgets_prefix: "fgets n content = take (length (fgets n content)) content"
proof -
  let ?l = "takeWhile (\<lambda>b. b \<noteq> 10) (take (n - 1) content)"
  have pre: "take (length ?l) (take (n - 1) content) = ?l"
    by (metis takeWhile_eq_take)
  show ?thesis
  proof (cases "length ?l < min (n - 1) (length content)")
    case True
    then have "length ?l < length (take (n - 1) content)" by simp
    then have "take (n - 1) content ! length ?l = 10"
      using nth_length_takeWhile by blast
    with True pre show ?thesis
      by (simp add: fgets_def Let_def take_Suc_conv_app_nth)
  next
    case False
    then have "length (take (n - 1) content) \<le> length ?l" by (simp only: not_less length_take min.commute)
    then have "take (length ?l) (take (n - 1) content) = take (n - 1) content" by (rule take_all)
    with pre have l: "?l = take (n - 1) content" by simp
    from False have "fgets n content = ?l" by (simp only: fgets_def Let_def if_False)
    with l have "fgets n content = take (n - 1) content" by simp
    then show ?thesis by (simp add: min_def)
  qed
qed

lemma fgets_nonempty: "content \<noteq> [] \<Longrightarrow> 1 < n \<Longrightarrow> fgets n content \<noteq> []"
  proof -
  assume "content \<noteq> []" "1 < n"
  then have "0 < min (n - 1) (length content)" by simp
  then show ?thesis
    unfolding fgets_def Let_def by (metis append_is_Nil_conv list.distinct(1) list.size(3))
qed

function config_lines :: "bytes \<Rightarrow> bytes list" where
  "config_lines content =
     (if content = [] then []
      else fgets 256 content # config_lines (drop (length (fgets 256 content)) content))"
  by pat_completeness auto
termination
  by (relation "measure length") (auto simp: fgets_nonempty)

declare config_lines.simps [simp del]

definition apply_setting :: "bytes \<Rightarrow> bytes \<Rightarrow> 'w edge \<Rightarrow> 'w edge" where
  "apply_setting key val s =
     (if key = ascii ''device_id'' then s\<lparr>g_device_id := snprintf 64 val\<rparr>
      else if key = ascii ''server_host'' then s\<lparr>g_server_host := snprintf 64 val\<rparr>
      else if key = ascii ''server_port'' then s\<lparr>g_server_port := word_of_int (atoi val)\<rparr>
      else if key = ascii ''ak_handle'' then s\<lparr>g_ak_handle := snprintf 32 val\<rparr>
      else if key = ascii ''admin_port'' then s\<lparr>g_admin_port := word_of_int (atoi val)\<rparr>
      else s)"

text \<open>A line without \<open>=\<close> is skipped; the value ends at the newline.\<close>

definition config_line :: "bytes \<Rightarrow> 'w edge \<Rightarrow> 'w edge" where
  "config_line raw s = (let line = c_string raw; key = takeWhile (\<lambda>b. b \<noteq> 61) line in
     if key = line then s
     else apply_setting key (takeWhile (\<lambda>b. b \<noteq> 10) (drop (length key + 1) line)) s)"

definition from_env :: "('w, 'j) host_env \<Rightarrow> string \<Rightarrow> string \<Rightarrow> 'w edge \<Rightarrow> 'w edge" where
  "from_env H name key s = (case env_getenv H name of None \<Rightarrow> s | Some v \<Rightarrow> apply_setting (ascii key) v s)"

definition load_config :: "('w, 'j) host_env \<Rightarrow> ('w edge, unit) state" where
  "load_config H = do {
     f \<leftarrow> env_op (env_fopen H (ascii ''/etc/confidential_iot/device.conf''));
     (case f of None \<Rightarrow> State_Monad.return ()
      | Some content \<Rightarrow> modify (fold config_line (config_lines content)));
     modify (from_env H ''CIOT_DEVICE_ID'' ''device_id'');
     modify (from_env H ''CIOT_SERVER_HOST'' ''server_host'');
     modify (from_env H ''CIOT_SERVER_PORT'' ''server_port'');
     modify (from_env H ''CIOT_AK_HANDLE'' ''ak_handle'');
     modify (from_env H ''CIOT_ADMIN_PORT'' ''admin_port'') }"

section \<open>Start and end\<close>

definition edge_device_init :: "('w, 'j) host_env \<Rightarrow> ('w edge, int) state" where
  "edge_device_init H = do {
     load_config H;
     res \<leftarrow> env_op (env_teec_init H);
     if res \<noteq> TEE_SUCCESS then State_Monad.return (- 1)
     else do {
       res \<leftarrow> env_op (env_teec_open H);
       if res \<noteq> TEE_SUCCESS then do {
         env_do (env_teec_fini H);
         State_Monad.return (- 1) }
       else do {
         modify (\<lambda>s. s\<lparr>g_teec_open := True\<rparr>);
         State_Monad.return 0 } } }"

text \<open>The common part of shutting down and of resetting: close an open connection.\<close>

definition drop_connection :: "('w, 'j) host_env \<Rightarrow> ('w edge, unit) state" where
  "drop_connection H = do {
     is_open \<leftarrow> gets g_conn_open;
     if is_open then do {
       conn \<leftarrow> gets g_conn;
       conn \<leftarrow> net_close H conn;
       modify (\<lambda>s. s\<lparr>g_conn := conn, g_conn_open := False\<rparr>) }
     else State_Monad.return () }"

definition edge_device_shutdown :: "('w, 'j) host_env \<Rightarrow> ('w edge, unit) state" where
  "edge_device_shutdown H = do {
     drop_connection H;
     teec \<leftarrow> gets g_teec_open;
     if teec then do {
       env_do (env_teec_close H);
       env_do (env_teec_fini H);
       modify (\<lambda>s. s\<lparr>g_teec_open := False\<rparr>) }
     else State_Monad.return () }"

definition edge_reset_connection :: "('w, 'j) host_env \<Rightarrow> ('w edge, unit) state" where
  "edge_reset_connection H = do {
     drop_connection H;
     modify (\<lambda>s. s\<lparr>g_attested := False, g_session_expiry := 0\<rparr>) }"

section \<open>Calls into the TA\<close>

abbreviation no_params :: "op_param list" where
  "no_params \<equiv> [NoParam, NoParam, NoParam, NoParam]"

abbreviation no_types :: "ptype list" where
  "no_types \<equiv> [PT_NONE, PT_NONE, PT_NONE, PT_NONE]"

definition edge_authenticate_sensor :: "('w, 'j) host_env \<Rightarrow> ('w edge, int) state" where
  "edge_authenticate_sensor H = do {
     teec \<leftarrow> gets g_teec_open;
     if \<not> teec then State_Monad.return (- 1)
     else do {
       (res, ps) \<leftarrow> teec_invoke H CMD_AUTHENTICATE_SENSOR no_types no_params;
       State_Monad.return (if res = TEE_SUCCESS then 0 else - 1) } }"

definition edge_provision_sensor_secret :: "('w, 'j) host_env \<Rightarrow> ('w edge, int) state" where
  "edge_provision_sensor_secret H = do {
     teec \<leftarrow> gets g_teec_open;
     if \<not> teec then State_Monad.return (- 1)
     else do {
       (res, ps) \<leftarrow> teec_invoke H CMD_PROVISION_SENSOR_SECRET no_types no_params;
       State_Monad.return (if res = TEE_SUCCESS then 0 else - 1) } }"

definition edge_provision_ta_identity :: "('w, 'j) host_env \<Rightarrow> ('w edge, int \<times> bytes) state" where
  "edge_provision_ta_identity H = do {
     device_id \<leftarrow> gets g_device_id;
     teec \<leftarrow> gets g_teec_open;
     if \<not> teec then State_Monad.return (- 1, [])
     else if length device_id = 0 \<or> length device_id > DEVICE_ID_MAX then State_Monad.return (- 1, [])
     else do {
       (res, ps) \<leftarrow> teec_invoke H CMD_GENERATE_TA_IDENTITY [PT_MEMREF_INPUT, PT_MEMREF_OUTPUT, PT_NONE, PT_NONE]
         [TmpRef device_id (length device_id), TmpRef (zeros ECDH_PUBKEY_SIZE) ECDH_PUBKEY_SIZE, NoParam, NoParam];
       if res \<noteq> TEE_SUCCESS \<or> tmp_size (ps ! 1) \<noteq> ECDH_PUBKEY_SIZE then State_Monad.return (- 1, [])
       else State_Monad.return (0, tmp_buffer (ps ! 1)) } }"

text \<open>Output buffers start as zeros here; nothing reads them before the call has filled them.\<close>

definition ta_handshake_init :: "('w, 'j) host_env \<Rightarrow> ('w edge, (bytes \<times> bytes) option) state" where
  "ta_handshake_init H = do {
     teec \<leftarrow> gets g_teec_open;
     nonce \<leftarrow> gets g_nonce;
     nonce_len \<leftarrow> gets g_nonce_len;
     server_pub \<leftarrow> gets g_server_ecdh_pub;
     if \<not> teec then State_Monad.return None
     else do {
       (res, ps) \<leftarrow> teec_invoke H CMD_GENERATE_ATTESTATION_EVIDENCE
         [PT_MEMREF_OUTPUT, PT_MEMREF_INPUT, PT_MEMREF_INPUT, PT_MEMREF_OUTPUT]
         [TmpRef (zeros ECDH_PUBKEY_SIZE) ECDH_PUBKEY_SIZE, TmpRef nonce nonce_len, TmpRef server_pub ECDH_PUBKEY_SIZE,
          TmpRef (zeros EVIDENCE_BLOCK_SIZE) EVIDENCE_BLOCK_SIZE];
       if res \<noteq> TEE_SUCCESS \<or> tmp_size (ps ! 0) \<noteq> ECDH_PUBKEY_SIZE \<or> tmp_size (ps ! 3) \<noteq> EVIDENCE_BLOCK_SIZE
       then State_Monad.return None
       else State_Monad.return (Some (tmp_buffer (ps ! 0), tmp_buffer (ps ! 3))) } }"

definition ta_read_and_protect_encode :: "('w, 'j) host_env \<Rightarrow> nat \<Rightarrow> ('w edge, bytes option) state" where
  "ta_read_and_protect_encode H output_size = do {
     teec \<leftarrow> gets g_teec_open;
     if \<not> teec then State_Monad.return None
     else do {
       (res, ps) \<leftarrow> teec_invoke H CMD_READ_AND_PROTECT
         [PT_MEMREF_OUTPUT, PT_MEMREF_OUTPUT, PT_VALUE_OUTPUT, PT_NONE]
         [TmpRef (zeros 12) 12, TmpRef (zeros 512) 512, ValueRef 0 0, NoParam];
       if res \<noteq> TEE_SUCCESS \<or> tmp_size (ps ! 0) \<noteq> 12 then State_Monad.return None
       else do {
         modify (\<lambda>s. s\<lparr>g_last_seq := value_a (ps ! 2)\<rparr>);
         if tmp_size (ps ! 0) + tmp_size (ps ! 1) > 12 + 512 then State_Monad.return None
         else State_Monad.return (b64_encode H output_size
           (take (tmp_size (ps ! 0)) (tmp_buffer (ps ! 0)) @ take (tmp_size (ps ! 1)) (tmp_buffer (ps ! 1)))) } } }"

definition edge_call_ta :: "('w, 'j) host_env \<Rightarrow> nat \<Rightarrow> ('w edge, bytes option) state" where
  "edge_call_ta H output_size = ta_read_and_protect_encode H output_size"

definition edge_handshake :: "('w, 'j) host_env \<Rightarrow> ('w edge, int) state" where
  "edge_handshake H = do {
     attested \<leftarrow> gets g_attested;
     teec \<leftarrow> gets g_teec_open;
     nonce \<leftarrow> gets g_nonce;
     nonce_len \<leftarrow> gets g_nonce_len;
     server_pub \<leftarrow> gets g_server_ecdh_pub;
     identity_pub \<leftarrow> gets g_server_identity_pub;
     sig \<leftarrow> gets g_server_sig;
     if \<not> attested then State_Monad.return (- 1)
     else if \<not> teec then State_Monad.return (- 1)
     else do {
       (res, ps) \<leftarrow> teec_invoke H CMD_HANDSHAKE_COMPLETE
         [PT_MEMREF_INPUT, PT_MEMREF_INPUT, PT_MEMREF_INPUT, PT_MEMREF_INPUT]
         [TmpRef server_pub ECDH_PUBKEY_SIZE, TmpRef nonce nonce_len, TmpRef identity_pub ECDH_PUBKEY_SIZE,
          TmpRef sig SERVER_SIG_SIZE];
       State_Monad.return (if res = TEE_SUCCESS then 0 else - 1) } }"

section \<open>Messages\<close>

text \<open>Building an object: creation and every member may run out of memory.\<close>

fun json_add :: "('w, 'j) host_env \<Rightarrow> json_field list \<Rightarrow> json_field list \<Rightarrow> (('w, 'm) host_scheme, json_field list option) state" where
  "json_add H msg [] = State_Monad.return (Some msg)"
| "json_add H msg (f # fs) = do {
     ok \<leftarrow> env_op (env_alloc H);
     if \<not> ok then State_Monad.return None else json_add H (msg @ [f]) fs }"

definition json_object :: "('w, 'j) host_env \<Rightarrow> json_field list \<Rightarrow> (('w, 'm) host_scheme, json_field list option) state" where
  "json_object H members = do {
     ok \<leftarrow> env_op (env_alloc H);
     if \<not> ok then State_Monad.return None else json_add H [] members }"

definition send_json_line :: "('w, 'j) host_env \<Rightarrow> json_field list option \<Rightarrow> ('w edge, int) state" where
  "send_json_line H msg = (case msg of
     None \<Rightarrow> State_Monad.return (- 1)
   | Some members \<Rightarrow> do {
       note_event (Message members);
       text \<leftarrow> env_op (env_print H members);
       case text of
         None \<Rightarrow> State_Monad.return (- 1)
       | Some text \<Rightarrow> do {
           conn \<leftarrow> gets g_conn;
           net_send_line H conn (c_string text) } })"

text \<open>One line from the server, parsed.\<close>

definition recv_message :: "('w, 'j) host_env \<Rightarrow> ('w edge, 'j option) state" where
  "recv_message H = do {
     conn \<leftarrow> gets g_conn;
     (n, line) \<leftarrow> net_recv_line H conn CIOT_LINE_MAX;
     if n < 0 then State_Monad.return None else env_op (env_parse H (c_string line)) }"

text \<open>\<open>strstr (text, pat) != NULL\<close>.\<close>

fun contains :: "bytes \<Rightarrow> bytes \<Rightarrow> bool" where
  "contains pat [] = (pat = [])"
| "contains pat (x # xs) = (take (length pat) (x # xs) = pat \<or> contains pat xs)"

section \<open>Attestation\<close>

definition attest_connect :: "('w, 'j) host_env \<Rightarrow> ('w edge, int) state" where
  "attest_connect H = do {
     modify (\<lambda>s. s\<lparr>g_attested := False\<rparr>);
     is_open \<leftarrow> gets g_conn_open;
     if is_open then State_Monad.return 0
     else do {
       host \<leftarrow> gets g_server_host;
       port \<leftarrow> gets g_server_port;
       conn \<leftarrow> gets g_conn;
       (rc, conn) \<leftarrow> net_connect H host port conn;
       modify (\<lambda>s. s\<lparr>g_conn := conn\<rparr>);
       if rc \<noteq> 0 then State_Monad.return (- 1)
       else do {
         modify (\<lambda>s. s\<lparr>g_conn_open := True\<rparr>);
         State_Monad.return 0 } } }"

definition attest_hello :: "('w, 'j) host_env \<Rightarrow> ('w edge, int) state" where
  "attest_hello H = do {
     device_id \<leftarrow> gets g_device_id;
     msg \<leftarrow> json_object H [JString ''type'' (ascii ''hello''), JString ''device_id'' device_id];
     case msg of
       None \<Rightarrow> State_Monad.return (- 1)
     | Some members \<Rightarrow> send_json_line H (Some members) }"

text \<open>
  A base64 member decoded into a buffer of \<open>n\<close> bytes that it has to fill; a shorter one has
  overwritten the start of the buffer by then.
\<close>

definition decode_fixed ::
    "('w, 'j) host_env \<Rightarrow> 'j \<Rightarrow> string \<Rightarrow> nat \<Rightarrow> ((bytes \<Rightarrow> bytes) \<Rightarrow> 'w edge \<Rightarrow> 'w edge) \<Rightarrow> ('w edge, int) state" where
  "decode_fixed H j name n upd = (case j_string H j name of
     None \<Rightarrow> State_Monad.return (- 1)
   | Some text \<Rightarrow> (case b64_decode H n text of
       Undecoded olen \<Rightarrow> State_Monad.return (- 1)
     | Decoded d \<Rightarrow> do {
         modify (upd (splice 0 d));
         if length d \<noteq> n then State_Monad.return (- 1) else State_Monad.return 0 }))"

definition decode_nonce :: "('w, 'j) host_env \<Rightarrow> 'j \<Rightarrow> ('w edge, int) state" where
  "decode_nonce H j = (case j_string H j ''nonce'' of
     None \<Rightarrow> State_Monad.return (- 1)
   | Some text \<Rightarrow> (case b64_decode H NONCE_MAX text of
       Undecoded olen \<Rightarrow> do {
         modify (\<lambda>s. case olen of None \<Rightarrow> s | Some n \<Rightarrow> s\<lparr>g_nonce_len := n\<rparr>);
         State_Monad.return (- 1) }
     | Decoded d \<Rightarrow> do {
         modify (\<lambda>s. s\<lparr>g_nonce := splice 0 d (g_nonce s), g_nonce_len := length d\<rparr>);
         State_Monad.return 0 }))"

definition server_error :: "('w, 'j) host_env \<Rightarrow> 'j \<Rightarrow> int" where
  "server_error H j = (case j_string H j ''error'' of
     None \<Rightarrow> - 1
   | Some e \<Rightarrow> if contains (ascii ''not registered'') e then - 2 else - 1)"

definition read_challenge :: "('w, 'j) host_env \<Rightarrow> ('w edge, int) state" where
  "read_challenge H = do {
     msg \<leftarrow> recv_message H;
     case msg of
       None \<Rightarrow> State_Monad.return (- 1)
     | Some j \<Rightarrow>
         if j_string H j ''type'' = Some (ascii ''error'') then State_Monad.return (server_error H j)
         else do {
           rc \<leftarrow> decode_nonce H j;
           if rc \<noteq> 0 then State_Monad.return (- 1)
           else do {
             rc \<leftarrow> decode_fixed H j ''server_ecdh_pub'' ECDH_PUBKEY_SIZE g_server_ecdh_pub_update;
             if rc \<noteq> 0 then State_Monad.return (- 1)
             else do {
               rc \<leftarrow> decode_fixed H j ''server_identity_pub'' ECDH_PUBKEY_SIZE g_server_identity_pub_update;
               if rc \<noteq> 0 then State_Monad.return (- 1) else State_Monad.return 0 } } } }"

text \<open>The evidence of the TA, the quote over its first half, and the message that carries both.\<close>

definition attest_respond :: "('w, 'j) host_env \<Rightarrow> ('w edge, int) state" where
  "attest_respond H = do {
     r \<leftarrow> ta_handshake_init H;
     case r of
       None \<Rightarrow> State_Monad.return (- 1)
     | Some (device_pub, evidence) \<Rightarrow> do {
         ak_handle \<leftarrow> gets g_ak_handle;
         (rc, ev) \<leftarrow> create_attestation_report H evidence ak_handle
           \<lparr>quote_b64 = [], signature_b64 = [], pcr_values_text = []\<rparr>;
         if rc \<noteq> 0 then State_Monad.return (- 1)
         else case b64_encode H 128 device_pub of
           None \<Rightarrow> State_Monad.return (- 1)
         | Some device_pub_b64 \<Rightarrow> (case b64_encode H 128 (sub TRANSCRIPT_HASH_SIZE TA_SIG_SIZE evidence) of
             None \<Rightarrow> State_Monad.return (- 1)
           | Some ta_sig_b64 \<Rightarrow> do {
               device_id \<leftarrow> gets g_device_id;
               msg \<leftarrow> json_object H
                 [JString ''type'' (ascii ''attest_response''), JString ''device_id'' device_id,
                  JString ''device_ecdh_pub'' device_pub_b64, JString ''quote'' (quote_b64 ev),
                  JString ''signature'' (signature_b64 ev), JString ''pcr_values'' (c_string (pcr_values_text ev)),
                  JString ''ta_sig'' ta_sig_b64];
               case msg of
                 None \<Rightarrow> State_Monad.return (- 1)
               | Some members \<Rightarrow> send_json_line H (Some members) }) } }"

definition mono_now :: "('w, 'j) host_env \<Rightarrow> ('w edge, int) state" where
  "mono_now H = do {
     r \<leftarrow> env_op (env_monotonic H);
     case r of Some t \<Rightarrow> State_Monad.return t | None \<Rightarrow> env_op (env_time H) }"

definition session_ttl :: "('w, 'j) host_env \<Rightarrow> 'j \<Rightarrow> int" where
  "session_ttl H j = (case j_number H j ''session_ttl'' of None \<Rightarrow> 300 | Some v \<Rightarrow> if v > 0 then v else 300)"

definition read_result :: "('w, 'j) host_env \<Rightarrow> ('w edge, int) state" where
  "read_result H = do {
     msg \<leftarrow> recv_message H;
     case msg of
       None \<Rightarrow> State_Monad.return (- 1)
     | Some j \<Rightarrow> do {
         now \<leftarrow> mono_now H;
         modify (\<lambda>s. s\<lparr>g_session_expiry := now + session_ttl H j\<rparr>);
         if \<not> j_is_true H j ''ok'' then State_Monad.return (- 1)
         else do {
           rc \<leftarrow> decode_fixed H j ''server_sig'' SERVER_SIG_SIZE g_server_sig_update;
           if rc \<noteq> 0 then State_Monad.return (- 1)
           else do {
             modify (\<lambda>s. s\<lparr>g_attested := True\<rparr>);
             State_Monad.return 0 } } } }"

definition edge_attest_to_server :: "('w, 'j) host_env \<Rightarrow> ('w edge, int) state" where
  "edge_attest_to_server H = do {
     rc \<leftarrow> attest_connect H;
     if rc \<noteq> 0 then State_Monad.return (- 1)
     else do {
       rc \<leftarrow> attest_hello H;
       if rc \<noteq> 0 then State_Monad.return (- 1)
       else do {
         rc \<leftarrow> read_challenge H;
         if rc \<noteq> 0 then State_Monad.return rc
         else do {
           rc \<leftarrow> attest_respond H;
           if rc \<noteq> 0 then State_Monad.return (- 1)
           else read_result H } } } }"

section \<open>Sessions and data\<close>

definition edge_ensure_session :: "('w, 'j) host_env \<Rightarrow> ('w edge, int) state" where
  "edge_ensure_session H = do {
     attested \<leftarrow> gets g_attested;
     expiry \<leftarrow> gets g_session_expiry;
     now \<leftarrow> (if attested then mono_now H else State_Monad.return 0);
     if attested \<and> now < expiry then State_Monad.return 0
     else do {
       rc \<leftarrow> edge_attest_to_server H;
       if rc = - 2 then State_Monad.return (- 1)
       else if rc \<noteq> 0 then State_Monad.return (- 1)
       else do {
         rc \<leftarrow> edge_handshake H;
         if rc \<noteq> 0 then State_Monad.return (- 1) else State_Monad.return 0 } } }"

definition edge_send_sensor_data_to_server :: "('w, 'j) host_env \<Rightarrow> bytes \<Rightarrow> ('w edge, int) state" where
  "edge_send_sensor_data_to_server H protected_data = do {
     is_open \<leftarrow> gets g_conn_open;
     attested \<leftarrow> gets g_attested;
     if \<not> is_open \<or> \<not> attested then State_Monad.return (- 1)
     else case b64_decode H 600 protected_data of
       Undecoded olen \<Rightarrow> State_Monad.return (- 1)
     | Decoded raw \<Rightarrow>
         if length raw < 12 then State_Monad.return (- 1)
         else (case b64_encode H 32 (take 12 raw) of
           None \<Rightarrow> State_Monad.return (- 1)
         | Some nonce_b64 \<Rightarrow> (case b64_encode H 900 (drop 12 raw) of
             None \<Rightarrow> State_Monad.return (- 1)
           | Some ct_b64 \<Rightarrow> do {
               device_id \<leftarrow> gets g_device_id;
               seq \<leftarrow> gets g_last_seq;
               msg \<leftarrow> json_object H
                 [JString ''type'' (ascii ''data''), JString ''device_id'' device_id, JNumber ''seq'' seq,
                  JString ''nonce'' nonce_b64, JString ''ciphertext'' ct_b64];
               case msg of
                 None \<Rightarrow> State_Monad.return (- 1)
               | Some members \<Rightarrow> send_json_line H (Some members) })) }"

end
