(* ===== verification/HostMain.thy ===== *)
theory HostMain
  imports HostEdge
begin

text \<open>
  The Host's main program (edge_device/host/main.c): the two provisioning modes, the start-up
  and the push loop, which ends only with the process; and the order of events it guarantees
  on any device, network and server.
\<close>

section \<open>The program\<close>

definition CIOT_PUSH_INTERVAL_DEFAULT :: nat where [simp]: "CIOT_PUSH_INTERVAL_DEFAULT = 3"

text \<open>\<open>Stdout\<close> records what goes to standard output; messages to standard error are not modelled.\<close>

definition provision_sensor_secret_mode :: "('w, 'j) host_env \<Rightarrow> ('w edge, int) state" where
  "provision_sensor_secret_mode H = do {
     rc \<leftarrow> edge_device_init H;
     if rc \<noteq> 0 then State_Monad.return 1
     else do {
       rc \<leftarrow> edge_provision_sensor_secret H;
       (if rc = 0 then note_event (Stdout (ascii ''edge_device: sensor secret provisioned'' @ [10]))
        else State_Monad.return ());
       edge_device_shutdown H;
       State_Monad.return (if rc = 0 then 0 else 1) } }"

definition provision_ta_identity_mode :: "('w, 'j) host_env \<Rightarrow> ('w edge, int) state" where
  "provision_ta_identity_mode H = do {
     rc \<leftarrow> edge_device_init H;
     if rc \<noteq> 0 then State_Monad.return 1
     else do {
       (rc, pub) \<leftarrow> edge_provision_ta_identity H;
       ret \<leftarrow> (if rc \<noteq> 0 then State_Monad.return 1
         else case b64_encode H 128 pub of
           None \<Rightarrow> State_Monad.return 1
         | Some b64 \<Rightarrow> do {
             note_event (Stdout (b64 @ [10]));
             State_Monad.return 0 });
       edge_device_shutdown H;
       State_Monad.return ret } }"

datatype main_pc = Starting | Pushing nat | Finished int

definition push_interval :: "('w, 'j) host_env \<Rightarrow> nat" where
  "push_interval H = (case env_getenv H ''CIOT_PUSH_INTERVAL'' of
     None \<Rightarrow> CIOT_PUSH_INTERVAL_DEFAULT
   | Some v \<Rightarrow> if atoi v > 0 then nat (atoi v) else CIOT_PUSH_INTERVAL_DEFAULT)"

definition main_start :: "('w, 'j) host_env \<Rightarrow> bytes list \<Rightarrow> ('w edge, main_pc) state" where
  "main_start H args =
     (if args = [ascii ''--provision-sensor-secret''] then do {
        ret \<leftarrow> provision_sensor_secret_mode H;
        State_Monad.return (Finished ret) }
      else if args = [ascii ''--provision-ta-identity''] then do {
        ret \<leftarrow> provision_ta_identity_mode H;
        State_Monad.return (Finished ret) }
      else do {
        rc \<leftarrow> edge_device_init H;
        if rc \<noteq> 0 then State_Monad.return (Finished 1)
        else do {
          rc \<leftarrow> edge_provision_sensor_secret H;
          rc \<leftarrow> edge_authenticate_sensor H;
          if rc \<noteq> 0 then do {
            edge_device_shutdown H;
            State_Monad.return (Finished 1) }
          else do {
            note_event (Stdout (ascii ''edge_device: starting push loop (interval='' @
              dec_nat (push_interval H) @ ascii ''s)'' @ [10]));
            State_Monad.return (Pushing (push_interval H)) } } })"

definition push_iter :: "('w, 'j) host_env \<Rightarrow> nat \<Rightarrow> ('w edge, main_pc) state" where
  "push_iter H interval = do {
     rc \<leftarrow> edge_ensure_session H;
     if rc \<noteq> 0 then do {
       edge_reset_connection H;
       env_do (env_sleep H interval);
       State_Monad.return (Pushing interval) }
     else do {
       r \<leftarrow> edge_call_ta H 512;
       case r of
         None \<Rightarrow> do {
           env_do (env_sleep H interval);
           State_Monad.return (Pushing interval) }
       | Some protected_data \<Rightarrow> do {
           rc \<leftarrow> edge_send_sensor_data_to_server H protected_data;
           if rc \<noteq> 0 then do {
             edge_reset_connection H;
             env_do (env_sleep H interval);
             State_Monad.return (Pushing interval) }
           else do {
             note_event (Stdout (ascii ''edge_device: pushed sensor reading'' @ [10]));
             env_do (env_sleep H interval);
             State_Monad.return (Pushing interval) } } } }"

fun main_step :: "('w, 'j) host_env \<Rightarrow> bytes list \<Rightarrow> main_pc \<Rightarrow> ('w edge, main_pc) state" where
  "main_step H args Starting = main_start H args"
| "main_step H args (Pushing interval) = push_iter H interval"
| "main_step H args (Finished rc) = State_Monad.return (Finished rc)"

inductive main_reach :: "('w, 'j) host_env \<Rightarrow> bytes list \<Rightarrow> main_pc \<Rightarrow> 'w edge \<Rightarrow> bool"
  for H :: "('w, 'j) host_env" and args :: "bytes list" where
  start: "main_reach H args Starting (edge_start w)"
| step: "main_reach H args pc s \<Longrightarrow> run_state (main_step H args pc) s = (pc', s') \<Longrightarrow> main_reach H args pc' s'"

section \<open>The order of events\<close>

text \<open>
  A session is live when the last word about keys was a successful handshake: no new evidence
  was requested, no handshake failed and the connection was not replaced since.
\<close>

fun alive :: "bool \<Rightarrow> host_event \<Rightarrow> bool" where
  "alive b (Connected fd) = False"
| "alive b (Closed fd) = False"
| "alive b (Invoked c ps r qs) =
     (if c = CMD_HANDSHAKE_COMPLETE then r = TEE_SUCCESS else if c = CMD_GENERATE_ATTESTATION_EVIDENCE then False else b)"
| "alive b _ = b"

definition live :: "host_event list \<Rightarrow> bool" where
  "live es = foldl alive False es"

lemma live_append [simp]: "live (xs @ [e]) = alive (live xs) e"
  by (simp add: live_def)

lemma alive_low_level: "low_level e \<Longrightarrow> alive b e = b"
  by (cases e) simp_all

lemma live_low_level: "list_all low_level es \<Longrightarrow> live (xs @ es) = live xs"
proof (induction es rule: rev_induct)
  case (snoc e es)
  then show ?case by (simp add: alive_low_level flip: append_assoc)
qed simp

fun is_data :: "host_event \<Rightarrow> bool" where
  "is_data (Message (JString name v # ms)) = (v = ascii ''data'')"
| "is_data _ = False"

text \<open>
  A data message may follow \<open>xs\<close>: the session is live, and the message carries what the TA
  returned from the command just before it, nonce, ciphertext and counter.
\<close>

definition data_ok :: "('w, 'j) host_env \<Rightarrow> host_event list \<Rightarrow> host_event \<Rightarrow> bool" where
  "data_ok H xs e \<longleftrightarrow> live xs \<and>
     (\<exists>zs ps qs device_id n64 c64. xs = zs @ [Invoked CMD_READ_AND_PROTECT ps TEE_SUCCESS qs] \<and>
        b64_encode H 32 (tmp_buffer (qs ! 0)) = Some n64 \<and>
        b64_encode H 900 (take (tmp_size (qs ! 1)) (tmp_buffer (qs ! 1))) = Some c64 \<and>
        e = Message [JString ''type'' (ascii ''data''), JString ''device_id'' device_id,
          JNumber ''seq'' (value_a (qs ! 2)), JString ''nonce'' n64, JString ''ciphertext'' c64])"

definition events_ok :: "('w, 'j) host_env \<Rightarrow> host_event list \<Rightarrow> bool" where
  "events_ok H es \<longleftrightarrow> (\<forall>i < length es. is_data (es ! i) \<longrightarrow> data_ok H (take i es) (es ! i))"

lemma events_ok_Nil [simp]: "events_ok H []"
  by (simp add: events_ok_def)

lemma events_ok_snoc [simp]: "events_ok H (es @ [e]) \<longleftrightarrow> events_ok H es \<and> (is_data e \<longrightarrow> data_ok H es e)"
  by (auto simp: events_ok_def nth_append less_Suc_eq)

definition calm_events :: "host_event list \<Rightarrow> bool" where
  "calm_events es = list_all (\<lambda>e. \<not> is_data e) es"

lemma events_ok_calm: "calm_events es \<Longrightarrow> events_ok H (xs @ es) = events_ok H xs"
proof (induction es rule: rev_induct)
  case (snoc e es)
  then show ?case by (simp add: calm_events_def flip: append_assoc)
qed simp

lemma calm_low_level: "list_all low_level es \<Longrightarrow> calm_events es"
  unfolding calm_events_def list_all_iff
proof
  fix e
  assume "\<forall>x \<in> set es. low_level x" "e \<in> set es"
  then have "low_level e" by blast
  then show "\<not> is_data e" by (cases e) simp_all
qed

definition calm :: "'w edge \<Rightarrow> 'w edge \<Rightarrow> bool" where
  "calm s t \<longleftrightarrow> (\<exists>es. log t = log s @ es \<and> calm_events es)"

interpretation calm: effect_order calm
proof
  fix s t u :: "'w edge"
  show "calm s s" by (simp add: calm_def calm_events_def)
  assume "calm s t" "calm t u"
  then show "calm s u" by (fastforce simp: calm_def calm_events_def)
qed

named_theorems calm_intros "calls that send no data message"

lemma calm_host_only: "bounded host_only m \<Longrightarrow> bounded calm m"
  by (erule bounded_mono) (auto simp: calm_def dest!: host_only_log intro: calm_low_level)

lemma calm_modify [calm_intros]: "(\<And>s. log (f s) = log s) \<Longrightarrow> bounded calm (modify f)"
  by (rule calm.bounded_modify) (simp add: calm_def calm_events_def)

lemma calm_note [calm_intros]: "\<not> is_data e \<Longrightarrow> bounded calm (note_event e)"
  by (simp add: bounded_def calm_def calm_events_def)

lemma calm_invoke [calm_intros]: "bounded calm (teec_invoke H cmd types ps :: ('w edge, _) state)"
  by (auto simp: bounded_def teec_invoke_def calm_def calm_events_def split: prod.splits)

lemma host_only_json_add [host_intros]: "bounded host_only (json_add H msg fs)"
proof (induction fs arbitrary: msg)
  case (Cons f fs)
  then show ?case by (simp, intro host.bounded_rules host_intros)
qed (simp add: host.bounded_return)

lemma host_only_json_object [host_intros]: "bounded host_only (json_object H fs)"
  unfolding json_object_def by (intro host.bounded_rules host_intros)

lemma host_only_try [host_intros]: "bounded host_only (try_addresses H addrs)"
proof (induction addrs)
  case (Cons rp rps)
  then show ?case by (simp split del: if_split, intro host.bounded_rules host_intros)
qed (simp add: host.bounded_return)

lemma host_only_mono_now [host_intros]: "bounded host_only (mono_now H)"
  unfolding mono_now_def by (intro host.bounded_rules host_intros)

lemma host_only_recv [host_intros]: "bounded host_only (recv_message H)"
  unfolding recv_message_def by (intro host.bounded_rules host_intros)

lemmas calm_lower [calm_intros] =
  host_only_env_op [THEN calm_host_only] host_only_env_do [THEN calm_host_only]
  host_only_send_line [THEN calm_host_only] host_only_recv_line [THEN calm_host_only]
  host_only_json_object [THEN calm_host_only] host_only_report [THEN calm_host_only]
  host_only_mono_now [THEN calm_host_only] host_only_recv [THEN calm_host_only]
  host_only_try [THEN calm_host_only]

lemmas calm_rules = calm.bounded_rules calm_intros

lemma calm_net_connect [calm_intros]: "bounded calm (net_connect H host port conn)"
  unfolding net_connect_def by (intro calm_rules; simp)

lemma calm_net_close [calm_intros]: "bounded calm (net_close H conn)"
  unfolding net_close_def by (intro calm_rules; simp)

lemma calm_drop [calm_intros]: "bounded calm (drop_connection H)"
  unfolding drop_connection_def by (intro calm_rules calm_net_close; simp)

lemma calm_reset [calm_intros]: "bounded calm (edge_reset_connection H)"
  unfolding edge_reset_connection_def by (intro calm_rules calm_drop; simp)

lemma calm_shutdown [calm_intros]: "bounded calm (edge_device_shutdown H)"
  unfolding edge_device_shutdown_def by (intro calm_rules calm_drop; simp)

lemma log_setting [simp]:
  "log (apply_setting k v s) = log s" "log (from_env H n m s) = log s" "log (config_line l s) = log s"
  by (simp_all add: apply_setting_def from_env_def config_line_def Let_def split: option.splits)

lemma log_fold_config [simp]: "log (fold config_line ls s) = log s"
  by (induction ls arbitrary: s) simp_all

lemma calm_init [calm_intros]: "bounded calm (edge_device_init H)"
  unfolding edge_device_init_def load_config_def by (intro calm_rules; simp)

lemma calm_ta_calls [calm_intros]:
  "bounded calm (edge_authenticate_sensor H)" "bounded calm (edge_provision_sensor_secret H)"
  "bounded calm (edge_provision_ta_identity H)" "bounded calm (ta_handshake_init H)" "bounded calm (edge_handshake H)"
  unfolding edge_authenticate_sensor_def edge_provision_sensor_secret_def edge_provision_ta_identity_def
    ta_handshake_init_def edge_handshake_def
  by (intro calm_rules)+

lemma calm_send_json:
  assumes "\<And>ms. msg = Some ms \<Longrightarrow> \<not> is_data (Message ms)"
  shows "bounded calm (send_json_line H msg)"
  using assms unfolding send_json_line_def by (intro calm_rules; simp)

lemma json_add_run:
  "run_state (json_add H msg fs) s = (r, t) \<Longrightarrow> (r = None \<or> r = Some (msg @ fs)) \<and> (\<exists>w. t = s\<lparr>hw := w\<rparr>)"
proof (induction fs arbitrary: msg s)
  case Nil
  then show ?case by (auto intro: exI [of _ "hw s"])
next
  case (Cons f fs)
  show ?case
  proof (cases "fst (env_alloc H (hw s))")
    case True
    with Cons.prems have "run_state (json_add H (msg @ [f]) fs) (s\<lparr>hw := snd (env_alloc H (hw s))\<rparr>) = (r, t)" by simp
    from Cons.IH [OF this] show ?thesis by auto
  next
    case False
    with Cons.prems show ?thesis by auto
  qed
qed

lemma json_object_run:
  "run_state (json_object H fs) s = (r, t) \<Longrightarrow> (r = None \<or> r = Some fs) \<and> (\<exists>w. t = s\<lparr>hw := w\<rparr>)"
  by (auto simp: json_object_def dest!: json_add_run split: if_splits)

lemma calm_send_object:
  assumes "\<not> is_data (Message fs)"
  shows "bounded calm (json_object H fs \<bind> (\<lambda>msg. case msg of
    None \<Rightarrow> State_Monad.return rc | Some ms \<Rightarrow> send_json_line H (Some ms)))"
proof (rule boundedI)
  fix s r t
  assume run: "run_state (json_object H fs \<bind> (\<lambda>msg. case msg of
    None \<Rightarrow> State_Monad.return rc | Some ms \<Rightarrow> send_json_line H (Some ms))) s = (r, t)"
  obtain m u where o: "run_state (json_object H fs) s = (m, u)" by (metis prod.exhaust)
  have 1: "calm s u" by (rule boundedD [OF _ o]) (rule calm_intros)
  from json_object_run [OF o, THEN conjunct1] show "calm s t"
  proof
    assume "m = None"
    with run o 1 show ?thesis by simp
  next
    assume "m = Some fs"
    with run o have "run_state (send_json_line H (Some fs)) u = (r, t)" by simp
    then have "calm u t" by (rule boundedD [OF calm_send_json, rotated]) (use assms in simp)
    with 1 show ?thesis by (rule calm.R_trans)
  qed
qed

lemma calm_attest_parts:
  "bounded calm (attest_connect H)" "bounded calm (attest_hello H)" "bounded calm (read_challenge H)"
  "bounded calm (attest_respond H)" "bounded calm (read_result H)"
proof -
  have fixed: "bounded calm (decode_fixed H j name n upd)" if "\<And>f s. log (upd f s) = log s" for j name n upd
    using that unfolding decode_fixed_def by (auto split: option.splits b64_result.splits intro!: calm_rules)
  have nonce: "bounded calm (decode_nonce H j)" for j
    unfolding decode_nonce_def by (auto split: option.splits b64_result.splits intro!: calm_rules)
  show "bounded calm (attest_connect H)"
    unfolding attest_connect_def by (intro calm_rules calm_net_connect; simp)
  show "bounded calm (attest_hello H)"
    unfolding attest_hello_def by (rule calm.bounded_bind, rule calm.bounded_gets, rule calm_send_object)
      (auto dest: arg_cong [where f = length])
  show "bounded calm (read_challenge H)"
    unfolding read_challenge_def by (intro calm_rules fixed nonce; simp)
  show "bounded calm (read_result H)"
    unfolding read_result_def by (intro calm_rules fixed; simp)
  show "bounded calm (attest_respond H)"
    unfolding attest_respond_def
    by (intro calm_ta_calls(4) calm_send_object calm_lower calm.bounded_gets calm.bounded_if calm.bounded_return
        calm.bounded_case_option calm.bounded_case_prod calm.bounded_bind [of "ta_handshake_init H"]
        calm.bounded_bind [of "gets _"] calm.bounded_bind [of "create_attestation_report H _ _ _"])
      (auto dest: arg_cong [where f = length])
qed

lemma calm_attest: "bounded calm (edge_attest_to_server H)"
  unfolding edge_attest_to_server_def by (intro calm_rules calm_attest_parts)

lemma calm_ensure: "bounded calm (edge_ensure_session H)"
  unfolding edge_ensure_session_def by (intro calm_rules calm_attest calm_ta_calls)

section \<open>Who attests\<close>

definition kept :: "'w edge \<Rightarrow> 'w edge \<Rightarrow> bool" where
  "kept s t \<longleftrightarrow> g_attested t = g_attested s"

interpretation kept: effect_order kept
  by unfold_locales (simp_all add: kept_def)

lemma kept_host_only: "bounded host_only m \<Longrightarrow> bounded kept m"
  by (erule bounded_mono) (auto simp: kept_def host_only_def)

named_theorems kept_intros "calls that leave the attested flag alone"

lemmas kept_lower [kept_intros] =
  host_only_env_op [THEN kept_host_only] host_only_env_do [THEN kept_host_only]

lemma kept_modify [kept_intros]: "(\<And>s. g_attested (f s) = g_attested s) \<Longrightarrow> bounded kept (modify f)"
  by (rule kept.bounded_modify) (simp add: kept_def)

lemma kept_note [kept_intros]: "bounded kept (note_event e)"
  by (simp add: bounded_def kept_def)

lemma kept_invoke [kept_intros]: "bounded kept (teec_invoke H cmd types ps :: ('w edge, _) state)"
  by (auto simp: bounded_def teec_invoke_def kept_def split: prod.splits)

lemma kept_setting [simp]:
  "g_attested (apply_setting k v s) = g_attested s" "g_attested (from_env H n m s) = g_attested s"
  "g_attested (config_line l s) = g_attested s"
  by (simp_all add: apply_setting_def from_env_def config_line_def Let_def split: option.splits)

lemma kept_fold_config [simp]: "g_attested (fold config_line ls s) = g_attested s"
  by (induction ls arbitrary: s) simp_all

lemma kept_start:
  "bounded kept (edge_device_init H)" "bounded kept (edge_authenticate_sensor H)"
  "bounded kept (edge_provision_sensor_secret H)" "bounded kept (edge_device_shutdown H)"
  unfolding edge_device_init_def load_config_def edge_authenticate_sensor_def edge_provision_sensor_secret_def
    edge_device_shutdown_def drop_connection_def net_close_def
  by (intro kept.bounded_rules kept_intros; simp)+

section \<open>One round of the loop\<close>

lemma events_ok_grows: "calm s t \<Longrightarrow> events_ok H (log s) \<Longrightarrow> events_ok H (log t)"
  by (auto simp: calm_def events_ok_calm)

lemma ensure_live:
  assumes "run_state (edge_ensure_session H) s = (rc, t)" and inv: "g_attested s \<longrightarrow> live (log s)" and "rc = 0"
  shows "live (log t)"
proof (cases "g_attested s \<and> fst (run_state (mono_now H) s) < g_session_expiry s")
  case True
  obtain now u where m: "run_state (mono_now H) s = (now, u)" by (metis prod.exhaust)
  then have "host_only s u" by (rule boundedD [OF host_only_mono_now])
  then have "live (log u) = live (log s)" by (auto dest!: host_only_log simp: live_low_level)
  moreover have "t = u" using assms(1) True m by (simp add: edge_ensure_session_def)
  ultimately show ?thesis using True inv by simp
next
  case False
  obtain rc1 u v where a: "run_state (edge_attest_to_server H) u = (rc1, v)" and
    h: "run_state (edge_handshake H) v = (0, t)"
  proof (cases "g_attested s")
    case True
    obtain now u where m: "run_state (mono_now H) s = (now, u)" by (metis prod.exhaust)
    obtain rc1 v where a: "run_state (edge_attest_to_server H) u = (rc1, v)" by (metis prod.exhaust)
    obtain rc2 w where h: "run_state (edge_handshake H) v = (rc2, w)" by (metis prod.exhaust)
    from assms(1,3) True False m a h have "rc2 = 0" "w = t"
      by (auto simp: edge_ensure_session_def split: if_splits)
    with a h that show thesis by blast
  next
    case no: False
    obtain rc1 v where a: "run_state (edge_attest_to_server H) s = (rc1, v)" by (metis prod.exhaust)
    obtain rc2 w where h: "run_state (edge_handshake H) v = (rc2, w)" by (metis prod.exhaust)
    from assms(1,3) no a h have "rc2 = 0" "w = t"
      by (auto simp: edge_ensure_session_def split: if_splits)
    with a h that show thesis by blast
  qed
  from h show ?thesis
    by (auto simp: edge_handshake_def teec_invoke_def split: if_splits prod.splits)
qed

lemma call_ta_run:
  assumes "run_state (edge_call_ta H n) s = (r, t)"
  shows "calm s t \<and> (live (log s) \<longrightarrow> live (log t))"
    and "teec_laws H \<Longrightarrow> r = Some d \<Longrightarrow> \<exists>ps qs. log t = log s @ [Invoked CMD_READ_AND_PROTECT ps TEE_SUCCESS qs] \<and>
      g_last_seq t = value_a (qs ! 2) \<and> length (tmp_buffer (qs ! 0)) = 12 \<and> tmp_size (qs ! 1) \<le> 512 \<and>
      b64_encode H n (tmp_buffer (qs ! 0) @ take (tmp_size (qs ! 1)) (tmp_buffer (qs ! 1))) = Some d"
proof -
  let ?ps = "[TmpRef (zeros 12) 12, TmpRef (zeros 512) 512, ValueRef 0 0, NoParam]"
  obtain res qs w where i: "env_invoke H CMD_READ_AND_PROTECT
      [PT_MEMREF_OUTPUT, PT_MEMREF_OUTPUT, PT_VALUE_OUTPUT, PT_NONE] ?ps (hw s) = ((res, qs), w)"
    by (metis prod.exhaust)
  note run = assms [unfolded edge_call_ta_def ta_read_and_protect_encode_def teec_invoke_def]
  show "calm s t \<and> (live (log s) \<longrightarrow> live (log t))"
    using run i by (auto simp: calm_def calm_events_def split: if_splits)
  assume laws: "teec_laws H" and r: "r = Some d"
  have "map (\<lambda>p. length (tmp_buffer p)) qs = map (\<lambda>p. length (tmp_buffer p)) ?ps"
    using laws i unfolding teec_laws_def by (metis fst_conv snd_conv)
  then have "length (tmp_buffer (qs ! 0)) = 12"
    by (metis (no_types, lifting) length_map length_replicate list.map(2) nth_Cons_0 nth_map tmp_buffer.simps(1)
      length_greater_0_conv list.discI)
  with run i r show "\<exists>ps qs. log t = log s @ [Invoked CMD_READ_AND_PROTECT ps TEE_SUCCESS qs] \<and>
      g_last_seq t = value_a (qs ! 2) \<and> length (tmp_buffer (qs ! 0)) = 12 \<and> tmp_size (qs ! 1) \<le> 512 \<and>
      b64_encode H n (tmp_buffer (qs ! 0) @ take (tmp_size (qs ! 1)) (tmp_buffer (qs ! 1))) = Some d"
    by (intro exI [of _ ?ps] exI [of _ qs]) (auto split: if_splits)
qed

lemma send_json_run:
  assumes "run_state (send_json_line H (Some ms)) s = (rc, t)"
  shows "\<exists>ls. log t = log s @ Message ms # ls \<and> list_all low_level ls"
proof -
  let ?u = "s\<lparr>log := log s @ [Message ms]\<rparr>"
  have rest: "bounded host_only (do {
      text \<leftarrow> env_op (env_print H ms);
      case text of
        None \<Rightarrow> State_Monad.return (- 1)
      | Some text \<Rightarrow> do {
          conn \<leftarrow> gets g_conn;
          net_send_line H conn (c_string text) } })"
    by (intro host.bounded_rules host_intros)
  have "host_only ?u t"
    by (rule boundedD [OF rest]) (use assms in \<open>simp add: send_json_line_def\<close>)
  then show ?thesis by (auto dest!: host_only_log)
qed

lemma send_data_run:
  assumes "run_state (edge_send_sensor_data_to_server H d) s = (rc, t)" and "b64_decode H 600 d = Decoded raw"
  shows "\<exists>es. log t = log s @ es \<and> (es = [] \<or> (\<exists>device_id n64 c64 ls.
    b64_encode H 32 (take 12 raw) = Some n64 \<and> b64_encode H 900 (drop 12 raw) = Some c64 \<and> list_all low_level ls \<and>
    es = Message [JString ''type'' (ascii ''data''), JString ''device_id'' device_id, JNumber ''seq'' (g_last_seq s),
      JString ''nonce'' n64, JString ''ciphertext'' c64] # ls))"
proof (cases "g_conn_open s \<and> g_attested s \<and> length raw \<ge> 12 \<and> b64_encode H 32 (take 12 raw) \<noteq> None \<and>
    b64_encode H 900 (drop 12 raw) \<noteq> None")
  case False
  with assms have "log t = log s"
    by (auto simp: edge_send_sensor_data_to_server_def split: option.splits if_splits)
  then show ?thesis by simp
next
  case True
  then obtain n64 c64 where b: "b64_encode H 32 (take 12 raw) = Some n64" "b64_encode H 900 (drop 12 raw) = Some c64"
    by auto
  let ?ms = "[JString ''type'' (ascii ''data''), JString ''device_id'' (g_device_id s), JNumber ''seq'' (g_last_seq s),
      JString ''nonce'' n64, JString ''ciphertext'' c64]"
  obtain m u where o: "run_state (json_object H ?ms) s = (m, u)" by (metis prod.exhaust)
  from json_object_run [OF o] have same: "log u = log s" by auto
  from json_object_run [OF o, THEN conjunct1] show ?thesis
  proof
    assume "m = None"
    with assms True b o same show ?thesis
      by (intro exI [of _ "[]"]) (auto simp: edge_send_sensor_data_to_server_def)
  next
    assume "m = Some ?ms"
    with assms True b o have "run_state (send_json_line H (Some ?ms)) u = (rc, t)"
      by (auto simp: edge_send_sensor_data_to_server_def)
    from send_json_run [OF this] b same show ?thesis by auto
  qed
qed

definition main_inv :: "('w, 'j) host_env \<Rightarrow> main_pc \<Rightarrow> 'w edge \<Rightarrow> bool" where
  "main_inv H pc s \<longleftrightarrow> events_ok H (log s) \<and>
     (case pc of Starting \<Rightarrow> \<not> g_attested s | Pushing i \<Rightarrow> g_attested s \<longrightarrow> live (log s) | Finished rc \<Rightarrow> True)"

text \<open>The data message of one round, right after the command whose output it carries.\<close>

lemma push_data:
  assumes laws: "b64_laws H" "teec_laws H"
    and call: "run_state (edge_call_ta H 512) u = (Some d, v)" and "live (log u)" "events_ok H (log u)"
    and send: "run_state (edge_send_sensor_data_to_server H d) v = (rc, t)"
  shows "events_ok H (log t) \<and> live (log t)"
proof -
  from call_ta_run(2) [OF call laws(2) refl] obtain ps qs where
    v: "log v = log u @ [Invoked CMD_READ_AND_PROTECT ps TEE_SUCCESS qs]" "g_last_seq v = value_a (qs ! 2)"
    and q: "length (tmp_buffer (qs ! 0)) = 12" "tmp_size (qs ! 1) \<le> 512"
    and e: "b64_encode H 512 (tmp_buffer (qs ! 0) @ take (tmp_size (qs ! 1)) (tmp_buffer (qs ! 1))) = Some d"
    by blast
  let ?raw = "tmp_buffer (qs ! 0) @ take (tmp_size (qs ! 1)) (tmp_buffer (qs ! 1))"
  have "length ?raw \<le> 600" "?raw \<noteq> []" using q by auto
  then have "b64_decode H 600 d = Decoded ?raw"
    using laws(1) e unfolding b64_laws_def by metis
  from send_data_run [OF send this] obtain es where t: "log t = log v @ es" and es: "es = [] \<or>
    (\<exists>device_id n64 c64 ls. b64_encode H 32 (take 12 ?raw) = Some n64 \<and> b64_encode H 900 (drop 12 ?raw) = Some c64 \<and>
      list_all low_level ls \<and>
      es = Message [JString ''type'' (ascii ''data''), JString ''device_id'' device_id, JNumber ''seq'' (g_last_seq v),
        JString ''nonce'' n64, JString ''ciphertext'' c64] # ls)"
    by blast
  have ok_v: "events_ok H (log v)" "live (log v)" using v assms(4,5) by simp_all
  from es show ?thesis
  proof
    assume "es = []"
    with t ok_v show ?thesis by simp
  next
    assume "\<exists>device_id n64 c64 ls. b64_encode H 32 (take 12 ?raw) = Some n64 \<and> b64_encode H 900 (drop 12 ?raw) = Some c64 \<and>
      list_all low_level ls \<and>
      es = Message [JString ''type'' (ascii ''data''), JString ''device_id'' device_id, JNumber ''seq'' (g_last_seq v),
        JString ''nonce'' n64, JString ''ciphertext'' c64] # ls"
    then obtain device_id n64 c64 ls where b: "b64_encode H 32 (tmp_buffer (qs ! 0)) = Some n64"
      "b64_encode H 900 (take (tmp_size (qs ! 1)) (tmp_buffer (qs ! 1))) = Some c64" "list_all low_level ls"
      and es: "es = Message [JString ''type'' (ascii ''data''), JString ''device_id'' device_id,
        JNumber ''seq'' (value_a (qs ! 2)), JString ''nonce'' n64, JString ''ciphertext'' c64] # ls"
      using q v(2) by auto
    let ?e = "Message [JString ''type'' (ascii ''data''), JString ''device_id'' device_id,
        JNumber ''seq'' (value_a (qs ! 2)), JString ''nonce'' n64, JString ''ciphertext'' c64]"
    have "data_ok H (log v) ?e"
      unfolding data_ok_def using v(1) b ok_v(2) by auto
    with ok_v have "events_ok H (log v @ [?e])" "live (log v @ [?e])" by simp_all
    moreover have "log t = (log v @ [?e]) @ ls" using t es by simp
    ultimately show ?thesis
      using b(3) by (simp only: events_ok_calm calm_low_level live_low_level)
  qed
qed

lemma push_iter_inv:
  assumes laws: "b64_laws H" "teec_laws H" and inv: "main_inv H (Pushing i) s"
    and run: "run_state (push_iter H i) s = (pc, t)"
  shows "main_inv H pc t"
proof -
  have s: "events_ok H (log s)" "g_attested s \<longrightarrow> live (log s)" using inv by (simp_all add: main_inv_def)
  have reset: "main_inv H (Pushing i) (y\<lparr>hw := w\<rparr>)"
    if r: "run_state (edge_reset_connection H) x = (u, y)" and "events_ok H (log x)" for x y u w
  proof -
    have "calm x y" by (rule boundedD [OF calm_reset r])
    moreover have "\<not> g_attested y"
      using r by (auto simp: edge_reset_connection_def split: prod.splits)
    ultimately show ?thesis using that(2) events_ok_grows by (auto simp: main_inv_def)
  qed
  obtain rc u where e: "run_state (edge_ensure_session H) s = (rc, u)" by (metis prod.exhaust)
  have u: "events_ok H (log u)" by (rule events_ok_grows [OF boundedD [OF calm_ensure e] s(1)])
  show ?thesis
  proof (cases "rc = 0")
    case False
    obtain x y where "run_state (edge_reset_connection H) u = (x, y)" by (metis prod.exhaust)
    with reset [OF this u] run e False show ?thesis by (auto simp: push_iter_def)
  next
    case True
    have lu: "live (log u)" by (rule ensure_live [OF e s(2) True])
    obtain r v where c: "run_state (edge_call_ta H 512) u = (r, v)" by (metis prod.exhaust)
    have v: "events_ok H (log v)" "live (log v)"
      using call_ta_run(1) [OF c] u lu events_ok_grows by blast+
    show ?thesis
    proof (cases r)
      case None
      with run e True c v show ?thesis by (auto simp: push_iter_def main_inv_def)
    next
      case (Some d)
      obtain rc2 x where d: "run_state (edge_send_sensor_data_to_server H d) v = (rc2, x)" by (metis prod.exhaust)
      have x: "events_ok H (log x)" "live (log x)"
        using push_data [OF laws c [unfolded Some] lu u d] by simp_all
      show ?thesis
      proof (cases "rc2 = 0")
        case False
        obtain z y where "run_state (edge_reset_connection H) x = (z, y)" by (metis prod.exhaust)
        with reset [OF this x(1)] run e True c Some d False show ?thesis by (auto simp: push_iter_def)
      next
        case True
        with run e \<open>rc = 0\<close> c Some d x show ?thesis by (auto simp: push_iter_def main_inv_def)
      qed
    qed
  qed
qed

lemma main_start_inv:
  assumes inv: "main_inv H Starting s" and run: "run_state (main_start H args) s = (pc, t)"
  shows "main_inv H pc t"
proof -
  have "bounded calm (main_start H args)"
    unfolding main_start_def provision_sensor_secret_mode_def provision_ta_identity_mode_def
    by (intro calm_rules calm_init calm_ta_calls calm_shutdown; simp)
  from boundedD [OF this run] inv have log: "events_ok H (log t)"
    using events_ok_grows by (auto simp: main_inv_def)
  have "\<not> g_attested t" if "pc = Pushing i" for i
  proof -
    let ?m = "do {
        rc \<leftarrow> edge_device_init H;
        if rc \<noteq> 0 then State_Monad.return (Finished 1)
        else do {
          rc \<leftarrow> edge_provision_sensor_secret H;
          rc \<leftarrow> edge_authenticate_sensor H;
          if rc \<noteq> 0 then do {
            edge_device_shutdown H;
            State_Monad.return (Finished 1) }
          else do {
            note_event (Stdout (ascii ''edge_device: starting push loop (interval='' @
              dec_nat (push_interval H) @ ascii ''s)'' @ [10]));
            State_Monad.return (Pushing (push_interval H)) } } }"
    have "run_state ?m s = (pc, t)"
      using run that by (auto simp: main_start_def split: if_splits prod.splits)
    moreover have "bounded kept ?m"
      by (intro kept.bounded_rules kept_start kept_intros)
    ultimately have "kept s t" by (rule boundedD [rotated])
    with inv show ?thesis by (simp add: kept_def main_inv_def)
  qed
  moreover have "pc \<noteq> Starting"
    using run by (auto simp: main_start_def split: if_splits prod.splits)
  ultimately show ?thesis using log by (cases pc) (auto simp: main_inv_def)
qed

lemma main_reach_inv:
  assumes laws: "b64_laws H" "teec_laws H" and reach: "main_reach H args pc s"
  shows "main_inv H pc s"
  using reach
proof (induction rule: main_reach.induct)
  case (start w)
  show ?case by (simp add: main_inv_def edge_start_def)
next
  case (step pc s pc' s')
  show ?case
  proof (cases pc)
    case Starting
    with step show ?thesis using main_start_inv by simp
  next
    case (Pushing i)
    with step show ?thesis using push_iter_inv [OF laws] by simp
  next
    case (Finished rc)
    with step show ?thesis by simp
  qed
qed

section \<open>What goes to standard output\<close>

definition stdout_bytes :: "host_event list \<Rightarrow> bytes" where
  "stdout_bytes es = concat (map (\<lambda>e. case e of Stdout b \<Rightarrow> b | _ \<Rightarrow> []) es)"

lemma init_log: "run_state (edge_device_init H) s = (rc, t) \<Longrightarrow> log t = log s"
  by (auto simp: edge_device_init_def load_config_def split: option.splits if_splits)

lemma shutdown_log: "run_state (edge_device_shutdown H) s = (u, t) \<Longrightarrow> \<exists>es. log t = log s @ es \<and> stdout_bytes es = []"
  by (auto simp: edge_device_shutdown_def drop_connection_def net_close_def stdout_bytes_def split: if_splits)

lemma identity_mode_run:
  assumes run: "run_state (provision_ta_identity_mode H) s = (rc, t)"
  shows "\<exists>es. log t = log s @ es \<and> (rc = 1 \<and> stdout_bytes es = [] \<or>
    (\<exists>ps qs b. rc = 0 \<and> Invoked CMD_GENERATE_TA_IDENTITY ps TEE_SUCCESS qs \<in> set es \<and>
       b64_encode H 128 (tmp_buffer (qs ! 1)) = Some b \<and> stdout_bytes es = b @ [10]))"
proof -
  obtain r1 u where 1: "run_state (edge_device_init H) s = (r1, u)" by (metis prod.exhaust)
  note u = init_log [OF 1]
  obtain r2 pub v where 2: "run_state (edge_provision_ta_identity H) u = ((r2, pub), v)" by (metis prod.exhaust)
  from 2 obtain es where v: "log v = log u @ es" "stdout_bytes es = []" "r2 \<in> {0, - 1}" and
    ok: "r2 = 0 \<Longrightarrow> \<exists>ps qs. es = [Invoked CMD_GENERATE_TA_IDENTITY ps TEE_SUCCESS qs] \<and> pub = tmp_buffer (qs ! 1)"
    by (auto simp: edge_provision_ta_identity_def teec_invoke_def stdout_bytes_def split: if_splits prod.splits)
  show ?thesis
  proof (cases "r1 = 0")
    case False
    with run 1 u show ?thesis
      by (intro exI [of _ "[]"]) (auto simp: provision_ta_identity_mode_def stdout_bytes_def)
  next
    case init: True
    show ?thesis
    proof (cases "r2 = 0 \<and> b64_encode H 128 pub \<noteq> None")
      case False
      obtain x w where 3: "run_state (edge_device_shutdown H) v = (x, w)" by (metis prod.exhaust)
      from shutdown_log [OF 3] obtain fs where "log w = log v @ fs" "stdout_bytes fs = []" by blast
      with run 1 2 3 init False u v show ?thesis
        by (intro exI [of _ "es @ fs"])
          (auto simp: provision_ta_identity_mode_def stdout_bytes_def split: if_splits option.splits)
    next
      case True
      then obtain b where b: "b64_encode H 128 pub = Some b" by auto
      let ?v = "v\<lparr>log := log v @ [Stdout (b @ [10])]\<rparr>"
      obtain x w where 3: "run_state (edge_device_shutdown H) ?v = (x, w)" by (metis prod.exhaust)
      from shutdown_log [OF 3] obtain fs where fs: "log w = log ?v @ fs" "stdout_bytes fs = []" by blast
      from ok True obtain ps qs where "es = [Invoked CMD_GENERATE_TA_IDENTITY ps TEE_SUCCESS qs]"
        "pub = tmp_buffer (qs ! 1)" by blast
      with run 1 2 3 init True u v b fs show ?thesis
        by (intro exI [of _ "es @ [Stdout (b @ [10])] @ fs"])
          (auto simp: provision_ta_identity_mode_def stdout_bytes_def)
    qed
  qed
qed

end
