(* ===== verification/StaleReply.thy ===== *)
theory StaleReply
  imports ServerFaults HostMain
begin

text \<open>
  The two ends of one connection over time. The server answers every data message with a line; the
  Host reads no answer to what it pushes. The answers wait in its socket, and when the session
  expires and the Host attests again over the same connection, the first of them is what it takes
  for the challenge.
\<close>

section \<open>What waits in the socket\<close>

text \<open>Calls other than \<open>recv\<close> take nothing from the stream \<open>q\<close>; more may arrive meanwhile.\<close>

definition stream_kept :: "('w, 'j) host_env \<Rightarrow> ('w \<Rightarrow> bytes) \<Rightarrow> bool" where
  "stream_kept H q \<longleftrightarrow> recv_queue H q \<and>
     (\<forall>w. \<exists>more. q (snd (env_alloc H w)) = q w @ more) \<and>
     (\<forall>ms w. \<exists>more. q (snd (env_print H ms w)) = q w @ more) \<and>
     (\<forall>fd b w. \<exists>more. q (snd (env_send H fd b w)) = q w @ more) \<and>
     (\<forall>w. \<exists>more. q (snd (env_monotonic H w)) = q w @ more) \<and>
     (\<forall>w. \<exists>more. q (snd (env_time H w)) = q w @ more) \<and>
     (\<forall>c ty ps w. \<exists>more. q (snd (env_invoke H c ty ps w)) = q w @ more) \<and>
     (\<forall>n w. \<exists>more. q (env_sleep H n w) = q w @ more)"

definition arrives :: "('w \<Rightarrow> bytes) \<Rightarrow> ('w, 'm) host_scheme \<Rightarrow> ('w, 'm) host_scheme \<Rightarrow> bool" where
  "arrives q s t \<longleftrightarrow> (\<exists>more. q (hw t) = q (hw s) @ more)"

interpretation arrival: effect_order "arrives q" for q :: "'w \<Rightarrow> bytes"
proof
  fix s t u :: "('w, 'b) host_scheme"
  show "arrives q s s" by (simp add: arrives_def)
  assume "arrives q s t" "arrives q t u"
  then show "arrives q s u" by (auto simp: arrives_def)
qed

lemma arrives_env_op: "(\<And>w. \<exists>more. q (snd (f w)) = q w @ more) \<Longrightarrow> bounded (arrives q) (env_op f)"
  by (simp add: bounded_def arrives_def)

lemma arrives_ops:
  assumes "stream_kept H q"
  shows "bounded (arrives q) (env_op (env_alloc H))" "bounded (arrives q) (env_op (env_print H ms))"
    "bounded (arrives q) (env_op (env_send H fd b))" "bounded (arrives q) (env_op (env_monotonic H))"
    "bounded (arrives q) (env_op (env_time H))" "bounded (arrives q) (env_op (env_invoke H c ty ps))"
  using assms by (auto simp: stream_kept_def intro!: arrives_env_op)

lemma arrives_note: "bounded (arrives q) (note_event e)"
  by (simp add: bounded_def arrives_def)

lemma arrives_send_all: "stream_kept H q \<Longrightarrow> bounded (arrives q) (send_all H fd buf)"
proof (induction H fd buf rule: send_all.induct)
  case (1 H fd buf)
  show ?case
    unfolding send_all.simps [of H fd buf]
    by (intro arrival.bounded_rules arrives_ops [OF "1.prems"] arrives_note "1.IH" "1.prems"; assumption)
qed

lemma arrives_json_add: "stream_kept H q \<Longrightarrow> bounded (arrives q) (json_add H ms fs)"
proof (induction H ms fs rule: json_add.induct)
  case (2 H msg f fs)
  show ?case
    unfolding json_add.simps
    by (intro arrival.bounded_rules arrives_ops [OF "2.prems"] "2.IH" "2.prems"; assumption)
qed (simp add: arrival.bounded_return)

lemma arrives_hello:
  assumes "stream_kept H q"
  shows "bounded (arrives q) (attest_hello H)"
  unfolding attest_hello_def json_object_def send_json_line_def net_send_line_def
  by (intro arrival.bounded_rules arrives_ops [OF assms] arrives_note arrives_send_all [OF assms] arrives_json_add [OF assms])

section \<open>The answer to a data message\<close>

text \<open>
  As the Host parses it: an object with the member ok and perhaps error, and neither of the members a
  challenge has. It has no line break and fits the line buffer.
\<close>

definition data_answer :: "('w, 'j) host_env \<Rightarrow> bytes \<Rightarrow> bool" where
  "data_answer H ack \<longleftrightarrow> 10 \<notin> set ack \<and> length ack + 1 < CIOT_LINE_MAX \<and>
     (\<forall>w j. fst (env_parse H (c_string ack) w) = Some j \<longrightarrow> j_string H j ''type'' = None \<and> j_string H j ''nonce'' = None)"

text \<open>An answer is at the head of what waits.\<close>

definition answer_waits :: "('w, 'j) host_env \<Rightarrow> ('w \<Rightarrow> bytes) \<Rightarrow> ('w, 'm) host_scheme \<Rightarrow> bool" where
  "answer_waits H q s \<longleftrightarrow> (\<exists>ack rest. data_answer H ack \<and> q (hw s) = ack @ 10 # rest)"

lemma answer_still_waits: "answer_waits H q s \<Longrightarrow> arrives q s t \<Longrightarrow> answer_waits H q t"
  by (auto simp: answer_waits_def arrives_def)

lemma challenge_not_read:
  assumes q: "stream_kept H q" and waits: "answer_waits H q s"
  shows "\<exists>t. run_state (read_challenge H) s = (- 1, t)"
proof -
  from waits obtain ack rest where a: "data_answer H ack" "q (hw s) = ack @ 10 # rest"
    by (auto simp: answer_waits_def)
  from q have "recv_queue H q" by (simp add: stream_kept_def)
  from recv_loop_line [OF this, of s ack rest "[]" CIOT_LINE_MAX "net_fd (g_conn s)"] a
  obtain u where line: "run_state (recv_loop H (net_fd (g_conn s)) CIOT_LINE_MAX []) s = ((int (length ack), ack), u)"
    by (auto simp: data_answer_def)
  obtain j w where parse: "env_parse H (c_string ack) (hw u) = (j, w)" by (metis prod.exhaust)
  from a(1) parse have none: "j = Some y \<Longrightarrow> j_string H y ''type'' = None \<and> j_string H y ''nonce'' = None" for y
    unfolding data_answer_def by (metis fst_conv)
  show ?thesis
    using line parse none
    by (cases j) (simp_all add: read_challenge_def recv_message_def net_recv_line_def decode_nonce_def)
qed

lemma attest_over_answered_connection:
  assumes q: "stream_kept H q" and waits: "answer_waits H q s" and conn: "g_conn_open s"
  shows "fst (run_state (edge_attest_to_server H) s) = - 1"
proof -
  let ?s = "s\<lparr>g_attested := False\<rparr>"
  have connect: "run_state (attest_connect H) s = (0, ?s)"
    using conn by (simp add: attest_connect_def)
  obtain rc u where hello: "run_state (attest_hello H) ?s = (rc, u)" by (metis prod.exhaust)
  have "answer_waits H q ?s" using waits by (simp add: answer_waits_def)
  from answer_still_waits [OF this boundedD [OF arrives_hello [OF q] hello]] have "answer_waits H q u" .
  from challenge_not_read [OF q this] obtain t where "run_state (read_challenge H) u = (- 1, t)" by blast
  with connect hello show ?thesis by (simp add: edge_attest_to_server_def)
qed

text \<open>The session is over: the next reading of the clock is not before its expiry.\<close>

definition session_over :: "('w, 'j) host_env \<Rightarrow> 'w edge \<Rightarrow> bool" where
  "session_over H s \<longleftrightarrow> \<not> g_attested s \<or> g_session_expiry s \<le> fst (run_state (mono_now H) s)"

lemma mono_now_edge:
  assumes "run_state (mono_now H) s = (now, t)"
  shows "\<exists>w. t = s\<lparr>hw := w\<rparr>"
  using assms by (auto simp: mono_now_def split: option.splits intro: exI [of _ "snd _"])

lemma ensure_over_answered_connection:
  assumes q: "stream_kept H q" and waits: "answer_waits H q s" and conn: "g_conn_open s" and over: "session_over H s"
  shows "fst (run_state (edge_ensure_session H) s) = - 1"
proof -
  obtain now u where clock: "run_state (if g_attested s then mono_now H else State_Monad.return 0) s = (now, u)"
    by (metis prod.exhaust)
  have "arrives q s u"
  proof -
    have "bounded (arrives q) (mono_now H)"
      unfolding mono_now_def by (intro arrival.bounded_rules arrives_ops [OF q])
    then have "bounded (arrives q) (if g_attested s then mono_now H else State_Monad.return 0)"
      by (simp add: arrival.bounded_return)
    from boundedD [OF this clock] show ?thesis .
  qed
  from answer_still_waits [OF waits this] have w: "answer_waits H q u" .
  have "g_conn_open u"
    using clock conn mono_now_edge [of H s now u] by (auto split: if_splits)
  from attest_over_answered_connection [OF q w this] have "fst (run_state (edge_attest_to_server H) u) = - 1" .
  moreover have "\<not> (g_attested s \<and> now < g_session_expiry s)"
    using over clock by (auto simp: session_over_def split: if_splits)
  ultimately show ?thesis
    using clock by (cases "run_state (edge_attest_to_server H) u") (auto simp: edge_ensure_session_def)
qed

lemma reset_closes:
  assumes "run_state (edge_reset_connection H) s = (x, t)"
  shows "\<not> g_conn_open t \<and> \<not> g_attested t"
  using assms by (cases "g_conn_open s") (auto simp: edge_reset_connection_def drop_connection_def split: prod.splits)

text \<open>A round of the push loop that finds its session over then drops the connection and pushes nothing.\<close>

lemma round_over_answered_connection:
  assumes "stream_kept H q" "answer_waits H q s" "g_conn_open s" "session_over H s"
    and run: "run_state (push_iter H n) s = (pc, t)"
  shows "pc = Pushing n \<and> \<not> g_conn_open t \<and> \<not> g_attested t"
proof -
  obtain u where ensure: "run_state (edge_ensure_session H) s = (- 1, u)"
    using ensure_over_answered_connection [OF assms(1-4)] by (metis prod.collapse)
  obtain v where reset: "run_state (edge_reset_connection H) u = ((), v)" by (metis old.unit.exhaust prod.collapse)
  from reset_closes [OF reset] run ensure reset show ?thesis by (auto simp: push_iter_def)
qed

text \<open>A round within the session reads nothing: what waits goes on waiting, unless the connection goes.\<close>

lemma arrives_modify: "(\<And>s. hw (f s) = hw s) \<Longrightarrow> bounded (arrives q) (modify f)"
  by (simp add: bounded_def arrives_def)

lemma bounded_case_b64:
  assumes "\<And>n. bounded R (f n)" "\<And>d. bounded R (g d)"
  shows "bounded R (case r of Undecoded n \<Rightarrow> f n | Decoded d \<Rightarrow> g d)"
  using assms by (cases r) simp_all

lemma arrives_sleep: "stream_kept H q \<Longrightarrow> bounded (arrives q) (env_do (env_sleep H n))"
  by (simp add: bounded_def arrives_def stream_kept_def)

lemma arrives_mono_now: "stream_kept H q \<Longrightarrow> bounded (arrives q) (mono_now H)"
  unfolding mono_now_def by (intro arrival.bounded_rules arrives_ops; assumption)

lemma arrives_call_ta:
  assumes "stream_kept H q"
  shows "bounded (arrives q) (edge_call_ta H n)"
  unfolding edge_call_ta_def ta_read_and_protect_encode_def teec_invoke_def Let_def
  by (intro arrival.bounded_rules arrives_ops [OF assms] arrives_note arrives_modify; simp)

lemma arrives_send_data:
  assumes "stream_kept H q"
  shows "bounded (arrives q) (edge_send_sensor_data_to_server H m)"
  unfolding edge_send_sensor_data_to_server_def json_object_def send_json_line_def net_send_line_def
  by (intro arrival.bounded_rules bounded_case_b64 arrives_ops [OF assms] arrives_note arrives_send_all [OF assms]
      arrives_json_add [OF assms])

lemma round_within_session:
  assumes q: "stream_kept H q" and waits: "answer_waits H q s" and live: "\<not> session_over H s"
    and run: "run_state (push_iter H n) s = (pc, t)"
  shows "answer_waits H q t \<or> \<not> g_conn_open t"
proof -
  obtain now u where clock: "run_state (mono_now H) s = (now, u)" by (metis prod.exhaust)
  from live clock have "g_attested s" "now < g_session_expiry s" by (simp_all add: session_over_def)
  with clock have ensure: "run_state (edge_ensure_session H) s = (0, u)" by (simp add: edge_ensure_session_def)
  obtain r v where call: "run_state (edge_call_ta H 512) u = (r, v)" by (metis prod.exhaust)
  have v: "answer_waits H q v"
    by (rule answer_still_waits [OF answer_still_waits [OF waits boundedD [OF arrives_mono_now [OF q] clock]]
          boundedD [OF arrives_call_ta [OF q] call]])
  have sleep: "answer_waits H q (x\<lparr>hw := env_sleep H n (hw x)\<rparr>)" if "answer_waits H q x" for x :: "'a edge"
    using answer_still_waits [OF that boundedD [OF arrives_sleep [OF q], of n x]] by simp
  show ?thesis
  proof (cases r)
    case None
    with run ensure call sleep [OF v] show ?thesis by (auto simp: push_iter_def)
  next
    case (Some m)
    obtain rc x where send: "run_state (edge_send_sensor_data_to_server H m) v = (rc, x)" by (metis prod.exhaust)
    have x: "answer_waits H q x" by (rule answer_still_waits [OF v boundedD [OF arrives_send_data [OF q] send]])
    show ?thesis
    proof (cases "rc = 0")
      case True
      have "answer_waits H q (x\<lparr>log := es\<rparr>)" for es using x by (simp add: answer_waits_def)
      from sleep [OF this] run ensure call Some send True show ?thesis by (auto simp: push_iter_def)
    next
      case False
      obtain y where reset: "run_state (edge_reset_connection H) x = ((), y)" by (metis old.unit.exhaust prod.exhaust)
      from reset_closes [OF reset] run ensure call Some send False reset show ?thesis by (auto simp: push_iter_def)
    qed
  qed
qed

end
