(* ===== verification/ServerTypes.thy ===== *)
theory ServerTypes
  imports Interleaving
begin

text \<open>
  The types of the server's state: what every record in it satisfies, whatever arrives. A handler
  keeps them because each access to the state it is made of does.
\<close>

section \<open>Well-typed states\<close>

text \<open>What the libraries promise about sizes.\<close>

definition server_sizes :: "'w server_env \<Rightarrow> bool" where
  "server_sizes E \<longleftrightarrow> (\<forall>z salt info n. length (v_hkdf E z salt info n) = n) \<and>
     (\<forall>n w. length (fst (v_urandom E n w)) = n) \<and> (\<forall>w. length (snd (fst (v_keygen E w))) = 65)"

definition session_typed :: "device_session \<Rightarrow> bool" where
  "session_typed ss \<longleftrightarrow> length (ds_key ss) = 32 \<and> 0 \<le> ds_last_seq ss \<and> ds_last_seq ss \<le> 0xFFFFFFFF"

definition challenge_typed :: "pending_challenge \<Rightarrow> bool" where
  "challenge_typed p \<longleftrightarrow> length (pc_nonce p) = 32 \<and> length (pc_pub p) = 65"

definition server_typed :: "'w device_link \<Rightarrow> bool" where
  "server_typed s \<longleftrightarrow>
     (\<forall>d ss. sv_sessions s d = Some ss \<longrightarrow> session_typed ss) \<and>
     (\<forall>d p. sv_pending s d = Some p \<longrightarrow> challenge_typed p) \<and>
     (\<forall>d. length (sl_buf s d) \<le> MAX_BUFFER)"

text \<open>Types are kept, and the registry and the identity of the server are not touched.\<close>

definition keeps_types :: "'w device_link \<Rightarrow> 'w device_link \<Rightarrow> bool" where
  "keeps_types s t \<longleftrightarrow> (server_typed s \<longrightarrow> server_typed t) \<and>
     sv_registry t = sv_registry s \<and> sv_identity t = sv_identity s"

interpretation types: effect_order keeps_types
  by unfold_locales (simp_all add: keeps_types_def)

section \<open>Single accesses\<close>

lemma types_srv_op: "bounded keeps_types (srv_op f)"
  by (simp add: bounded_def keeps_types_def server_typed_def)

lemma types_verdict: "bounded keeps_types (set_verdict d a i n now)"
  by (simp add: bounded_def keeps_types_def server_typed_def set_verdict_def)

lemma types_advance: "bounded keeps_types (check_and_advance_seq E d q)"
  by (auto simp: bounded_def keeps_types_def server_typed_def session_typed_def check_and_advance_seq_def
      split: py.split option.split)

lemma types_key: "bounded keeps_types (session_key_of E d)"
  by (auto simp: bounded_def keeps_types_def server_typed_def session_key_of_def split: option.split)

lemma types_store: "length k = 32 \<Longrightarrow> bounded keeps_types (store_session E d k)"
  by (simp add: bounded_def keeps_types_def server_typed_def session_typed_def store_session_run)

lemma types_collect: "bounded keeps_types (collect d)"
  by (auto simp: bounded_def keeps_types_def server_typed_def collect_def)

lemma length_deque_extend: "length (deque_extend xs ys) \<le> MAX_BUFFER"
  by (simp add: deque_extend_def)

lemma types_extend: "bounded keeps_types (modify (\<lambda>s. s\<lparr>sl_buf := (sl_buf s)(d := deque_extend (sl_buf s d) xs)\<rparr>))"
  using length_deque_extend by (auto simp: bounded_def keeps_types_def server_typed_def)

lemma types_take: "bounded keeps_types (take_challenge E d)"
  by (auto simp: bounded_def keeps_types_def server_typed_def take_challenge_def split: option.split)

lemma types_issue:
  assumes "server_sizes E"
  shows "bounded keeps_types (issue_challenge E d :: ('w device_link, _) state)"
proof -
  have "length (fst (v_urandom E 32 w)) = 32" "length (snd (fst (v_keygen E w))) = 65" for w
    using assms by (simp_all add: server_sizes_def)
  then show ?thesis
    by (auto simp: bounded_def keeps_types_def server_typed_def challenge_typed_def issue_challenge_def case_prod_beta)
qed

section \<open>Handlers\<close>

lemmas types_rules = types.bounded_rules bounded_case_sum bounded_case_next types_srv_op types_verdict types_advance
  types_key types_take types_extend

lemma types_verify:
  assumes "server_sizes E"
  shows "bounded keeps_types (verify_and_derive E d r)"
proof -
  have "length (v_hkdf E z s i 32) = 32" for z s i using assms by (simp add: server_sizes_def)
  then show ?thesis
    unfolding verify_and_derive_def sign_server_identity_raw_def Let_def
    by (intro types_rules types_store; simp)
qed

lemma types_on_data: "bounded keeps_types (on_data E d msg)"
  unfolding on_data_def on_data_begin_def on_data_commit_def
  by (intro types_rules; simp)

lemma types_line:
  assumes "server_sizes E"
  shows "bounded keeps_types (handle_line E dev line)"
  unfolding handle_line_def on_hello_def on_response_def Let_def
  by (intro types_rules types_issue [OF assms] types_verify [OF assms] types_on_data; simp)

lemma types_connection:
  assumes "server_sizes E"
  shows "bounded keeps_types (handle_connection E dev lines)"
proof (induction lines arbitrary: dev)
  case Nil
  show ?case
    unfolding handle_connection.simps on_close_def by (intro types_rules)
next
  case (Cons l ls)
  show ?case
    unfolding handle_connection.simps on_close_def
    by (intro types_rules types_line [OF assms] Cons.IH)
qed

end
