(* ===== verification/HostEffect.thy ===== *)
theory HostEffect
  imports HostMain
begin

text \<open>
  Relations between the states of the Host before and after a call that hold for every operation
  of a session because they hold for the calls it is made of: what the environment does to its own
  state, changes of other variables, entries of the log, and commands to the TA. The locale
  \<open>host_effect\<close> carries such a relation through net.c, attestation.c and edge_device.c once.
\<close>

section \<open>Calls\<close>

text \<open>Every call of the environment but those of the client library respects \<open>Q\<close>.\<close>

definition lets_be :: "('w \<Rightarrow> 'w \<Rightarrow> bool) \<Rightarrow> ('w, 'j) host_env \<Rightarrow> bool" where
  "lets_be Q H \<longleftrightarrow>
     (\<forall>h p w. Q w (snd (env_getaddrinfo H h p w))) \<and> (\<forall>a w. Q w (snd (env_socket H a w))) \<and>
     (\<forall>fd a w. Q w (snd (env_connect H fd a w))) \<and> (\<forall>fd w. Q w (env_close H fd w)) \<and>
     (\<forall>fd b w. Q w (snd (env_send H fd b w))) \<and> (\<forall>fd w. Q w (snd (env_recv H fd w))) \<and>
     (\<forall>p w. Q w (snd (env_fopen H p w))) \<and> (\<forall>p w. Q w (snd (env_mkstemp H p w))) \<and>
     (\<forall>p w. Q w (env_unlink H p w)) \<and> (\<forall>c w. Q w (snd (env_system H c w))) \<and>
     (\<forall>w. Q w (snd (env_monotonic H w))) \<and> (\<forall>w. Q w (snd (env_time H w))) \<and>
     (\<forall>n w. Q w (env_sleep H n w)) \<and> (\<forall>w. Q w (snd (env_alloc H w))) \<and>
     (\<forall>m w. Q w (snd (env_print H m w))) \<and> (\<forall>b w. Q w (snd (env_parse H b w)))"

lemma lets_be_mono: "lets_be Q H \<Longrightarrow> (\<And>x y. Q x y \<Longrightarrow> S x y) \<Longrightarrow> lets_be S H"
  unfolding lets_be_def by simp

fun plain_event :: "host_event \<Rightarrow> bool" where
  "plain_event (Invoked c ps r qs) \<longleftrightarrow> False"
| "plain_event _ \<longleftrightarrow> True"

lemma plain_events:
  "plain_event (Connected fd)" "plain_event (Closed fd)" "plain_event (Tx fd bs)" "plain_event (Rx fd b)"
  "plain_event (Message m)" "plain_event (TempFile p)" "plain_event (Unlinked p)" "plain_event (Shell c)"
  "plain_event (Stdout bs)"
  by simp_all

text \<open>The shape of the parameters of every command the Host sends.\<close>

definition host_params :: "nat \<Rightarrow> op_param list \<Rightarrow> bool" where
  "host_params c ps \<longleftrightarrow> length ps = 4 \<and> (c = CMD_READ_AND_PROTECT \<longrightarrow> (\<exists>x y. ps ! 2 = ValueRef x y))"

locale host_effect = effect_order R for R :: "'w edge \<Rightarrow> 'w edge \<Rightarrow> bool" +
  fixes H :: "('w, 'j) host_env" and Q :: "'w \<Rightarrow> 'w \<Rightarrow> bool"
  assumes others: "lets_be Q H"
    and env: "Q (hw s) w \<Longrightarrow> R s (s\<lparr>hw := w\<rparr>)"
    and frame: "hw t = hw s \<Longrightarrow> log t = log s \<Longrightarrow> g_teec_open t = g_teec_open s \<Longrightarrow> R s t"
    and event: "plain_event e \<Longrightarrow> R s (s\<lparr>log := log s @ [e]\<rparr>)"
    and invoke: "g_teec_open s \<Longrightarrow> host_params c ps \<Longrightarrow> env_invoke H c types ps (hw s) = ((res, qs), w) \<Longrightarrow>
      R s (s\<lparr>hw := w, log := log s @ [Invoked c ps res qs]\<rparr>)"
begin

lemma step_env_op: "(\<And>w. Q w (snd (f w))) \<Longrightarrow> bounded R (env_op f)"
  by (simp add: bounded_def env)

lemma step_env_do: "(\<And>w. Q w (f w)) \<Longrightarrow> bounded R (env_do f)"
  by (simp add: bounded_def env)

lemma step_calls:
  "bounded R (env_op (env_getaddrinfo H h p))" "bounded R (env_op (env_socket H a))"
  "bounded R (env_op (env_connect H fd a))" "bounded R (env_do (env_close H fd))"
  "bounded R (env_op (env_send H fd b))" "bounded R (env_op (env_recv H fd))"
  "bounded R (env_op (env_fopen H path))" "bounded R (env_op (env_mkstemp H path))"
  "bounded R (env_do (env_unlink H path))" "bounded R (env_op (env_system H cmd))"
  "bounded R (env_op (env_monotonic H))" "bounded R (env_op (env_time H))"
  "bounded R (env_do (env_sleep H n))" "bounded R (env_op (env_alloc H))"
  "bounded R (env_op (env_print H m))" "bounded R (env_op (env_parse H line))"
  by (rule step_env_op step_env_do, use others in \<open>simp add: lets_be_def\<close>)+

lemma step_modify:
  assumes "\<And>s. log (f s) = log s" "\<And>s. hw (f s) = hw s" "\<And>s. g_teec_open (f s) = g_teec_open s"
  shows "bounded R (modify f)"
  using assms by (intro bounded_modify frame)

lemma step_note: "plain_event e \<Longrightarrow> bounded R (note_event e)"
  by (simp add: bounded_def event)

lemma wp_invoke:
  assumes "R s u" "g_teec_open u" "host_params c ps" and "\<And>res qs t. R s t \<Longrightarrow> P (res, qs) t"
  shows "wp (teec_invoke H c types ps) P u"
proof -
  obtain res qs w where i: "env_invoke H c types ps (hw u) = ((res, qs), w)" by (metis prod.exhaust)
  have "R s (u\<lparr>hw := w, log := log u @ [Invoked c ps res qs]\<rparr>)"
    by (rule R_trans [OF assms(1) invoke [OF assms(2,3) i]])
  from assms(4) [OF this] show ?thesis by (simp add: teec_invoke_def i)
qed

lemma step_wpI: "(\<And>s. wp m (\<lambda>_. R s) s) \<Longrightarrow> bounded R m"
  by (simp add: bounded_wp)

lemma step_seq: "R s t \<Longrightarrow> R s (t\<lparr>g_last_seq := q\<rparr>)"
  by (erule R_trans) (simp add: frame)

lemmas step_rules = bounded_rules step_calls step_modify step_note plain_events

lemma step_try: "bounded R (try_addresses H addrs)"
proof (induction addrs)
  case (Cons rp rps)
  then show ?case by (simp split del: if_split, intro step_rules)
qed (simp add: bounded_return)

lemma step_send_all: "bounded R (send_all H fd buf)"
proof (induction buf rule: length_induct)
  case (1 buf)
  show ?case
    unfolding send_all.simps [of H fd buf] by (intro step_rules "1.IH" [rule_format]) auto
qed

lemma step_recv_loop: "bounded R (recv_loop H fd cap buf)"
proof (induction "cap - length buf" arbitrary: buf rule: less_induct)
  case less
  show ?case
    unfolding recv_loop.simps [of H fd cap buf] by (intro step_rules less) auto
qed

lemma step_net:
  "bounded R (net_connect H host port conn)" "bounded R (net_send_line H conn line)"
  "bounded R (net_recv_line H conn cap)" "bounded R (net_close H conn)"
  unfolding net_connect_def net_send_line_def net_recv_line_def net_close_def
  by (intro step_rules step_try step_send_all step_recv_loop)+

lemma step_files:
  "bounded R (read_whole_file H path cap)" "bounded R (read_text_file H path cap)"
  "bounded R (shell H cmd)" "bounded R (temp_file H template)"
  "bounded R (unlink_file H path)"
  unfolding read_text_file_def read_whole_file_def shell_def temp_file_def unlink_file_def
  by (intro step_rules)+

lemma step_report: "bounded R (create_attestation_report H h ak ev)"
  unfolding create_attestation_report_def quote_report_def encode_report_def Let_def
  by (intro step_rules step_files)

lemma step_messages:
  "bounded R (json_add H ms fs)" "bounded R (json_object H fs)"
  "bounded R (send_json_line H msg)" "bounded R (recv_message H)"
  "bounded R (mono_now H)"
proof -
  show add: "bounded R (json_add H ms fs)" for ms fs
  proof (induction fs arbitrary: ms)
    case (Cons f fs)
    then show ?case by (simp split del: if_split, intro step_rules)
  qed (simp add: bounded_return)
  show "bounded R (json_object H fs)" "bounded R (send_json_line H msg)"
    "bounded R (recv_message H)" "bounded R (mono_now H)"
    unfolding json_object_def send_json_line_def recv_message_def mono_now_def
    by (intro step_rules step_net add)+
qed

lemma step_connection:
  "bounded R (drop_connection H)" "bounded R (edge_reset_connection H)"
  unfolding edge_reset_connection_def drop_connection_def by (intro step_rules step_net; simp)+

lemma step_ta_calls:
  "bounded R (edge_authenticate_sensor H)" "bounded R (edge_provision_sensor_secret H)"
  "bounded R (ta_handshake_init H)" "bounded R (edge_handshake H)"
  "bounded R (edge_call_ta H n)" "bounded R (edge_provision_ta_identity H)"
  unfolding edge_authenticate_sensor_def edge_provision_sensor_secret_def ta_handshake_init_def edge_handshake_def
    edge_call_ta_def ta_read_and_protect_encode_def edge_provision_ta_identity_def
  by (rule step_wpI, simp add: R_refl, intro impI conjI wp_invoke [OF R_refl];
      auto simp: host_params_def intro: step_seq split: prod.splits)+

lemma step_attest:
  "bounded R (attest_connect H)" "bounded R (attest_hello H)"
  "bounded R (read_challenge H)" "bounded R (attest_respond H)"
  "bounded R (read_result H)"
proof -
  have fixed: "bounded R (decode_fixed H j name n upd)"
    if "\<And>f s. log (upd f s) = log s \<and> hw (upd f s) = hw s \<and> g_teec_open (upd f s) = g_teec_open s" for j name n upd
    using that unfolding decode_fixed_def by (auto split: option.splits b64_result.splits intro!: step_rules)
  have nonce: "bounded R (decode_nonce H j)" for j
    unfolding decode_nonce_def by (auto split: option.splits b64_result.splits intro!: step_rules)
  show "bounded R (attest_connect H)" "bounded R (attest_hello H)"
    "bounded R (attest_respond H)"
    unfolding attest_connect_def attest_hello_def attest_respond_def
    by (intro step_rules step_net step_messages step_ta_calls step_report; simp)+
  show "bounded R (read_challenge H)" "bounded R (read_result H)"
    unfolding read_challenge_def read_result_def
    by (intro step_rules step_messages fixed nonce; simp)+
qed

lemma step_session:
  "bounded R (edge_ensure_session H)"
  "bounded R (edge_send_sensor_data_to_server H d)"
  unfolding edge_ensure_session_def edge_attest_to_server_def edge_send_sensor_data_to_server_def
  by (auto intro!: step_rules step_attest step_ta_calls step_messages split: b64_result.split)

lemma step_push: "bounded R (push_iter H i)"
  unfolding push_iter_def by (intro step_rules step_session step_connection step_ta_calls; simp)

end

end
