(* ===== verification/HostTa.thy ===== *)
theory HostTa
  imports HostEffect TaDispatch
begin

text \<open>
  The Host on top of the TA. What the Host relies on is a service with a message counter: the
  locale \<open>ta_service\<close>. What provides it is the TA of TaDispatch behind the TEE client library:
  the locale \<open>ta_host\<close>, whose assumptions state what that library does with a command. The
  first gives the order of the counters in the messages of any run of the Host, the second
  is a sublocale of it.
\<close>

section \<open>Counters in the log of the Host\<close>

text \<open>The counters the TA has handed out since its last successful handshake.\<close>

fun read_after :: "nat list \<Rightarrow> host_event \<Rightarrow> nat list" where
  "read_after ns (Invoked c ps r qs) =
     (if r \<noteq> TEE_SUCCESS then ns
      else if c = CMD_HANDSHAKE_COMPLETE then []
      else if c = CMD_READ_AND_PROTECT then ns @ [unat (value_a (qs ! 2))]
      else ns)"
| "read_after ns _ = ns"

definition epoch_reads :: "host_event list \<Rightarrow> nat list" where
  "epoch_reads es = foldl read_after [] es"

lemma epoch_reads_snoc [simp]: "epoch_reads [] = []" "epoch_reads (es @ [e]) = read_after (epoch_reads es) e"
  by (simp_all add: epoch_reads_def)

fun rekeyed :: "host_event \<Rightarrow> bool" where
  "rekeyed (Invoked c ps r qs) \<longleftrightarrow> c = CMD_HANDSHAKE_COMPLETE \<and> r = TEE_SUCCESS"
| "rekeyed _ \<longleftrightarrow> False"

lemma read_after_append: "\<not> rekeyed e \<Longrightarrow> \<exists>ns. \<forall>ms. read_after ms e = ms @ ns"
  by (cases e) auto

lemma epoch_reads_append:
  "list_all (\<lambda>e. \<not> rekeyed e) fs \<Longrightarrow> \<exists>ns. epoch_reads (es @ fs) = epoch_reads es @ ns"
proof (induction fs rule: rev_induct)
  case (snoc e fs)
  then obtain ns where "epoch_reads (es @ fs) = epoch_reads es @ ns" by auto
  moreover obtain ms where "\<forall>xs. read_after xs e = xs @ ms"
    using snoc.prems read_after_append [of e] by auto
  ultimately have "epoch_reads (es @ fs @ [e]) = epoch_reads es @ (ns @ ms)"
    using epoch_reads_snoc(2) [of "es @ fs" e] by simp
  then show ?case by blast
qed simp

definition rising :: "host_event list \<Rightarrow> bool" where
  "rising es \<longleftrightarrow> (\<forall>k \<le> length es. sorted_wrt (<) (epoch_reads (take k es)))"

lemma rising_Nil [simp]: "rising []"
  by (simp add: rising_def)

lemma rising_snoc [simp]: "rising (es @ [e]) \<longleftrightarrow> rising es \<and> sorted_wrt (<) (epoch_reads (es @ [e]))"
  by (auto simp: rising_def le_Suc_eq simp del: epoch_reads_snoc)

lemma rising_sorted: "rising es \<Longrightarrow> sorted_wrt (<) (epoch_reads es)"
  by (auto simp: rising_def dest: spec [of _ "length es"])

text \<open>Two readings with no new key between them.\<close>

lemma rising_reads:
  assumes rise: "rising es" and ij: "i < j" "j < length es"
    and reads: "es ! i = Invoked CMD_READ_AND_PROTECT ps TEE_SUCCESS qs"
      "es ! j = Invoked CMD_READ_AND_PROTECT ps' TEE_SUCCESS qs'"
    and quiet: "\<And>k. i < k \<Longrightarrow> k < j \<Longrightarrow> \<not> rekeyed (es ! k)"
  shows "unat (value_a (qs ! 2)) < unat (value_a (qs' ! 2))"
proof -
  let ?between = "take (j - Suc i) (drop (Suc i) es)"
  have "es ! (Suc i + k) \<in> {e. \<not> rekeyed e}" if "k < j - Suc i" for k
    using quiet [of "Suc i + k"] that by simp
  then have "list_all (\<lambda>e. \<not> rekeyed e) ?between"
    using ij by (auto simp: list_all_length)
  then obtain ns where "epoch_reads (take (Suc i) es @ ?between) = epoch_reads (take (Suc i) es) @ ns"
    using epoch_reads_append by blast
  moreover have "take (Suc i) es @ ?between = take j es"
    using ij by (metis Suc_leI le_add_diff_inverse take_add)
  moreover have "take (Suc i) es = take i es @ [es ! i]" "take (Suc j) es = take j es @ [es ! j]"
    using ij by (simp_all add: take_Suc_conv_app_nth)
  ultimately have "epoch_reads (take (Suc j) es) =
      epoch_reads (take i es) @ [unat (value_a (qs ! 2))] @ ns @ [unat (value_a (qs' ! 2))]"
    using reads by simp
  moreover have "sorted_wrt (<) (epoch_reads (take (Suc j) es))"
    using rise ij by (simp add: rising_def)
  ultimately show ?thesis by (simp add: sorted_wrt_append)
qed

section \<open>The service\<close>

text \<open>
  A session with a TA as its client sees it: not opened (or closed), open, or dead because the
  TA has panicked. Of an open one the service shows the message counter.
\<close>

datatype 'a tee_session = NoSession | Live 'a | Dead

definition unmoved :: "'a tee_session \<Rightarrow> 'a tee_session \<Rightarrow> bool" where
  "unmoved a b \<longleftrightarrow> a = NoSession \<or> b = a"

text \<open>What a command does to the counter.\<close>

definition served :: "nat \<Rightarrow> op_param list \<Rightarrow> TEE_Result \<Rightarrow> op_param list \<Rightarrow> nat tee_session \<Rightarrow> nat tee_session \<Rightarrow> bool" where
  "served c ps res qs a b \<longleftrightarrow>
     res \<noteq> TEE_SUCCESS \<and> (b = a \<or> b = Dead) \<or>
     res = TEE_SUCCESS \<and> (\<exists>n m. a = Live n \<and> b = Live m \<and>
       (if c = CMD_READ_AND_PROTECT then n < m \<and> (\<forall>x y. ps ! 2 = ValueRef x y \<longrightarrow> unat (value_a (qs ! 2)) = m)
        else c = CMD_HANDSHAKE_COMPLETE \<or> m = n))"

locale ta_service =
  fixes H :: "('w, 'j) host_env" and counter :: "'w \<Rightarrow> nat tee_session"
  assumes untouched: "lets_be (\<lambda>w w'. unmoved (counter w) (counter w')) H"
    and opens: "env_teec_open H w = (TEE_SUCCESS, w') \<Longrightarrow> counter w' \<noteq> NoSession"
    and invokes: "env_invoke H c types ps w = ((res, qs), w') \<Longrightarrow> length ps = 4 \<Longrightarrow> counter w \<noteq> NoSession \<Longrightarrow>
      served c ps res qs (counter w) (counter w')"

text \<open>
  The invariant of the Host: the counters rise, and those since the last handshake are not
  beyond that of the service.
\<close>

fun covers :: "nat tee_session \<Rightarrow> nat list \<Rightarrow> bool" where
  "covers NoSession ns \<longleftrightarrow> False"
| "covers (Live n) ns \<longleftrightarrow> (\<forall>m \<in> set ns. m \<le> n)"
| "covers Dead ns \<longleftrightarrow> True"

definition in_step :: "('w \<Rightarrow> nat tee_session) \<Rightarrow> 'w edge \<Rightarrow> bool" where
  "in_step counter s \<longleftrightarrow> rising (log s) \<and> (g_teec_open s \<longrightarrow> covers (counter (hw s)) (epoch_reads (log s)))"

definition keeps_step :: "('w \<Rightarrow> nat tee_session) \<Rightarrow> 'w edge \<Rightarrow> 'w edge \<Rightarrow> bool" where
  "keeps_step counter s t \<longleftrightarrow> (in_step counter s \<longrightarrow> in_step counter t)"

lemma in_step_same:
  assumes "in_step counter s" "rising (log t)" "epoch_reads (log t) = epoch_reads (log s)"
    and "g_teec_open t = g_teec_open s" "unmoved (counter (hw s)) (counter (hw t))"
  shows "in_step counter t"
proof (cases "g_teec_open s")
  case True
  then have "counter (hw s) \<noteq> NoSession" using assms(1) by (auto simp: in_step_def)
  then have "counter (hw t) = counter (hw s)" using assms(5) by (simp add: unmoved_def)
  with assms show ?thesis by (simp add: in_step_def)
qed (use assms in \<open>simp add: in_step_def\<close>)

lemma keeps_stepI: "(in_step counter s \<Longrightarrow> in_step counter t) \<Longrightarrow> keeps_step counter s t"
  by (simp add: keeps_step_def)

lemma unmoved_refl [simp]: "unmoved a a"
  by (simp add: unmoved_def)

lemma read_after_plain: "plain_event e \<Longrightarrow> read_after ns e = ns"
  by (cases e) simp_all

lemma in_step_rising: "in_step counter s \<Longrightarrow> rising (log s)"
  by (simp add: in_step_def)

lemma teec_setting [simp]:
  "g_teec_open (apply_setting k v s) = g_teec_open s" "g_teec_open (from_env H n m s) = g_teec_open s"
  "g_teec_open (config_line l s) = g_teec_open s"
  by (simp_all add: apply_setting_def from_env_def config_line_def Let_def split: option.splits)

lemma teec_fold_config [simp]: "g_teec_open (fold config_line ls s) = g_teec_open s"
  by (induction ls arbitrary: s) simp_all

context ta_service begin

lemma in_step_invoke:
  assumes s: "in_step counter s" "g_teec_open s" and i: "env_invoke H c types ps (hw s) = ((res, qs), w)"
    and p: "c = CMD_READ_AND_PROTECT \<Longrightarrow> \<exists>x y. ps ! 2 = ValueRef x y" "length ps = 4"
    and t: "log t = log s @ [Invoked c ps res qs]" "hw t = w" "g_teec_open t"
  shows "in_step counter t"
proof -
  have rise: "rising (log s)" using s by (simp add: in_step_def)
  have up: "counter (hw s) \<noteq> NoSession" using s by (auto simp: in_step_def)
  have sv: "served c ps res qs (counter (hw s)) (counter w)" by (rule invokes [OF i p(2) up])
  show ?thesis
  proof (cases "res = TEE_SUCCESS")
    case False
    with sv have "counter w = counter (hw s) \<or> counter w = Dead" by (simp add: served_def)
    then show ?thesis using False s rise t by (auto simp: in_step_def rising_sorted)
  next
    case True
    with sv obtain n m where nm: "counter (hw s) = Live n" "counter w = Live m"
      "if c = CMD_READ_AND_PROTECT then n < m \<and> (\<forall>x y. ps ! 2 = ValueRef x y \<longrightarrow> unat (value_a (qs ! 2)) = m)
        else c = CMD_HANDSHAKE_COMPLETE \<or> m = n" by (auto simp: served_def)
    have old: "\<forall>k \<in> set (epoch_reads (log s)). k \<le> n" using s nm by (simp add: in_step_def)
    show ?thesis
    proof (cases "c = CMD_READ_AND_PROTECT")
      case read: True
      with p nm have "n < m" "unat (value_a (qs ! 2)) = m" by auto
      moreover from this old have "\<forall>k \<in> set (epoch_reads (log s)). k < m" by auto
      ultimately show ?thesis
        using True read rise t nm rising_sorted [OF rise]
        by (auto simp: in_step_def sorted_wrt_append)
    next
      case other: False
      with nm have "c = CMD_HANDSHAKE_COMPLETE \<or> m = n" by simp
      then show ?thesis
        using True other rise t nm old rising_sorted [OF rise] by (auto simp: in_step_def)
    qed
  qed
qed

end

sublocale ta_service \<subseteq> host_effect "keeps_step counter" H "\<lambda>w w'. unmoved (counter w) (counter w')"
proof
  show "lets_be (\<lambda>w w'. unmoved (counter w) (counter w')) H" by (rule untouched)
next
  fix s :: "'w edge" and c ps types res qs w
  assume "g_teec_open s" "host_params c ps" "env_invoke H c types ps (hw s) = ((res, qs), w)"
  then show "keeps_step counter s (s\<lparr>hw := w, log := log s @ [Invoked c ps res qs]\<rparr>)"
    by (intro keeps_stepI) (erule in_step_invoke, auto simp: host_params_def)
qed (auto simp: keeps_step_def in_step_def read_after_plain rising_sorted unmoved_def intro: in_step_same)

context ta_service begin

text \<open>Opening and closing the session change the flag that the other calls rely on.\<close>

lemma step_init:
  assumes run: "run_state (edge_device_init H) s = (rc, t)"
    and s: "in_step counter s" "epoch_reads (log s) = []" "\<not> g_teec_open s"
  shows "in_step counter t"
proof -
  have log: "log t = log s" by (rule init_log [OF run])
  have "g_teec_open t \<Longrightarrow> \<exists>w. env_teec_open H w = (TEE_SUCCESS, hw t)"
    using run s(3)
    by (auto simp: edge_device_init_def load_config_def prod_eq_iff split: option.splits if_splits)
  then have "g_teec_open t \<Longrightarrow> counter (hw t) \<noteq> NoSession"
    using opens by blast
  then have "g_teec_open t \<Longrightarrow> covers (counter (hw t)) []"
    by (cases "counter (hw t)") simp_all
  with log s show ?thesis by (simp add: in_step_def)
qed

lemma step_shutdown: "bounded (keeps_step counter) (edge_device_shutdown H)"
proof (rule boundedI, rule keeps_stepI)
  fix s u t
  assume run: "run_state (edge_device_shutdown H) s = (u, t)" and s: "in_step counter s"
  obtain u' v where d: "run_state (drop_connection H) s = (u', v)" by (metis prod.exhaust)
  from boundedD [OF step_connection(1) d] s have v: "in_step counter v" by (simp add: keeps_step_def)
  from run d have "log t = log v \<and> \<not> g_teec_open t"
    by (auto simp: edge_device_shutdown_def split: if_splits)
  with v show "in_step counter t" by (simp add: in_step_def)
qed

lemma step_after_init:
  assumes run: "run_state (edge_device_init H \<bind> f) s = (x, t)"
    and s: "in_step counter s" "epoch_reads (log s) = []" "\<not> g_teec_open s"
    and f: "\<And>rc. bounded (keeps_step counter) (f rc)"
  shows "in_step counter t"
proof -
  obtain rc u where i: "run_state (edge_device_init H) s = (rc, u)" by (metis prod.exhaust)
  with run have "run_state (f rc) u = (x, t)" by simp
  from boundedD [OF f this] step_init [OF i s] show ?thesis by (simp add: keeps_step_def)
qed

lemma step_main_start:
  assumes run: "run_state (main_start H args) s = (pc, t)"
    and s: "in_step counter s" "epoch_reads (log s) = []" "\<not> g_teec_open s"
  shows "in_step counter t"
proof -
  have modes: "in_step counter t" if "run_state (provision_sensor_secret_mode H) s = (rc, t) \<or>
      run_state (provision_ta_identity_mode H) s = (rc, t)" for rc t
    using that unfolding provision_sensor_secret_mode_def provision_ta_identity_mode_def
    by (elim disjE; elim step_after_init [OF _ s]) (intro step_rules step_ta_calls step_shutdown)+
  consider "\<exists>rc. run_state (provision_sensor_secret_mode H) s = (rc, t)"
    | "\<exists>rc. run_state (provision_ta_identity_mode H) s = (rc, t)"
    | "\<not> (args = [ascii ''--provision-sensor-secret''] \<or> args = [ascii ''--provision-ta-identity''])"
    using run by (auto simp: main_start_def split: if_splits prod.splits)
  then show ?thesis
  proof cases
    case 3
    then show ?thesis
      using run unfolding main_start_def de_Morgan_disj
      by (elim conjE, simp only: if_False) (erule step_after_init [OF _ s], intro step_rules step_ta_calls step_shutdown)
  qed (use modes in blast)+
qed

lemma in_step_reach:
  "main_reach H args pc s \<Longrightarrow> in_step counter s \<and> (pc = Starting \<longrightarrow> epoch_reads (log s) = [] \<and> \<not> g_teec_open s)"
proof (induction rule: main_reach.induct)
  case (step pc s pc' s')
  have "pc' \<noteq> Starting"
    using step.hyps(2) by (cases pc) (auto simp: main_start_def push_iter_def split: if_splits prod.splits option.splits)
  moreover have "in_step counter s'"
  proof (cases pc)
    case Starting
    with step step_main_start show ?thesis by simp
  next
    case (Pushing i)
    with step boundedD [OF step_push] show ?thesis by (auto simp: keeps_step_def)
  qed (use step in simp)
  ultimately show ?case by simp
qed (simp add: in_step_def edge_start_def)

text \<open>So the counters of two data messages with no new key between them rise.\<close>

lemma data_counters_rise:
  assumes laws: "b64_laws H" "teec_laws H" and reach: "main_reach H args pc s" and ij: "i < j" "j < length (log s)"
    and data: "log s ! i = Message (JString n (ascii ''data'') # JString x d # JNumber y a # ms)"
      "log s ! j = Message (JString n' (ascii ''data'') # JString x' d' # JNumber y' b # ms')"
    and quiet: "\<And>k. i < k \<Longrightarrow> k < j \<Longrightarrow> \<not> rekeyed (log s ! k)"
  shows "a < b"
proof -
  have ok: "events_ok H (log s)" using main_reach_inv [OF laws reach] by (simp add: main_inv_def)
  have before: "\<exists>h ps qs. k = Suc h \<and> log s ! h = Invoked CMD_READ_AND_PROTECT ps TEE_SUCCESS qs \<and> q = value_a (qs ! 2)"
    if k: "k < length (log s)" and e: "log s ! k = Message (JString n (ascii ''data'') # JString x d # JNumber y q # ms)"
    for k n x d y q ms
  proof -
    have "is_data (log s ! k)" using e by simp
    then have "data_ok H (take k (log s)) (log s ! k)"
      using ok k unfolding events_ok_def by blast
    then obtain zs ps qs where z: "take k (log s) = zs @ [Invoked CMD_READ_AND_PROTECT ps TEE_SUCCESS qs]"
      "q = value_a (qs ! 2)" unfolding e data_ok_def by auto
    from arg_cong [OF z(1), of length] k have "k = Suc (length zs)" by simp
    moreover from arg_cong [OF z(1), of "\<lambda>l. l ! length zs"] this
    have "log s ! length zs = Invoked CMD_READ_AND_PROTECT ps TEE_SUCCESS qs" by simp
    ultimately show ?thesis using z(2) by blast
  qed
  obtain g ps qs where i: "i = Suc g" "log s ! g = Invoked CMD_READ_AND_PROTECT ps TEE_SUCCESS qs" "a = value_a (qs ! 2)"
    using before [OF _ data(1)] ij by auto
  obtain h ps' qs' where j: "j = Suc h" "log s ! h = Invoked CMD_READ_AND_PROTECT ps' TEE_SUCCESS qs'" "b = value_a (qs' ! 2)"
    using before [OF ij(2) data(2)] by auto
  have "\<not> rekeyed (log s ! k)" if "g < k" "k < h" for k
    using quiet [of k] that i(1) j(1) data(1) by (cases "k = i") auto
  with rising_reads [of "log s" g h ps qs ps' qs'] in_step_reach [OF reach] ij i j
  show ?thesis by (auto simp: in_step_def word_less_nat_alt)
qed

end

section \<open>The TA behind the client library\<close>

text \<open>
  How the client library and the driver hand the parameters of an operation to the TA and back:
  a temporary reference becomes a shared buffer of its size; what the TA leaves in an output
  buffer is copied back when its size still fits, and its size always is.
\<close>

fun shared_buffer :: "op_param \<Rightarrow> bytes" where
  "shared_buffer (TmpRef b n) = take n b"
| "shared_buffer _ = []"

fun value_pair :: "op_param \<Rightarrow> u32 \<times> u32" where
  "value_pair (ValueRef a b) = (a, b)"
| "value_pair _ = (0, 0)"

definition load_params :: "op_param list \<Rightarrow> 'e ta_state \<Rightarrow> 'e ta_state" where
  "load_params ps s = s\<lparr>shm := map shared_buffer ps, psize := map (length \<circ> shared_buffer) ps, pvalue := map value_pair ps\<rparr>"

fun store_param :: "ptype \<Rightarrow> op_param \<Rightarrow> bytes \<Rightarrow> nat \<Rightarrow> u32 \<times> u32 \<Rightarrow> op_param" where
  "store_param PT_MEMREF_OUTPUT (TmpRef b n) m k v = TmpRef (if k \<le> n then splice 0 (take (min k (length b)) m) b else b) k"
| "store_param PT_VALUE_OUTPUT (ValueRef x y) m k v = ValueRef (fst v) (snd v)"
| "store_param _ p m k v = p"

definition store_params :: "ptype list \<Rightarrow> op_param list \<Rightarrow> 'e ta_state \<Rightarrow> op_param list" where
  "store_params types ps t = map (\<lambda>i. store_param (types ! i) (ps ! i) (shm t ! i) (psize t ! i) (pvalue t ! i)) [0..<4]"

lemma store_params_nth:
  "i < 4 \<Longrightarrow> store_params types ps t ! i = store_param (types ! i) (ps ! i) (shm t ! i) (psize t ! i) (pvalue t ! i)"
  by (simp add: store_params_def)

text \<open>\<open>TEEC_ERROR_TARGET_DEAD\<close>, the answer of a TA that has panicked.\<close>

definition TARGET_DEAD :: TEE_Result where
  "TARGET_DEAD = TEE_OTHER 0xFFFF3024"

text \<open>Between two commands other sessions may seal objects and the link may move on.\<close>

definition elsewhere :: "'e storage_view \<Rightarrow> 'e ta_state tee_session \<Rightarrow> 'e ta_state tee_session \<Rightarrow> bool" where
  "elsewhere V a b \<longleftrightarrow> b = a \<or>
     (\<exists>s x rd tx w. a = Live s \<and> V (ext s) \<subseteq>\<^sub>m V x \<and> b = Live (link_update s x rd tx w))"

text \<open>
  One command: it fails before it reaches the TA, or the TA runs on the loaded parameters and
  returns, or it panics and the session is dead from then on.
\<close>

inductive commanded ::
    "'e storage_view \<Rightarrow> 'e platform \<Rightarrow> nat \<Rightarrow> ptype list \<Rightarrow> op_param list \<Rightarrow> TEE_Result \<Rightarrow> op_param list \<Rightarrow>
     'e ta_state tee_session \<Rightarrow> 'e ta_state tee_session \<Rightarrow> bool"
  for V :: "'e storage_view" and P :: "'e platform" where
  unreached: "res \<noteq> TEE_SUCCESS \<Longrightarrow> elsewhere V a b \<Longrightarrow> commanded V P c types ps res qs a b"
| returned: "elsewhere V a (Live s) \<Longrightarrow>
    run_state (TA_InvokeCommandEntryPoint P c types) (load_params ps s) = (Ret res, t) \<Longrightarrow>
    commanded V P c types ps res (store_params types ps t) a (Live t)"
| panicked: "elsewhere V a (Live s) \<Longrightarrow>
    run_state (TA_InvokeCommandEntryPoint P c types) (load_params ps s) = (Panicked, t) \<Longrightarrow>
    commanded V P c types ps TARGET_DEAD qs a Dead"

definition runs_ta :: "('w, 'j) host_env \<Rightarrow> 'e storage_view \<Rightarrow> 'e platform \<Rightarrow> ('w \<Rightarrow> 'e ta_state tee_session) \<Rightarrow> bool" where
  "runs_ta H V P st \<longleftrightarrow> lets_be (\<lambda>w w'. elsewhere V (st w) (st w')) H \<and>
     (\<forall>w w'. env_teec_open H w = (TEE_SUCCESS, w') \<longrightarrow>
        (\<exists>x s. fresh_ta x \<and> run_state (TA_OpenSessionEntryPoint P) x = (TEE_SUCCESS, s) \<and> st w' = Live s)) \<and>
     (\<forall>c types ps w res qs w'. length ps = 4 \<longrightarrow> env_invoke H c types ps w = ((res, qs), w') \<longrightarrow>
        commanded V P c types ps res qs (st w) (st w'))"

text \<open>The counter the client sees; a state outside the invariant of the TA counts as no session.\<close>

fun counter_of :: "'e storage_view \<Rightarrow> 'e ta_state tee_session \<Rightarrow> nat tee_session" where
  "counter_of V (Live s) = (if ta_inv V s then Live (unat (send_seq (sess s))) else NoSession)"
| "counter_of V NoSession = NoSession"
| "counter_of V Dead = Dead"

lemma ta_inv_load: "ta_inv V (load_params ps s) = ta_inv V s"
  by (simp add: ta_inv_def load_params_def)

lemma sess_load [simp]: "sess (load_params ps s) = sess s"
  by (simp add: load_params_def)

lemma ready_load: "ta_inv V s \<Longrightarrow> length ps = 4 \<Longrightarrow> cmd_ready (load_params ps s)"
  by (simp add: cmd_ready_def load_params_def ta_inv_def)

lemma elsewhere_counter:
  assumes "elsewhere V a b"
  shows "unmoved (counter_of V a) (counter_of V b)"
proof -
  have "ta_inv V (link_update s x rd tx w)" if "ta_inv V s" "V (ext s) \<subseteq>\<^sub>m V x" for s x rd tx w
    using ta_inv_ext [OF that] by (simp add: ta_inv_def)
  with assms show ?thesis by (auto simp: elsewhere_def unmoved_def)
qed

lemma opened_inv:
  assumes "platform_laws V P" "fresh_ta x" "run_state (TA_OpenSessionEntryPoint P) x = (TEE_SUCCESS, s)"
  shows "ta_inv V s"
  by (rule ta_hist_inv [OF assms(1) ta_hist.opened [OF assms(2,3)]])

text \<open>A successful reading leaves its counter in the third parameter.\<close>

lemma protect_value:
  assumes laws: "platform_laws V P" and inv: "ta_inv V s" and ready: "cmd_ready s"
    and run: "run_state (TA_InvokeCommandEntryPoint P CMD_READ_AND_PROTECT types) s = (Ret TEE_SUCCESS, t)"
  shows "types ! 2 = PT_VALUE_OUTPUT" "unat (fst (pvalue t ! 2)) = unat (send_seq (sess t))"
proof -
  from run have r: "run_state (ta_read_and_protect P types) s = (TEE_SUCCESS, t)"
    by (auto simp: TA_InvokeCommandEntryPoint_def returning_def split: prod.splits)
  then show "types ! 2 = PT_VALUE_OUTPUT"
    by (auto simp: ta_read_and_protect_def split: if_splits)
  have "protect_post V P s TEE_SUCCESS t"
    by (rule wp_run [OF wp_ta_read_and_protect [OF laws inv ready] r])
  then have "pvalue t = (pvalue s)[2 := (ucast (send_seq (sess t)), 0)]" "send_seq (sess t) = send_seq (sess s) + 1"
    "send_seq (sess s) < 0xffffffff"
    by (auto simp: protect_post_def message_ok_def Let_def)
  moreover have "length (pvalue s) = 4" using ready by (simp add: cmd_ready_def)
  moreover have "send_seq (sess s) + 1 \<le> 0xffffffff" using calculation(3) by (simp add: inc_le)
  then have "unat (send_seq (sess t)) < 2 ^ 32"
    using calculation(2) by (simp add: word_le_nat_alt)
  then have "unat (ucast (send_seq (sess t)) :: u32) = unat (send_seq (sess t))"
    by (simp add: unsigned_ucast_eq take_bit_nat_eq_self)
  ultimately show "unat (fst (pvalue t ! 2)) = unat (send_seq (sess t))" by simp
qed

lemma served_commanded:
  assumes laws: "platform_laws V P" and run: "commanded V P c types ps res qs a b" and n: "length ps = 4"
    and up: "counter_of V a \<noteq> NoSession"
  shows "served c ps res qs (counter_of V a) (counter_of V b)"
  using run
proof cases
  case unreached
  with elsewhere_counter [OF unreached(2)] up show ?thesis by (auto simp: unmoved_def served_def)
next
  case (returned s t)
  have a: "counter_of V a = counter_of V (Live s)"
    using elsewhere_counter [OF returned(3)] up by (simp add: unmoved_def)
  then have s: "ta_inv V s" using up by (simp split: if_splits)
  let ?s = "load_params ps s"
  have inv: "ta_inv V ?s" and ready: "cmd_ready ?s" using s n by (simp_all add: ta_inv_load ready_load)
  have t: "ta_inv V t" by (rule dispatch.run_inv [OF laws inv ready returned(4)])
  have post: "counter_post c res (sess s) (sess t)"
    using wp_run [OF wp_dispatch_counter [OF laws inv ready] returned(4)] by simp
  show ?thesis
  proof (cases "res = TEE_SUCCESS \<and> c = CMD_READ_AND_PROTECT")
    case False
    with post have "res = TEE_SUCCESS \<and> c = CMD_HANDSHAKE_COMPLETE \<or> send_seq (sess t) = send_seq (sess s)"
      by (auto simp: counter_post_def split: if_splits)
    with False a s t returned(2) show ?thesis by (auto simp: served_def)
  next
    case True
    with post have q: "send_seq (sess s) < 0xffffffff" "send_seq (sess t) = send_seq (sess s) + 1"
      by (simp_all add: counter_post_def)
    have less: "unat (send_seq (sess s)) < unat (send_seq (sess t))"
      unfolding q(2) using seq_step [OF q(1)] by (simp add: word_less_nat_alt)
    have val: "unat (value_a (qs ! 2)) = unat (send_seq (sess t))" if "ps ! 2 = ValueRef x y" for x y
    proof -
      have run: "run_state (TA_InvokeCommandEntryPoint P CMD_READ_AND_PROTECT types) ?s = (Ret TEE_SUCCESS, t)"
        using returned(4) True by simp
      show ?thesis
        using protect_value [OF laws inv ready run] store_params_nth [of 2 types ps t] that unfolding returned(1) by simp
    qed
    from True a s t returned(2) less val show ?thesis by (auto simp: served_def)
  qed
next
  case panicked
  then show ?thesis by (simp add: served_def TARGET_DEAD_def)
qed

locale ta_host =
  fixes H :: "('w, 'j) host_env" and V :: "'e storage_view" and P :: "'e platform" and st :: "'w \<Rightarrow> 'e ta_state tee_session"
  assumes laws: "platform_laws V P" and runs: "runs_ta H V P st"

sublocale ta_host \<subseteq> ta_service H "counter_of V \<circ> st"
proof
  show "lets_be (\<lambda>w w'. unmoved ((counter_of V \<circ> st) w) ((counter_of V \<circ> st) w')) H"
    using runs elsewhere_counter unfolding runs_ta_def by (auto elim!: lets_be_mono)
next
  fix w w'
  assume "env_teec_open H w = (TEE_SUCCESS, w')"
  then show "(counter_of V \<circ> st) w' \<noteq> NoSession"
    using runs opened_inv [OF laws] unfolding runs_ta_def by fastforce
next
  fix c types ps w res qs w'
  assume "env_invoke H c types ps w = ((res, qs), w')" and n: "length ps = 4" and up: "(counter_of V \<circ> st) w \<noteq> NoSession"
  with runs have "commanded V P c types ps res qs (st w) (st w')" by (auto simp: runs_ta_def)
  then show "served c ps res qs ((counter_of V \<circ> st) w) ((counter_of V \<circ> st) w')"
    using served_commanded [OF laws _ n] up by simp
qed

context ta_host begin

lemma pushed_rise:
  assumes "b64_laws H" "teec_laws H" "main_reach H args pc s" "i < j" "j < length (log s)"
    and "log s ! i = Message (JString n (ascii ''data'') # JString x d # JNumber y a # ms)"
      "log s ! j = Message (JString n' (ascii ''data'') # JString x' d' # JNumber y' b # ms')"
    and "\<And>k. i < k \<Longrightarrow> k < j \<Longrightarrow> \<not> rekeyed (log s ! k)"
  shows "a < b"
  by (rule data_counters_rise [OF assms])

end

end
