(* ===== verification/HostBounds.thy ===== *)
theory HostBounds
  imports HostMain
begin

text \<open>
  The buffers of the Host process: its arrays keep their sizes, its strings fit them, and no
  call into the TA is told of more bytes than its buffer has, whatever the configuration, the
  environment and the server say.
\<close>

section \<open>Sizes\<close>

fun param_fits :: "op_param \<Rightarrow> bool" where
  "param_fits (TmpRef b n) \<longleftrightarrow> n \<le> length b"
| "param_fits _ \<longleftrightarrow> True"

fun call_fits :: "host_event \<Rightarrow> bool" where
  "call_fits (Invoked c ps r qs) \<longleftrightarrow> list_all param_fits ps"
| "call_fits _ \<longleftrightarrow> True"

lemma low_level_fits: "low_level e \<Longrightarrow> call_fits e"
  by (cases e) simp_all

definition sizes :: "'w edge \<Rightarrow> bool" where
  "sizes s \<longleftrightarrow> length (g_device_id s) \<le> 63 \<and> length (g_server_host s) \<le> 63 \<and> length (g_ak_handle s) \<le> 31 \<and>
     length (g_nonce s) = NONCE_MAX \<and> length (g_server_ecdh_pub s) = ECDH_PUBKEY_SIZE \<and>
     length (g_server_identity_pub s) = ECDH_PUBKEY_SIZE \<and> length (g_server_sig s) = SERVER_SIG_SIZE \<and>
     list_all call_fits (log s)"

abbreviation nonce_fits :: "'w edge \<Rightarrow> bool" where
  "nonce_fits s \<equiv> g_nonce_len s \<le> NONCE_MAX"

text \<open>Keeping sizes; keeping them and the length of the nonce.\<close>

definition sized :: "'w edge \<Rightarrow> 'w edge \<Rightarrow> bool" where
  "sized s t \<longleftrightarrow> (sizes s \<longrightarrow> sizes t) \<and> (sizes s \<longrightarrow> nonce_fits s \<longrightarrow> nonce_fits t)"

interpretation sized: effect_order sized
  by unfold_locales (auto simp: sized_def)

definition framed :: "'w edge \<Rightarrow> 'w edge \<Rightarrow> bool" where
  "framed s t \<longleftrightarrow> (sizes s \<longrightarrow> nonce_fits s \<longrightarrow> sizes t \<and> nonce_fits t)"

interpretation framed: effect_order framed
  by unfold_locales (auto simp: framed_def)

lemma sized_framed: "bounded sized m \<Longrightarrow> bounded framed m"
  by (erule bounded_mono) (auto simp: sized_def framed_def)

lemma sized_host_only: "bounded host_only m \<Longrightarrow> bounded sized m"
proof (erule bounded_mono)
  fix s t :: "'w edge"
  assume "host_only s t"
  then obtain w es where "t = s\<lparr>hw := w, log := log s @ es\<rparr>" "list_all low_level es"
    by (auto simp: host_only_def)
  moreover from this(2) have "list_all call_fits es"
    by (rule list.pred_mono_strong) (simp add: low_level_fits)
  ultimately show "sized s t" by (auto simp: sized_def sizes_def)
qed

named_theorems sized_intros "calls that keep the sizes of the buffers"

lemmas sized_lower [sized_intros] =
  host_only_env_op [THEN sized_host_only] host_only_env_do [THEN sized_host_only]
  host_only_send_line [THEN sized_host_only] host_only_recv_line [THEN sized_host_only]
  host_only_json_object [THEN sized_host_only] host_only_report [THEN sized_host_only]
  host_only_mono_now [THEN sized_host_only] host_only_recv [THEN sized_host_only]
  host_only_try [THEN sized_host_only]

lemma sized_modify [sized_intros]:
  "(\<And>s. sizes s \<Longrightarrow> sizes (f s) \<and> (nonce_fits s \<longrightarrow> nonce_fits (f s))) \<Longrightarrow> bounded sized (modify f)"
  by (rule sized.bounded_modify) (simp add: sized_def)

lemma sized_note [sized_intros]: "call_fits e \<Longrightarrow> bounded sized (note_event e)"
  by (simp add: bounded_def sized_def sizes_def)

lemma sized_invoke [sized_intros]:
  "list_all param_fits ps \<Longrightarrow> bounded sized (teec_invoke H cmd types ps :: ('w edge, _) state)"
  by (auto simp: bounded_def teec_invoke_def sized_def sizes_def split: prod.splits)

lemmas sized_rules = sized.bounded_rules sized_intros

section \<open>The operations\<close>

lemma sizes_setting: "sizes s \<Longrightarrow> sizes (apply_setting k v s) \<and> g_nonce_len (apply_setting k v s) = g_nonce_len s"
  by (simp add: apply_setting_def sizes_def snprintf_def)

lemma sizes_env: "sizes s \<Longrightarrow> sizes (from_env H n m s) \<and> g_nonce_len (from_env H n m s) = g_nonce_len s"
  by (simp add: from_env_def sizes_setting split: option.split)

lemma sizes_line: "sizes s \<Longrightarrow> sizes (config_line l s) \<and> g_nonce_len (config_line l s) = g_nonce_len s"
  by (simp add: config_line_def Let_def sizes_setting)

lemma sizes_lines: "sizes s \<Longrightarrow> sizes (fold config_line ls s) \<and> g_nonce_len (fold config_line ls s) = g_nonce_len s"
  by (induction ls arbitrary: s) (simp_all add: sizes_line)

lemma sizes_flags [simp]:
  "sizes (s\<lparr>g_teec_open := b\<rparr>) = sizes s" "sizes (s\<lparr>g_conn := c\<rparr>) = sizes s" "sizes (s\<lparr>g_conn_open := b\<rparr>) = sizes s"
  "sizes (s\<lparr>g_attested := b\<rparr>) = sizes s" "sizes (s\<lparr>g_session_expiry := x\<rparr>) = sizes s" "sizes (s\<lparr>g_last_seq := q\<rparr>) = sizes s"
  "sizes (s\<lparr>g_nonce_len := n\<rparr>) = sizes s"
  by (simp_all add: sizes_def)

lemma sized_init: "bounded sized (edge_device_init H)"
  unfolding edge_device_init_def load_config_def
  by (intro sized_rules; simp add: sizes_env sizes_lines)

lemma sized_connection:
  "bounded sized (drop_connection H)" "bounded sized (edge_device_shutdown H)" "bounded sized (edge_reset_connection H)"
  unfolding edge_device_shutdown_def edge_reset_connection_def drop_connection_def net_close_def
  by (intro sized_rules; simp)+

lemma sized_calls:
  "bounded sized (edge_authenticate_sensor H)" "bounded sized (edge_provision_sensor_secret H)"
  "bounded sized (edge_provision_ta_identity H)" "bounded sized (edge_call_ta H n)"
  unfolding edge_authenticate_sensor_def edge_provision_sensor_secret_def edge_provision_ta_identity_def
    edge_call_ta_def ta_read_and_protect_encode_def
  by (intro sized_rules; simp)+

lemma sized_send_json: "bounded sized (send_json_line H msg)"
  unfolding send_json_line_def by (intro sized_rules; simp)

lemma sized_send_data: "bounded sized (edge_send_sensor_data_to_server H d)"
  unfolding edge_send_sensor_data_to_server_def
  by (auto intro!: sized_rules sized_send_json split: b64_result.split)

text \<open>The two calls that hand the server's nonce to the TA need its length to be that of a nonce.\<close>

lemma framed_nonce_calls: "bounded framed (ta_handshake_init H)" "bounded framed (edge_handshake H)"
  unfolding ta_handshake_init_def edge_handshake_def teec_invoke_def
  by (auto simp: bounded_def framed_def sizes_def split: prod.splits)

lemma splice_fits: "length d \<le> length buf \<Longrightarrow> length (splice 0 d buf) = length buf"
  by simp

lemma b64_decode_fits: "b64_laws H \<Longrightarrow> b64_decode H n text = Decoded d \<Longrightarrow> length d \<le> n"
  by (simp add: b64_laws_def)

lemma sized_decode_fixed:
  assumes "b64_laws H"
    and "\<And>d s. sizes s \<Longrightarrow> length d \<le> n \<Longrightarrow> sizes (upd (splice 0 d) s) \<and> g_nonce_len (upd (splice 0 d) s) = g_nonce_len s"
  shows "bounded sized (decode_fixed H j name n upd)"
  unfolding decode_fixed_def
  by (auto split: option.split b64_result.split intro!: sized_rules simp: assms(2) dest!: b64_decode_fits [OF assms(1)])

lemma sized_points:
  assumes "b64_laws H"
  shows "bounded sized (decode_fixed H j name ECDH_PUBKEY_SIZE g_server_ecdh_pub_update)"
    "bounded sized (decode_fixed H j name ECDH_PUBKEY_SIZE g_server_identity_pub_update)"
    "bounded sized (decode_fixed H j name SERVER_SIG_SIZE g_server_sig_update)"
  by (rule sized_decode_fixed [OF assms], simp add: sizes_def)+

text \<open>After the nonce has been decoded it fits, whatever its length was before.\<close>

lemma decode_nonce_fits:
  assumes laws: "b64_laws H" and run: "run_state (decode_nonce H j) s = (rc, t)" and s: "sizes s"
  shows "sizes t \<and> (rc = 0 \<longrightarrow> nonce_fits t)"
proof (cases "\<exists>text d. j_string H j ''nonce'' = Some text \<and> b64_decode H NONCE_MAX text = Decoded d")
  case True
  then obtain enc d where d: "j_string H j ''nonce'' = Some enc" "b64_decode H NONCE_MAX enc = Decoded d" by blast
  from b64_decode_fits [OF laws d(2)] run s d show ?thesis
    by (auto simp: decode_nonce_def sizes_def)
next
  case False
  with run s show ?thesis
    by (auto simp: decode_nonce_def split: option.splits b64_result.splits)
qed

lemma read_challenge_fits:
  assumes laws: "b64_laws H" and run: "run_state (read_challenge H) s = (rc, t)" and s: "sizes s"
  shows "sizes t \<and> (rc = 0 \<longrightarrow> nonce_fits t)"
proof -
  obtain m u where r: "run_state (recv_message H) s = (m, u)" by (metis prod.exhaust)
  have u: "sizes u"
    using boundedD [OF sized_host_only [OF host_only_recv] r] s by (simp add: sized_def)
  show ?thesis
  proof (cases "\<exists>j. m = Some j \<and> j_string H j ''type'' \<noteq> Some (ascii ''error'')")
    case False
    with run r u show ?thesis by (auto simp: read_challenge_def server_error_def split: option.splits if_splits)
  next
    case True
    then obtain j where j: "m = Some j" "j_string H j ''type'' \<noteq> Some (ascii ''error'')" by blast
    obtain rc1 v where n: "run_state (decode_nonce H j) u = (rc1, v)" by (metis prod.exhaust)
    from decode_nonce_fits [OF laws n u] have v: "sizes v" "rc1 = 0 \<Longrightarrow> nonce_fits v" by simp_all
    show ?thesis
    proof (cases "rc1 = 0")
      case False
      with run r j n v show ?thesis by (auto simp: read_challenge_def)
    next
      case True
      let ?rest = "do {
          rc \<leftarrow> decode_fixed H j ''server_ecdh_pub'' ECDH_PUBKEY_SIZE g_server_ecdh_pub_update;
          if rc \<noteq> 0 then State_Monad.return (- 1)
          else do {
            rc \<leftarrow> decode_fixed H j ''server_identity_pub'' ECDH_PUBKEY_SIZE g_server_identity_pub_update;
            if rc \<noteq> 0 then State_Monad.return (- 1) else State_Monad.return 0 } }"
      have "bounded sized ?rest"
        by (intro sized.bounded_rules sized_points laws)
      moreover have "run_state ?rest v = (rc, t)"
        using run r j n True by (simp add: read_challenge_def)
      ultimately have "sized v t" by (rule boundedD)
      with v True show ?thesis by (simp add: sized_def)
    qed
  qed
qed

lemma framed_respond: "bounded framed (attest_respond H)"
  unfolding attest_respond_def
  by (auto intro!: framed.bounded_rules framed_nonce_calls sized_framed [OF sized_send_json]
    sized_lower [THEN sized_framed] split: option.split)

lemma framed_result: "b64_laws H \<Longrightarrow> bounded framed (read_result H)"
  unfolding read_result_def
  by (intro framed.bounded_rules sized_points(3) [THEN sized_framed] sized_lower [THEN sized_framed]
    sized_modify [THEN sized_framed]; simp)

section \<open>Sessions\<close>

definition edge_wf :: "'w edge \<Rightarrow> bool" where
  "edge_wf s \<longleftrightarrow> sizes s \<and> (g_attested s \<longrightarrow> nonce_fits s)"

lemma connect_detaches:
  assumes "run_state (attest_connect H) s = (rc, t)" "sizes s"
  shows "sizes t \<and> \<not> g_attested t"
proof -
  let ?u = "s\<lparr>g_attested := False\<rparr>"
  let ?rest = "do {
     is_open \<leftarrow> gets g_conn_open;
     if is_open then State_Monad.return 0
     else do {
       host \<leftarrow> gets g_server_host;
       port \<leftarrow> gets g_server_port;
       conn \<leftarrow> gets g_conn;
       (rc, conn) \<leftarrow> net_connect H host port conn;
       modify (\<lambda>s. s\<lparr>g_conn := conn\<rparr>);
       if rc \<noteq> 0 then State_Monad.return (- 1)
       else do {
         modify (\<lambda>s. s\<lparr>g_conn_open := True\<rparr>);
         State_Monad.return 0 } } }"
  have run: "run_state ?rest ?u = (rc, t)" using assms(1) by (simp add: attest_connect_def)
  have "bounded sized ?rest"
    unfolding net_connect_def by (intro sized_rules; simp)
  then have "sized ?u t" using run by (rule boundedD)
  moreover have "bounded kept ?rest"
    unfolding net_connect_def
    by (intro kept.bounded_rules kept_intros host_only_try [THEN kept_host_only]; simp)
  then have "kept ?u t" using run by (rule boundedD)
  ultimately show ?thesis using assms(2) by (simp add: sized_def kept_def)
qed

lemmas kept_host [kept_intros] =
  host_only_send_line [THEN kept_host_only] host_only_recv_line [THEN kept_host_only]
  host_only_json_object [THEN kept_host_only] host_only_report [THEN kept_host_only]
  host_only_mono_now [THEN kept_host_only] host_only_recv [THEN kept_host_only]

lemma kept_send_json [kept_intros]: "bounded kept (send_json_line H msg)"
  unfolding send_json_line_def by (intro kept.bounded_rules kept_intros)

lemma kept_handshake_calls [kept_intros]: "bounded kept (ta_handshake_init H)" "bounded kept (edge_handshake H)"
  unfolding ta_handshake_init_def edge_handshake_def by (intro kept.bounded_rules kept_intros)+

lemma kept_decode [kept_intros]:
  "(\<And>f s. g_attested (upd f s) = g_attested s) \<Longrightarrow> bounded kept (decode_fixed H j name n upd)"
  "bounded kept (decode_nonce H j)"
  unfolding decode_fixed_def decode_nonce_def
  by (auto split: option.splits b64_result.split intro!: kept.bounded_rules kept_intros)

lemma kept_identity: "bounded kept (edge_provision_ta_identity H)"
  unfolding edge_provision_ta_identity_def by (intro kept.bounded_rules kept_intros)

lemma kept_parts:
  "bounded kept (attest_hello H)" "bounded kept (read_challenge H)" "bounded kept (attest_respond H)"
  "bounded kept (edge_call_ta H n)" "bounded kept (edge_send_sensor_data_to_server H d)"
  unfolding attest_hello_def read_challenge_def attest_respond_def edge_call_ta_def ta_read_and_protect_encode_def
    edge_send_sensor_data_to_server_def
  by (auto intro!: kept.bounded_rules kept_intros split: option.split b64_result.split)

lemma attest_fits:
  assumes laws: "b64_laws H" and run: "run_state (edge_attest_to_server H) s = (rc, t)" and s: "sizes s"
  shows "edge_wf t \<and> (rc = 0 \<longrightarrow> nonce_fits t)"
proof -
  obtain rc1 a where 1: "run_state (attest_connect H) s = (rc1, a)" by (metis prod.exhaust)
  obtain rc2 b where 2: "run_state (attest_hello H) a = (rc2, b)" by (metis prod.exhaust)
  obtain rc3 c where 3: "run_state (read_challenge H) b = (rc3, c)" by (metis prod.exhaust)
  obtain rc4 d where 4: "run_state (attest_respond H) c = (rc4, d)" by (metis prod.exhaust)
  obtain rc5 e where 5: "run_state (read_result H) d = (rc5, e)" by (metis prod.exhaust)
  have a: "sizes a" "\<not> g_attested a" using connect_detaches [OF 1 s] by simp_all
  have "bounded sized (attest_hello H)"
    unfolding attest_hello_def by (intro sized_rules sized_send_json)
  from boundedD [OF this 2] boundedD [OF kept_parts(1) 2] a have b: "sizes b" "\<not> g_attested b"
    by (simp_all add: sized_def kept_def)
  from read_challenge_fits [OF laws 3 b(1)] boundedD [OF kept_parts(2) 3] b(2)
  have c: "sizes c" "\<not> g_attested c" "rc3 = 0 \<Longrightarrow> nonce_fits c" by (simp_all add: kept_def)
  have d: "sizes d \<and> nonce_fits d" if "rc3 = 0"
    using boundedD [OF framed_respond 4] c(1) c(3) [OF that] by (simp add: framed_def)
  have e: "sizes e \<and> nonce_fits e" if "rc3 = 0"
    using boundedD [OF framed_result [OF laws] 5] d [OF that] by (simp add: framed_def)
  from run 1 2 3 4 5 consider "rc1 \<noteq> 0" "t = a" "rc \<noteq> 0" | "rc2 \<noteq> 0" "t = b" "rc \<noteq> 0" | "rc3 \<noteq> 0" "t = c" "rc \<noteq> 0"
    | "rc3 = 0" "t = d" "rc \<noteq> 0" | "rc3 = 0" "t = e"
    by (auto simp: edge_attest_to_server_def split: if_splits)
  then show ?thesis
    by cases (use a b c d e in \<open>simp_all add: edge_wf_def\<close>)
qed

definition keeps_wf :: "'w edge \<Rightarrow> 'w edge \<Rightarrow> bool" where
  "keeps_wf s t \<longleftrightarrow> (edge_wf s \<longrightarrow> edge_wf t)"

interpretation wf: effect_order keeps_wf
  by unfold_locales (simp_all add: keeps_wf_def)

lemma sized_kept_wf: "bounded sized m \<Longrightarrow> bounded kept m \<Longrightarrow> bounded keeps_wf m"
  by (drule (1) bounded_conj, erule bounded_mono) (auto simp: keeps_wf_def edge_wf_def sized_def kept_def)

lemma wf_reset: "bounded keeps_wf (edge_reset_connection H)"
proof (rule boundedI)
  fix s u t
  assume r: "run_state (edge_reset_connection H) s = (u, t)"
  have "\<not> g_attested t"
    using r by (auto simp: edge_reset_connection_def split: prod.splits)
  with boundedD [OF sized_connection(3) r] show "keeps_wf s t"
    by (simp add: keeps_wf_def edge_wf_def sized_def)
qed

lemma wf_ensure: "b64_laws H \<Longrightarrow> bounded keeps_wf (edge_ensure_session H)"
proof -
  assume laws: "b64_laws H"
  have body: "bounded keeps_wf (do {
       rc \<leftarrow> edge_attest_to_server H;
       if rc = - 2 then State_Monad.return (- 1)
       else if rc \<noteq> 0 then State_Monad.return (- 1)
       else do {
         rc \<leftarrow> edge_handshake H;
         if rc \<noteq> 0 then State_Monad.return (- 1) else State_Monad.return 0 } })" (is "bounded _ ?m")
  proof (rule boundedI)
    fix s rc t
    assume run: "run_state ?m s = (rc, t)"
    obtain rc1 a where 1: "run_state (edge_attest_to_server H) s = (rc1, a)" by (metis prod.exhaust)
    obtain rc2 b where 2: "run_state (edge_handshake H) a = (rc2, b)" by (metis prod.exhaust)
    show "keeps_wf s t"
    proof (cases "rc1 = 0")
      case False
      with run 1 attest_fits [OF laws 1] show ?thesis
        by (auto simp: keeps_wf_def edge_wf_def split: if_splits)
    next
      case True
      with run 1 2 have "t = b" by (auto split: if_splits)
      with attest_fits [OF laws 1] boundedD [OF framed_nonce_calls(2) 2] True show ?thesis
        by (auto simp: keeps_wf_def edge_wf_def framed_def)
    qed
  qed
  show ?thesis
    unfolding edge_ensure_session_def
    by (intro wf.bounded_rules body sized_kept_wf [OF sized_lower(7) kept_host(5)])
qed

lemma wf_call: "bounded keeps_wf (edge_call_ta H n)" "bounded keeps_wf (edge_send_sensor_data_to_server H d)"
  by (intro sized_kept_wf sized_calls sized_send_data kept_parts)+

lemma wf_plain: "bounded keeps_wf (env_do f)" "call_fits e \<Longrightarrow> bounded keeps_wf (note_event e)"
  by (intro sized_kept_wf sized_lower kept_lower sized_note kept_note; assumption)+

lemma wf_push: "b64_laws H \<Longrightarrow> bounded keeps_wf (push_iter H i)"
  unfolding push_iter_def
  by (intro wf.bounded_rules wf_ensure wf_reset wf_call wf_plain; simp)

lemma wf_main_start: "bounded keeps_wf (main_start H args)"
  unfolding main_start_def provision_sensor_secret_mode_def provision_ta_identity_mode_def
  by (intro wf.bounded_rules wf_plain sized_kept_wf [OF sized_init kept_start(1)]
    sized_kept_wf [OF sized_calls(1) kept_start(2)] sized_kept_wf [OF sized_calls(2) kept_start(3)]
    sized_kept_wf [OF sized_connection(2) kept_start(4)] sized_kept_wf [OF sized_calls(3) kept_identity]; simp)

lemma main_reach_wf:
  assumes laws: "b64_laws H" and reach: "main_reach H args pc s"
  shows "edge_wf s"
  using reach
proof (induction rule: main_reach.induct)
  case (start w)
  show ?case by (simp add: edge_wf_def sizes_def edge_start_def)
next
  case (step pc s pc' s')
  have "bounded keeps_wf (main_step H args pc)"
    by (cases pc) (simp_all add: wf_main_start wf_push laws wf.bounded_return)
  from boundedD [OF this step.hyps(2)] step.IH show ?case by (simp add: keeps_wf_def)
qed

end
