(* ===== verification/HostRuns.thy ===== *)
theory HostRuns
  imports HostBounds
begin

text \<open>
  A concrete environment for the Host process: base64 itself, a network and a TA on which
  every call succeeds, and a server that accepts the device. The theorems of the root about
  the Host are applied on it.
\<close>

section \<open>Base64\<close>

definition b64_char :: "nat \<Rightarrow> u8" where
  "b64_char n = of_nat (if n < 26 then n + 65 else if n < 52 then n + 71 else if n < 62 then n - 4
     else if n = 62 then 43 else 47)"

definition b64_index :: "u8 \<Rightarrow> nat" where
  "b64_index c = (let m = unat c in
     if m = 43 then 62 else if m = 47 then 63 else if m < 58 then m + 4 else if m < 91 then m - 65 else m - 71)"

fun base64 :: "bytes \<Rightarrow> bytes" where
  "base64 (a # b # c # r) = (let n = unat a * 65536 + unat b * 256 + unat c in
     b64_char (n div 262144) # b64_char (n div 4096 mod 64) # b64_char (n div 64 mod 64) # b64_char (n mod 64) # base64 r)"
| "base64 [a, b] = (let n = unat a * 256 + unat b in
     [b64_char (n div 1024), b64_char (n div 16 mod 64), b64_char (n mod 16 * 4), 61])"
| "base64 [a] = [b64_char (unat a div 4), b64_char (unat a mod 4 * 16), 61, 61]"
| "base64 [] = []"

fun unbase64 :: "bytes \<Rightarrow> bytes option" where
  "unbase64 (p # q # r # s # rest) =
     (if s = 61 \<and> r = 61 then
        (if rest = [] then Some [of_nat (b64_index p * 4 + b64_index q div 16)] else None)
      else if s = 61 then
        (let n = b64_index p * 1024 + b64_index q * 16 + b64_index r div 4 in
         if rest = [] then Some [of_nat (n div 256), of_nat (n mod 256)] else None)
      else
        (let n = b64_index p * 262144 + b64_index q * 4096 + b64_index r * 64 + b64_index s in
         case unbase64 rest of None \<Rightarrow> None
         | Some d \<Rightarrow> Some (of_nat (n div 65536) # of_nat (n div 256 mod 256) # of_nat (n mod 256) # d)))"
| "unbase64 [] = Some []"
| "unbase64 _ = None"

lemma b64_char_ok [simp]:
  assumes "n < 64"
  shows "b64_index (b64_char n) = n" "b64_char n \<noteq> 61" "b64_char n \<noteq> 0"
proof -
  let ?k = "if n < 26 then n + 65 else if n < 52 then n + 71 else if n < 62 then n - 4 else if n = 62 then 43 else 47"
  have k: "unat (b64_char n) = ?k"
    using assms by (simp add: b64_char_def unat_of_nat)
  then show "b64_index (b64_char n) = n"
    using assms by (auto simp: b64_index_def Let_def)
  have "unat (b64_char n) \<noteq> 61" "unat (b64_char n) \<noteq> 0" using assms unfolding k by auto
  then show "b64_char n \<noteq> 61" "b64_char n \<noteq> 0" by auto
qed

lemma length_base64 [simp]: "length (base64 d) = 4 * ((length d + 2) div 3)"
proof (induction d rule: base64.induct)
  case (1 a b c r)
  have "(length r + 5) div 3 = Suc ((length r + 2) div 3)" by presburger
  with 1 show ?case by (simp add: Let_def add.commute)
qed (simp_all add: Let_def)

lemma unat_u8 [simp]: "unat (a :: u8) < 256"
  using unsigned_less [of a, where 'a = nat] by simp

text \<open>Three bytes as four sextets and back.\<close>

lemma sextets:
  fixes n :: nat
  shows "n div 262144 * 262144 + n div 4096 mod 64 * 4096 + n div 64 mod 64 * 64 + n mod 64 = n"
proof -
  define x where "x = n div 64"
  define y where "y = x div 64"
  have d: "n div 4096 = y" "n div 262144 = y div 64"
    by (simp_all add: x_def y_def flip: div_mult2_eq)
  have "n = x * 64 + n mod 64" "x = y * 64 + x mod 64" "y = y div 64 * 64 + y mod 64"
    by (simp_all add: x_def y_def)
  then show ?thesis unfolding d x_def [symmetric] by linarith
qed

lemma octets:
  fixes a b c :: nat
  assumes "a < 256" "b < 256" "c < 256"
  shows "(a * 65536 + b * 256 + c) div 65536 = a" "(a * 65536 + b * 256 + c) div 256 mod 256 = b"
    "(a * 65536 + b * 256 + c) mod 256 = c" "a * 65536 + b * 256 + c < 16777216"
proof -
  have n: "a * 65536 + b * 256 + c = c + 256 * (b + 256 * a)" by simp
  have "(c + 256 * (b + 256 * a)) div 256 = b + 256 * a" "(c + 256 * (b + 256 * a)) mod 256 = c"
    using assms by (simp_all only: div_mult_self2 mod_mult_self2) simp_all
  moreover have "(c + 256 * (b + 256 * a)) div 65536 = (c + 256 * (b + 256 * a)) div 256 div 256"
    by (simp flip: div_mult2_eq)
  moreover have "(b + 256 * a) div 256 = a" "(b + 256 * a) mod 256 = b"
    using assms by simp_all
  ultimately show "(a * 65536 + b * 256 + c) div 65536 = a" "(a * 65536 + b * 256 + c) div 256 mod 256 = b"
    "(a * 65536 + b * 256 + c) mod 256 = c"
    unfolding n by simp_all
  show "a * 65536 + b * 256 + c < 16777216" using assms by linarith
qed

lemma base64_no_nul: "0 \<notin> set (base64 d)"
proof (induction d rule: base64.induct)
  case (1 a b c r)
  have "unat a * 65536 + unat b * 256 + unat c < 16777216"
    using unat_u8 [of a] unat_u8 [of b] unat_u8 [of c] by linarith
  then have "b64_char ((unat a * 65536 + unat b * 256 + unat c) div 262144) \<noteq> 0" by simp
  with 1 show ?case by (auto simp: Let_def dest: sym)
next
  case (2 a b)
  have "unat a * 256 + unat b < 65536" using unat_u8 [of a] unat_u8 [of b] by linarith
  then have "b64_char ((unat a * 256 + unat b) div 1024) \<noteq> 0" "b64_char ((unat a * 256 + unat b) mod 16 * 4) \<noteq> 0"
    by simp_all
  then show ?case by (auto simp: Let_def dest: sym)
next
  case (3 a)
  have "unat a div 4 < 64" using unat_u8 [of a] by linarith
  then have "b64_char (unat a div 4) \<noteq> 0" "b64_char (unat a mod 4 * 16) \<noteq> 0" by simp_all
  then show ?case by (auto dest: sym)
qed simp

lemma unbase64_base64: "unbase64 (base64 d) = Some d"
proof (induction d rule: base64.induct)
  case (1 a b c r)
  let ?n = "unat a * 65536 + unat b * 256 + unat c"
  note o = octets [OF unat_u8 [of a] unat_u8 [of b] unat_u8 [of c]]
  have "?n div 262144 < 64" using o(4) by simp
  with 1 o sextets [of ?n] show ?case by (simp add: Let_def)
next
  case (2 a b)
  let ?n = "unat a * 256 + unat b"
  have "?n < 65536" using unat_u8 [of a] unat_u8 [of b] by linarith
  then have "?n div 1024 < 64" by simp
  moreover have "?n div 1024 * 1024 + ?n div 16 mod 64 * 16 + ?n mod 16 = ?n"
  proof -
    define x where "x = ?n div 16"
    have d: "?n div 1024 = x div 64" by (simp add: x_def flip: div_mult2_eq)
    have "?n = x * 16 + ?n mod 16" "x = x div 64 * 64 + x mod 64" by (simp_all add: x_def)
    then show ?thesis unfolding d x_def [symmetric] by linarith
  qed
  moreover have "?n div 256 = unat a" "?n mod 256 = unat b"
    using unat_u8 [of b] by simp_all
  ultimately show ?case by (simp add: Let_def)
next
  case (3 a)
  have "unat a div 4 < 64" using less_mult_imp_div_less [of "unat a" 64 4] by simp
  then show ?case by simp
qed simp

section \<open>The environment\<close>

definition shrink :: "op_param \<Rightarrow> op_param" where
  "shrink p = (case p of TmpRef b n \<Rightarrow> TmpRef b (min n 100) | ValueRef a b \<Rightarrow> ValueRef 1 0 | NoParam \<Rightarrow> NoParam)"

definition ref_answer :: "string \<Rightarrow> bytes option" where
  "ref_answer name =
     (if name = ''nonce'' then Some (base64 (replicate 32 1))
      else if name = ''server_ecdh_pub'' \<or> name = ''server_identity_pub'' then Some (base64 (replicate 65 4))
      else if name = ''server_sig'' then Some (base64 (replicate 64 5))
      else None)"

definition ref_decode :: "nat \<Rightarrow> bytes \<Rightarrow> b64_result" where
  "ref_decode cap e = (case unbase64 e of
     None \<Rightarrow> Undecoded None
   | Some d \<Rightarrow> if length d \<le> cap then Decoded d else Undecoded (Some (length d)))"

text \<open>
  The state of the environment is what the peer has sent and the process has not read, and
  what the session with the TA is in. The answers of the server and the service behind
  the client library are its parameters.
\<close>

definition env_on ::
    "(string \<Rightarrow> bytes option) \<Rightarrow> 't \<Rightarrow>
     (nat \<Rightarrow> ptype list \<Rightarrow> op_param list \<Rightarrow> 't \<Rightarrow> (TEE_Result \<times> op_param list) \<times> 't) \<Rightarrow> (bytes \<times> 't, unit) host_env" where
  "env_on answer opened invoke =
     \<lparr>env_getaddrinfo = (\<lambda>h p w. (Some [0], w)), env_socket = (\<lambda>a w. (3, w)), env_connect = (\<lambda>fd a w. (0, w)),
      env_close = (\<lambda>fd w. w), env_send = (\<lambda>fd b w. (int (length b), w)),
      env_recv = (\<lambda>fd (q, t). if q = [] then ((0, 0), ([], t)) else ((1, hd q), (tl q, t))),
      env_fopen = (\<lambda>p w. (Some (ascii ''content''), w)), env_getenv = (\<lambda>n. None),
      env_mkstemp = (\<lambda>t w. (Some t, w)), env_unlink = (\<lambda>p w. w), env_system = (\<lambda>c w. (0, w)),
      env_monotonic = (\<lambda>w. (Some 0, w)), env_time = (\<lambda>w. (0, w)), env_sleep = (\<lambda>n w. w),
      env_alloc = (\<lambda>w. (True, w)), env_print = (\<lambda>m w. (Some (ascii ''json''), w)), env_parse = (\<lambda>b w. (Some (), w)),
      j_string = (\<lambda>j n. answer n), j_is_true = (\<lambda>j n. True), j_number = (\<lambda>j n. None),
      b64_encode = (\<lambda>cap d. if 4 * ((length d + 2) div 3) < cap then Some (base64 d) else None),
      b64_decode = ref_decode, env_teec_init = (\<lambda>w. (TEE_SUCCESS, w)),
      env_teec_open = (\<lambda>(q, t). (TEE_SUCCESS, (q, opened))), env_teec_close = (\<lambda>w. w), env_teec_fini = (\<lambda>w. w),
      env_invoke = (\<lambda>c ty ps (q, t). case invoke c ty ps t of (r, u) \<Rightarrow> (r, (q, u)))\<rparr>"

definition ref_host :: "(bytes \<times> unit, unit) host_env" where
  "ref_host = env_on ref_answer () (\<lambda>c ty ps t. ((TEE_SUCCESS, map shrink ps), t))"

lemma env_on_b64: "b64_laws (env_on answer opened invoke)"
  unfolding b64_laws_def env_on_def
  by (auto simp: ref_decode_def unbase64_base64 base64_no_nul split: option.splits if_splits)

lemma env_on_recv: "recv_queue (env_on answer opened invoke) fst"
  by (auto simp: recv_queue_def env_on_def)

lemma ref_b64: "b64_laws ref_host"
  by (simp add: ref_host_def env_on_b64)

lemma ref_recv: "recv_queue ref_host fst"
  by (simp add: ref_host_def env_on_recv)

lemma ref_teec: "teec_laws ref_host"
  by (auto simp: teec_laws_def ref_host_def env_on_def shrink_def split: op_param.split)

section \<open>A run\<close>

lemma env_on_fields [simp]:
  "env_getaddrinfo (env_on an op iv) h p w = (Some [0], w)" "env_socket (env_on an op iv) a w = (3, w)"
  "env_connect (env_on an op iv) fd a w = (0, w)" "env_close (env_on an op iv) fd w = w"
  "env_send (env_on an op iv) fd b w = (int (length b), w)"
  "env_recv (env_on an op iv) fd (q, t) = (if q = [] then ((0, 0), ([], t)) else ((1, hd q), (tl q, t)))"
  "env_fopen (env_on an op iv) p w = (Some (ascii ''content''), w)" "env_getenv (env_on an op iv) n = None"
  "env_mkstemp (env_on an op iv) tn w = (Some tn, w)" "env_unlink (env_on an op iv) p w = w"
  "env_system (env_on an op iv) c w = (0, w)" "env_monotonic (env_on an op iv) w = (Some 0, w)"
  "env_time (env_on an op iv) w = (0, w)"
  "env_sleep (env_on an op iv) k w = w" "env_alloc (env_on an op iv) w = (True, w)"
  "env_print (env_on an op iv) m w = (Some (ascii ''json''), w)" "env_parse (env_on an op iv) b w = (Some (), w)"
  "j_string (env_on an op iv) () n = an n" "j_is_true (env_on an op iv) () n = True" "j_number (env_on an op iv) () n = None"
  "b64_encode (env_on an op iv) cap d = (if 4 * ((length d + 2) div 3) < cap then Some (base64 d) else None)"
  "b64_decode (env_on an op iv) = ref_decode" "env_teec_init (env_on an op iv) w = (TEE_SUCCESS, w)"
  "env_teec_open (env_on an op iv) (q, t) = (TEE_SUCCESS, (q, op))" "env_teec_close (env_on an op iv) w = w"
  "env_teec_fini (env_on an op iv) w = w"
  "env_invoke (env_on an op iv) cmd ty ps (q, t) = (fst (iv cmd ty ps t), (q, snd (iv cmd ty ps t)))"
  by (simp_all add: env_on_def case_prod_beta)

lemma ref_decode_base64 [simp]:
  "ref_decode cap (base64 d) = (if length d \<le> cap then Decoded d else Undecoded (Some (length d)))"
  by (simp add: ref_decode_def unbase64_base64)

lemma ref_answers [simp]:
  "ref_answer ''type'' = None" "ref_answer ''nonce'' = Some (base64 (replicate 32 1))"
  "ref_answer ''server_ecdh_pub'' = Some (base64 (replicate 65 4))"
  "ref_answer ''server_identity_pub'' = Some (base64 (replicate 65 4))"
  "ref_answer ''server_sig'' = Some (base64 (replicate 64 5))"
  by (simp_all add: ref_answer_def)

lemma shrink_simps [simp]:
  "shrink (TmpRef b n) = TmpRef b (min n 100)" "shrink (ValueRef x y) = ValueRef 1 0" "shrink NoParam = NoParam"
  by (simp_all add: shrink_def)

lemma send_all_env [simp]:
  "run_state (send_all (env_on an op iv) fd buf) s = (True, s\<lparr>log := log s @ (if buf = [] then [] else [Tx fd buf])\<rparr>)"
  by (simp add: send_all.simps [of "env_on an op iv" fd buf] send_all.simps [of "env_on an op iv" fd "[]"])

lemma recv_loop_env [simp]:
  "hw s = (10 # q, t) \<Longrightarrow> 1 < cap \<Longrightarrow>
   run_state (recv_loop (env_on an op iv) fd cap []) s = ((0, []), s\<lparr>hw := (q, t), log := log s @ [Rx fd 10]\<rparr>)"
  by (simp add: recv_loop.simps [of "env_on an op iv" fd cap "[]"])

lemma json_add_env [simp]: "run_state (json_add (env_on an op iv) ms fs) s = (Some (ms @ fs), s)"
  by (induction fs arbitrary: ms) simp_all

lemma config_lines_ref [simp]: "fold config_line (config_lines (ascii ''content'')) s = s"
proof -
  have "config_lines (ascii ''content'') = [ascii ''content'']" by code_simp
  moreover have "config_line (ascii ''content'') s = s"
  proof -
    have "takeWhile (\<lambda>b. b \<noteq> 61) (c_string (ascii ''content'')) = c_string (ascii ''content'')" by code_simp
    then show ?thesis by (simp add: config_line_def)
  qed
  ultimately show ?thesis by simp
qed

definition host_pushing :: "(bytes \<times> unit) edge" where
  "host_pushing = snd (run_state (main_start ref_host []) (edge_start ([10, 10], ())))"

lemma host_started:
  "run_state (main_start ref_host []) (edge_start ([10, 10], ())) = (Pushing 3, host_pushing)"
  by (simp add: host_pushing_def ref_host_def prod_eq_iff main_start_def edge_device_init_def load_config_def from_env_def
      edge_provision_sensor_secret_def edge_authenticate_sensor_def teec_invoke_def push_interval_def edge_start_def)

definition host_pushed :: "(bytes \<times> unit) edge" where
  "host_pushed = snd (run_state (push_iter ref_host 3) host_pushing)"

lemma host_round:
  "run_state (push_iter ref_host 3) host_pushing = (Pushing 3, host_pushed)"
  "list_ex is_data (log host_pushed)"
  by (simp_all add: host_pushed_def ref_host_def prod_eq_iff push_iter_def edge_ensure_session_def host_pushing_def main_start_def
    edge_device_init_def load_config_def from_env_def edge_provision_sensor_secret_def edge_authenticate_sensor_def
    teec_invoke_def push_interval_def edge_start_def edge_attest_to_server_def attest_connect_def net_connect_def
    attest_hello_def json_object_def send_json_line_def net_send_line_def read_challenge_def recv_message_def
    net_recv_line_def decode_nonce_def decode_fixed_def attest_respond_def ta_handshake_init_def
    create_attestation_report_def quote_report_def encode_report_def read_text_file_def Let_def tpm2b_def
    read_result_def mono_now_def session_ttl_def edge_handshake_def edge_call_ta_def ta_read_and_protect_encode_def
    edge_send_sensor_data_to_server_def)

lemma host_reached: "main_reach ref_host [] (Pushing 3) host_pushed"
proof -
  have "main_reach ref_host [] (Pushing 3) host_pushing"
    by (rule main_reach.step [OF main_reach.start [of _ _ "([10, 10], ())"]]) (simp add: host_started)
  then show ?thesis by (rule main_reach.step) (simp add: host_round)
qed

end
