(* ===== verification/Reference.thy ===== *)
theory Reference
  imports TaDispatch
begin

text \<open>
  One concrete platform, so that the laws of Platform can be seen to hold together and the
  theorems can be applied to runs: a map for storage, a counter for randomness, a receive
  queue for the UART, cryptography replaced by small functions of the right sizes. Its
  parameters are the digest, the check of a signature, what the Host does to shared memory
  and what happens to the store while a call runs. It models no code of the repository.
\<close>

record store_state =
  store :: "string \<rightharpoonup> bytes"
  ctr :: nat
  rx :: bytes

definition fit :: "nat \<Rightarrow> bytes \<Rightarrow> bytes" where
  "fit n bs = lpad n (take n bs)"

lemma length_fit [simp]: "length (fit n bs) = n"
  by (simp add: fit_def)

lemma fit_full [simp]: "length bs = n \<Longrightarrow> fit n bs = bs"
  by (simp add: fit_def lpad_def)

lemma fit_empty [simp]: "fit n bs = [] \<longleftrightarrow> n = 0"
  using length_fit [of n bs] by (cases "fit n bs") auto

definition checksum :: "bytes \<Rightarrow> bytes" where
  "checksum m = fit 32 [fold (\<lambda>b a. 31 * a + b) m 7, of_nat (length m)]"

definition xor_key :: "bytes \<Rightarrow> bytes \<Rightarrow> bytes" where
  "xor_key k m = map2 (\<lambda>a b. a XOR b) (fit (length m) k) m"

definition ref_create :: "string \<Rightarrow> data_flag list \<Rightarrow> bytes \<Rightarrow> store_state \<Rightarrow> TEE_Result \<times> store_state" where
  "ref_create name fl d e =
     (if store e name = None \<or> TEE_DATA_FLAG_OVERWRITE \<in> set fl
      then (TEE_SUCCESS, e\<lparr>store := (store e)(name \<mapsto> d)\<rparr>)
      else (TEE_ERROR_ACCESS_CONFLICT, e))"

definition ref_full ::
    "(bytes \<Rightarrow> bytes) \<Rightarrow> (bytes \<Rightarrow> bytes \<Rightarrow> bytes \<Rightarrow> bytes \<Rightarrow> bool) \<Rightarrow>
     (bytes list \<Rightarrow> bytes list) \<Rightarrow> (tee_call \<Rightarrow> (string \<rightharpoonup> bytes) \<Rightarrow> (string \<rightharpoonup> bytes)) \<Rightarrow> store_state platform" where
  "ref_full sha ver H R =
     \<lparr>p_sha256 = sha,
      p_hmac = (\<lambda>k m. checksum (k @ m)),
      p_verify = ver,
      p_sign = (\<lambda>d m e. (Some (fit 32 m @ fit 32 d), e)),
      p_ecdh = (\<lambda>d x y. Some (xor_key d (fit 32 x))),
      p_hkdf = (\<lambda>z s i n. fit n (z @ s @ i)),
      p_gcm = (\<lambda>k n a p. (xor_key k p, fit 16 (n @ a))),
      p_random = (\<lambda>n e. (replicate n (of_nat (Suc (ctr e))), e\<lparr>ctr := Suc (ctr e)\<rparr>)),
      p_keypair = (\<lambda>e. ((fit 32 [of_nat (Suc (ctr e))], fit 32 [of_nat (Suc (ctr e))], fit 32 []),
                        e\<lparr>ctr := Suc (ctr e)\<rparr>)),
      p_result = (\<lambda>c e. (TEE_SUCCESS, e\<lparr>store := R c (store e)\<rparr>)),
      p_open = (\<lambda>name e. (if store e name = None then TEE_ERROR_ITEM_NOT_FOUND else TEE_SUCCESS, e)),
      p_read = (\<lambda>name n e. (case store e name of
                   None \<Rightarrow> (TEE_ERROR_ITEM_NOT_FOUND, []) | Some c \<Rightarrow> (TEE_SUCCESS, take n c), e)),
      p_create = ref_create,
      p_host = (\<lambda>m e. (H m, e)),
      p_uart_init = (\<lambda>e. e),
      p_uart_putc = (\<lambda>b e. e),
      p_uart_flush = (\<lambda>e. e),
      p_uart_have_rx = (\<lambda>e. (rx e \<noteq> [], e)),
      p_uart_getchar = (\<lambda>e. (hd (rx e), e\<lparr>rx := tl (rx e)\<rparr>)),
      p_mdelay = (\<lambda>n e. e)\<rparr>"

abbreviation ref_verify :: "bytes \<Rightarrow> bytes \<Rightarrow> bytes \<Rightarrow> bytes \<Rightarrow> bool" where
  "ref_verify x y d sig \<equiv> sig = fit 32 d @ fit 32 x"

abbreviation ref_with ::
    "(bytes list \<Rightarrow> bytes list) \<Rightarrow> (tee_call \<Rightarrow> (string \<rightharpoonup> bytes) \<Rightarrow> (string \<rightharpoonup> bytes)) \<Rightarrow> store_state platform" where
  "ref_with \<equiv> ref_full checksum ref_verify"

text \<open>The plain platform: a quiet Host and no rival session.\<close>

definition ref_platform :: "store_state platform" where
  "ref_platform = ref_with (\<lambda>m. m) (\<lambda>c st. st)"

lemma ref_full_laws:
  assumes "\<And>m. map length (H m) = map length m" and "\<And>c st. st \<subseteq>\<^sub>m R c st"
    and "\<And>m. length (sha m) = 32"
  shows "platform_laws store (ref_full sha ver H R)"
  unfolding platform_laws_def storage_laws_def seals_def host_keeps_sizes_def crypto_sizes_def
  using assms
  by (auto simp: ref_full_def ref_create_def checksum_def xor_key_def map_le_def dom_def
      split: option.split if_split)

lemma ref_with_laws:
  "(\<And>m. map length (H m) = map length m) \<Longrightarrow> (\<And>c st. st \<subseteq>\<^sub>m R c st) \<Longrightarrow> platform_laws store (ref_with H R)"
  by (rule ref_full_laws) (simp_all add: checksum_def)

lemma ref_laws: "platform_laws store ref_platform"
  unfolding ref_platform_def by (rule ref_with_laws) simp_all

lemma ref_quiet: "quiet_host ref_platform"
  by (simp add: quiet_host_def ref_platform_def ref_full_def)

lemma ref_uart: "uart_queue (ref_full sha ver H R) rx"
  by (simp add: uart_queue_def ref_full_def)

definition ref_state :: "(string \<rightharpoonup> bytes) \<Rightarrow> bytes \<Rightarrow> bytes list \<Rightarrow> ta_session \<Rightarrow> store_state ta_state" where
  "ref_state st q m x =
     \<lparr>ext = \<lparr>store = st, ctr = 0, rx = q\<rparr>, uart_ready = True, wire = [], waited = 0,
      shm = m, psize = map length m, pvalue = replicate 4 (0, 0), oob = False,
      n_objects = key_handles x, n_operations = 0, n_persistent = 0, n_sessions = pta_handles x,
      sess = x\<rparr>"

definition ref_identity :: bytes where
  "ref_identity = identity_blob (fit 32 [9]) (fit 32 [9]) (fit 32 []) (ascii ''edge-1'')"

text \<open>Runs on the platform: every call succeeds and the Host is quiet.\<close>

lemma ref_fields [simp]:
  "p_result (ref_full sha ver H R) c e = (TEE_SUCCESS, e\<lparr>store := R c (store e)\<rparr>)" "p_host (ref_full sha ver H R) m e = (H m, e)"
  "p_random (ref_full sha ver H R) n e = (replicate n (of_nat (Suc (ctr e))), e\<lparr>ctr := Suc (ctr e)\<rparr>)"
  "p_open (ref_full sha ver H R) name e = (if store e name = None then TEE_ERROR_ITEM_NOT_FOUND else TEE_SUCCESS, e)"
  "p_read (ref_full sha ver H R) name n e =
     (case store e name of None \<Rightarrow> (TEE_ERROR_ITEM_NOT_FOUND, []) | Some c \<Rightarrow> (TEE_SUCCESS, take n c), e)"
  "p_create (ref_full sha ver H R) = ref_create"
  "p_sha256 (ref_full sha ver H R) b = sha b" "p_hmac (ref_full sha ver H R) k b = checksum (k @ b)"
  "p_sign (ref_full sha ver H R) d b e = (Some (fit 32 b @ fit 32 d), e)"
  "p_verify (ref_full sha ver H R) = ver"
  "p_ecdh (ref_full sha ver H R) d x y = Some (xor_key d (fit 32 x))"
  "p_hkdf (ref_full sha ver H R) z sa i n = fit n (z @ sa @ i)"
  "p_gcm (ref_full sha ver H R) k iv a p = (xor_key k p, fit 16 (iv @ a))"
  by (simp_all add: ref_full_def)

lemma ref_keypair [simp]: "p_keypair (ref_full sha ver H R) e =
    ((fit 32 [of_nat (Suc (ctr e))], fit 32 [of_nat (Suc (ctr e))], fit 32 []), e\<lparr>ctr := Suc (ctr e)\<rparr>)"
  by (simp add: ref_full_def)

lemma length_checksum [simp]: "length (checksum m) = 32"
  by (simp add: checksum_def)

lemma length_xor_key [simp]: "length (xor_key k m) = length m"
  by (simp add: xor_key_def)

text \<open>What the rival sessions do during call \<open>c\<close>.\<close>

definition meanwhile :: "((string \<rightharpoonup> bytes) \<Rightarrow> (string \<rightharpoonup> bytes)) \<Rightarrow> store_state ta_state \<Rightarrow> store_state ta_state" where
  "meanwhile r s = s\<lparr>ext := (ext s)\<lparr>store := r (store (ext s))\<rparr>\<rparr>"

lemma meanwhile_nothing [simp]: "meanwhile (\<lambda>st. st) s = s"
  by (simp add: meanwhile_def)

lemma ref_tee_call [simp]: "run_state (tee_call (ref_full sha ver H R) c) s = (TEE_SUCCESS, meanwhile (R c) s)"
  by (simp add: tee_call_def meanwhile_def)

lemma ref_alloc [simp]:
  "run_state (alloc_object (ref_full sha ver H R) ty b) s =
     (TEE_SUCCESS, meanwhile (R (AllocateTransientObject ty b)) (s\<lparr>n_objects := Suc (n_objects s)\<rparr>))"
  "run_state (alloc_operation (ref_full sha ver H R) alg md b) s =
     (TEE_SUCCESS, meanwhile (R (AllocateOperation alg md b)) (s\<lparr>n_operations := Suc (n_operations s)\<rparr>))"
  by (simp_all add: alloc_object_def alloc_operation_def meanwhile_def)

lemma run_free [simp]:
  "run_state (free_object live) s = ((), if live then s\<lparr>n_objects := n_objects s - 1\<rparr> else s)"
  "run_state (free_operation live) s = ((), if live then s\<lparr>n_operations := n_operations s - 1\<rparr> else s)"
  "run_state close_object s = ((), s\<lparr>n_persistent := n_persistent s - 1\<rparr>)"
  by (simp_all add: free_object_def free_operation_def close_object_def)

lemma run_params [simp]:
  "run_state (get_size i) s = (psize s ! i, s)"
  "run_state (set_size i n) s = ((), s\<lparr>psize := (psize s)[i := n]\<rparr>)"
  "run_state (set_value i a b) s = ((), s\<lparr>pvalue := (pvalue s)[i := (a, b)]\<rparr>)"
  "run_state (get_sess f) s = (f (sess s), s)"
  "run_state (upd_sess g) s = ((), s\<lparr>sess := g (sess s)\<rparr>)"
  by (simp_all add: get_size_def set_size_def set_value_def get_sess_def upd_sess_def)

lemma run_shm_write [simp]:
  "i < length (shm s) \<Longrightarrow> off + length d \<le> length (shm s ! i) \<Longrightarrow>
   run_state (shm_write i off d) s = ((), s\<lparr>shm := (shm s)[i := splice off d (shm s ! i)]\<rparr>)"
  by (simp add: shm_write_def)

lemma ref_shm_read [simp]:
  "i < length (H (shm s)) \<Longrightarrow> off + n \<le> length (H (shm s) ! i) \<Longrightarrow>
   run_state (shm_read (ref_full sha ver H R) i off n) s = (take n (drop off (H (shm s) ! i)), s\<lparr>shm := H (shm s)\<rparr>)"
  by (simp add: shm_read_def host_step_def)

lemma ref_storage [simp]:
  "store (ext s) name = Some c \<Longrightarrow> run_state (open_persistent (ref_full sha ver H R) name) s =
     (TEE_SUCCESS, s\<lparr>n_persistent := Suc (n_persistent s)\<rparr>)"
  "store (ext s) name = None \<Longrightarrow> run_state (open_persistent (ref_full sha ver H R) name) s = (TEE_ERROR_ITEM_NOT_FOUND, s)"
  "store (ext s) name = Some c \<Longrightarrow>
   run_state (read_object_data (ref_full sha ver H R) name n) s = ((TEE_SUCCESS, take n c), s)"
  "store (ext s) name = None \<Longrightarrow> TEE_DATA_FLAG_OVERWRITE \<notin> set fl \<Longrightarrow>
   run_state (create_persistent (ref_full sha ver H R) name fl d) s =
     (TEE_SUCCESS, s\<lparr>ext := (ext s)\<lparr>store := (store (ext s))(name \<mapsto> d)\<rparr>, n_persistent := Suc (n_persistent s)\<rparr>)"
  "store (ext s) name = Some c \<Longrightarrow> TEE_DATA_FLAG_OVERWRITE \<notin> set fl \<Longrightarrow>
   run_state (create_persistent (ref_full sha ver H R) name fl d) s = (TEE_ERROR_ACCESS_CONFLICT, s)"
  by (simp_all add: open_persistent_def read_object_data_def create_persistent_def ref_create_def)

lemma ref_generate_key [simp]: "R (GenerateKey ty) = (\<lambda>st. st) \<Longrightarrow> run_state (generate_key (ref_full sha ver H R) ty) (s :: store_state ta_state) =
    ((TEE_SUCCESS, \<lparr>ec_d = fit 32 [of_nat (Suc (ctr (ext s)))], ec_x = fit 32 [of_nat (Suc (ctr (ext s)))],
       ec_y = fit 32 []\<rparr>), s\<lparr>ext := (ext s)\<lparr>ctr := Suc (ctr (ext s))\<rparr>\<rparr>)"
  by (simp add: generate_key_def)

lemma ref_random [simp]: "run_state (generate_random (ref_full sha ver H R) n) s =
    (replicate n (of_nat (Suc (ctr (ext s)))), s\<lparr>ext := (ext s)\<lparr>ctr := Suc (ctr (ext s))\<rparr>\<rparr>)"
  by (simp add: generate_random_def)

lemma ref_attribute [simp]:
  "length v \<le> cap \<Longrightarrow> run_state (get_attribute (ref_full sha ver H R) a v cap) (s :: store_state ta_state) =
     ((TEE_SUCCESS, v), meanwhile (R (GetObjectBufferAttribute a)) s)"
  by (simp add: get_attribute_def)

lemma ref_coordinate [simp]:
  "length (ec_attr a k) \<le> 32 \<Longrightarrow>
   run_state (read_ec_coordinate (ref_full sha ver H R) a k) s =
     ((TEE_SUCCESS, lpad 32 (ec_attr a k)), meanwhile (R (GetObjectBufferAttribute a)) s)"
  by (simp add: read_ec_coordinate_def lpad_def splice_def)

lemma lpad_full [simp]: "length bs = n \<Longrightarrow> lpad n bs = bs"
  by (simp add: lpad_def)

lemma ref_identity_facts:
  "length ref_identity = 160" "blob_wf ref_identity" "blob_idlen ref_identity = 6"
  "sub 0 32 ref_identity = fit 32 [9]" "sub 97 6 ref_identity = ascii ''edge-1''"
  "or_bytes (fit 32 [9]) \<noteq> 0"
proof -
  note f = identity_blob_fields [of "fit 32 [9]" "fit 32 [9]" "fit 32 []" "ascii ''edge-1''"]
  show "blob_wf ref_identity" unfolding ref_identity_def by (rule f) simp_all
  then show "length ref_identity = 160" by (simp add: blob_wf_def)
  show idlen: "blob_idlen ref_identity = 6" unfolding ref_identity_def by (subst f) simp_all
  have "blob_d ref_identity = fit 32 [9]" unfolding ref_identity_def by (rule f) simp_all
  then show "sub 0 32 ref_identity = fit 32 [9]" by (simp add: blob_d_def)
  have "blob_id ref_identity = ascii ''edge-1''" unfolding ref_identity_def by (rule f) simp_all
  then show "sub 97 6 ref_identity = ascii ''edge-1''" by (simp add: blob_id_def idlen)
  show "or_bytes (fit 32 [9]) \<noteq> 0" by (simp add: or_bytes_0 fit_def lpad_def)
qed

lemma ref_sign:
  assumes "store (ext s) TA_IDENTITY_OBJID = Some ref_identity" "i < length (shm s)" "off + 64 \<le> length (shm s ! i)"
    and "length pub = 65" "length dev = 65"
  shows "run_state (sign_ta_identity (ref_with H (\<lambda>c st. st)) nonce pub dev i off) s =
    (Ret TEE_SUCCESS, s\<lparr>shm := (shm s)[i := splice off (fit 32 (checksum (ta_identity_preimage (ascii ''edge-1'') nonce pub dev)) @
      fit 32 (fit 32 [9])) (shm s ! i)]\<rparr>)"
  using assms ref_identity_facts
  by (simp add: sign_ta_identity_def read_ta_identity_blob_def sign_out_def blob_wf_def ta_identity_preimage_def)

section \<open>The link of the platform\<close>

lemma ref_uart_fields [simp]:
  "p_uart_init (ref_full sha ver H R) e = e" "p_uart_putc (ref_full sha ver H R) b e = e" "p_uart_flush (ref_full sha ver H R) e = e"
  "p_uart_have_rx (ref_full sha ver H R) e = (rx e \<noteq> [], e)"
  "p_uart_getchar (ref_full sha ver H R) e = (hd (rx e), e\<lparr>rx := tl (rx e)\<rparr>)"
  by (simp_all add: ref_full_def)

lemma ref_uart_read_loop:
  "rx (ext s) = bs @ rest \<Longrightarrow> length got + length bs = len \<Longrightarrow>
   run_state (uart_read_loop (ref_full sha ver H R) len got w) s = 
     ((True, got @ bs), s\<lparr>ext := (ext s)\<lparr>rx := rest\<rparr>, wire := wire s @ received bs\<rparr>)"
proof (induction bs arbitrary: got s)
  case Nil
  then show ?case by (subst uart_read_loop.simps) simp
next
  case (Cons b bs)
  have "run_state (uart_read_loop (ref_full sha ver H R) len (got @ [b]) w) 
      (s\<lparr>ext := (ext s)\<lparr>rx := bs @ rest\<rparr>, wire := wire s @ [Received b]\<rparr>) =
      ((True, (got @ [b]) @ bs), s\<lparr>ext := (ext s)\<lparr>rx := rest\<rparr>, wire := wire s @ received (b # bs)\<rparr>)"
    using Cons.prems by (subst Cons.IH) simp_all
  with Cons.prems show ?case by (subst uart_read_loop.simps) (simp add: uart_getchar_def)
qed

lemma ref_read_frame [simp]:
  assumes "rx (ext s) = encode_frame ty p @ rest" "length p \<le> cap" "length p \<le> LINK_READING_MAX"
  shows "run_state (read_frame (ref_full sha ver H R) ty cap) s =
    ((True, p), s\<lparr>ext := (ext s)\<lparr>rx := rest\<rparr>, wire := wire s @ received (encode_frame ty p)\<rparr>)"
proof -
  let ?h = "frame_header ty (of_nat (length p))"
  have 1: "run_state (uart_read (ref_full sha ver H R) FRAME_HDR_SIZE) s = 
      ((True, ?h), s\<lparr>ext := (ext s)\<lparr>rx := p @ rest\<rparr>, wire := wire s @ received ?h\<rparr>)"
    using assms(1) by (simp add: uart_read_def encode_frame_def ref_uart_read_loop [where bs = ?h])
  have 2: "run_state (uart_read (ref_full sha ver H R) (length p)) 
      (s\<lparr>ext := (ext s)\<lparr>rx := p @ rest\<rparr>, wire := wire s @ received ?h\<rparr>) =
      ((True, p), s\<lparr>ext := (ext s)\<lparr>rx := rest\<rparr>, wire := wire s @ received (encode_frame ty p)\<rparr>)"
    by (simp add: uart_read_def encode_frame_def ref_uart_read_loop [where bs = p and rest = rest])
  have l: "unat (of_nat (length p) :: u16) = length p"
    using assms by (simp add: unat_frame_len)
  show ?thesis
    using 1 2 l assms by (cases "p = []") (simp_all add: read_frame_def Let_def, simp add: encode_frame_def)
qed

lemma ref_read_frame_last [simp]:
  assumes "rx (ext s) = encode_frame ty p" "length p \<le> cap" "length p \<le> LINK_READING_MAX"
  shows "run_state (read_frame (ref_full sha ver H R) ty cap) s =
    ((True, p), s\<lparr>ext := (ext s)\<lparr>rx := []\<rparr>, wire := wire s @ received (encode_frame ty p)\<rparr>)"
  using ref_read_frame [where rest = "[]"] assms by simp

lemma ref_put_all [simp]:
  "run_state (uart_put_all (ref_full sha ver H R) bs) s = ((), s\<lparr>wire := wire s @ sent bs\<rparr>)"
  by (induction bs arbitrary: s) (simp_all add: uart_putc_def)

lemma ref_write_frame [simp]:
  "run_state (write_frame (ref_full sha ver H R) ty p) s = ((), s\<lparr>wire := wire s @ sent (encode_frame ty p)\<rparr>)"
  by (simp add: write_frame_def uart_write_def encode_frame_def)

lemma ref_ensure_init [simp]:
  "uart_ready s \<Longrightarrow> run_state (sensor_uart_ensure_init P) s = ((), s)"
  by (simp add: sensor_uart_ensure_init_def)

lemma ref_open_ta_session [simp]:
  "run_state (open_ta_session (ref_full sha ver H R)) s =
     (TEE_SUCCESS, meanwhile (R OpenTASession) (s\<lparr>n_sessions := Suc (n_sessions s)\<rparr>))"
  by (simp add: open_ta_session_def open_session_def TA_CONFIDENTIAL_IOT_UUID_def
    SENSOR_LINK_ALLOWED_CALLER_UUID_def meanwhile_def)

end
