(* ===== verification/Runs.thy ===== *)
theory Runs
  imports Reference
begin

text \<open>
  Concrete runs of the commands on the platform of Reference: provisioning, minting, and one
  session from its opening to its second message. They are the inputs at which the theorems
  of the root are applied.
\<close>

section \<open>Provisioning and minting\<close>

definition sensor_psk :: bytes where
  "sensor_psk = fit 32 [3]"

definition provision_types :: "ptype list" where
  "provision_types = [PT_NONE, PT_NONE, PT_NONE, PT_NONE]"

definition provision_start :: "store_state ta_state" where
  "provision_start = ref_state Map.empty (encode_frame FRAME_SECRET sensor_psk) [[], [], [], []] zero_session"

lemma provision_run_ok:
  "fst (run_state (ta_provision_sensor_secret ref_platform provision_types) provision_start) = TEE_SUCCESS"
  by (simp add: ref_platform_def provision_start_def ta_provision_sensor_secret_def ref_state_def zero_session_def
    open_sensor_pta_def invoke_sensor_pta_def invoke_command_def sensor_link_fetch_secret_def
    sensor_psk_def store_out_def set_out_size_def provision_types_def)

definition mint_start :: "store_state ta_state" where
  "mint_start = ref_state Map.empty [] [ascii ''edge-1'', zeros 65, [], []] zero_session"

definition mint_types :: "ptype list" where
  "mint_types = [PT_MEMREF_INPUT, PT_MEMREF_OUTPUT, PT_NONE, PT_NONE]"

lemma mint_run_ok:
  "fst (run_state (ta_generate_ta_identity ref_platform mint_types) mint_start) = TEE_SUCCESS"
  by (simp add: ref_platform_def mint_start_def mint_types_def ta_generate_ta_identity_def ref_state_def zero_session_def
    mint_identity_def read_ta_identity_blob_def seal_identity_def export_identity_def identity_out_def fill_blob_def
    id_mismatch_def)

section \<open>A session\<close>

text \<open>Identity and secret are sealed; the sensor is authenticated first.\<close>

definition base_store :: "string \<rightharpoonup> bytes" where
  "base_store = [TA_IDENTITY_OBJID \<mapsto> ref_identity, SENSOR_PSK_OBJID \<mapsto> sensor_psk]"

text \<open>The response the sensor gives to the first challenge.\<close>

definition good_response :: bytes where
  "good_response = encode_frame FRAME_CHALLENGE_RESPONSE (checksum (sensor_psk @ replicate 32 1))"

definition auth_start :: "store_state ta_state" where
  "auth_start = ref_state base_store good_response [[], [], [], []] zero_session"

definition session1 :: ta_session where
  "session1 = zero_session\<lparr>sensor_authenticated := True, sensor_pta_sess := Some (), sensor_pta_open := True\<rparr>"

definition auth_end :: "store_state ta_state" where
  "auth_end = snd (run_state (ta_authenticate_sensor ref_platform) auth_start)"

lemma auth_run:
  "run_state (ta_authenticate_sensor ref_platform) auth_start = (TEE_SUCCESS, auth_end)"
  "sess auth_end = session1" "store (ext auth_end) = base_store"
  by (simp_all add: auth_end_def prod_eq_iff ref_platform_def auth_start_def ta_authenticate_sensor_def ref_state_def
    zero_session_def open_sensor_pta_def challenge_sensor_def invoke_sensor_pta_def invoke_command_def
    sensor_link_challenge_def check_response_def mac_compare_def mac_out_def good_response_def sensor_psk_def
    store_out_def set_out_size_def base_store_def session1_def)

text \<open>Evidence for a nonce and the server's point.\<close>

definition ref_nonce :: bytes where
  "ref_nonce = replicate 32 5"

definition server_point :: bytes where
  "server_point = 0x04 # fit 32 [6] @ fit 32 []"

definition ref_key :: ec_key where
  "ref_key = \<lparr>ec_d = fit 32 [1], ec_x = fit 32 [1], ec_y = fit 32 []\<rparr>"

definition evidence_start :: "store_state ta_state" where
  "evidence_start = ref_state base_store [] [zeros 65, ref_nonce, server_point, zeros 96] session1"

definition evidence_types :: "ptype list" where
  "evidence_types = [PT_MEMREF_OUTPUT, PT_MEMREF_INPUT, PT_MEMREF_INPUT, PT_MEMREF_OUTPUT]"

definition session2 :: ta_session where
  "session2 = session1\<lparr>ecdh_keypair := Some ref_key\<rparr>"

definition evidence_end :: "store_state ta_state" where
  "evidence_end = snd (run_state (ta_generate_attestation_evidence ref_platform evidence_types) evidence_start)"

lemma evidence_run:
  "run_state (ta_generate_attestation_evidence ref_platform evidence_types) evidence_start =
     (Ret TEE_SUCCESS, evidence_end)"
  "sess evidence_end = session2" "store (ext evidence_end) = base_store" "psize evidence_end = [65, 32, 65, 96]"
  by (simp_all add: evidence_end_def prod_eq_iff evidence_start_def evidence_types_def base_store_def
    ta_generate_attestation_evidence_def ref_state_def zero_session_def session1_def session2_def ref_key_def
    fresh_evidence_def publish_evidence_def err_free_keypair_def ref_sign ref_platform_def ref_nonce_def server_point_def)

text \<open>The server's answer, on first use: its key is sealed.\<close>

definition server_sig :: bytes where
  "server_sig = fit 32 (checksum (server_identity_preimage ref_nonce server_point (device_point ref_key))) @ fit 32 [6]"

definition handshake_start :: "store_state ta_state" where
  "handshake_start = ref_state base_store [] [server_point, ref_nonce, server_point, server_sig] session2"

definition handshake_types :: "ptype list" where
  "handshake_types = [PT_MEMREF_INPUT, PT_MEMREF_INPUT, PT_MEMREF_INPUT, PT_MEMREF_INPUT]"

definition sealed_store :: "string \<rightharpoonup> bytes" where
  "sealed_store = base_store(SERVER_PUBKEY_OBJID \<mapsto> server_point)"

definition ref_session_key :: bytes where
  "ref_session_key = fit 32 (xor_key (fit 32 [1]) (fit 32 [6]) @ ref_nonce @ HKDF_INFO)"

definition session3 :: ta_session where
  "session3 = session1\<lparr>session_key := ref_session_key, session_key_valid := True\<rparr>"

definition handshake_end :: "store_state ta_state" where
  "handshake_end = snd (run_state (ta_handshake_complete ref_platform handshake_types) handshake_start)"

lemma handshake_run:
  "run_state (ta_handshake_complete ref_platform handshake_types) handshake_start = (Ret TEE_SUCCESS, handshake_end)"
  "sess handshake_end = session3" "store (ext handshake_end) = sealed_store"
  by (simp_all add: handshake_end_def prod_eq_iff ref_platform_def handshake_start_def handshake_types_def
    ta_handshake_complete_def ref_state_def zero_session_def session1_def session2_def session3_def
    authenticate_server_def find_and_verify_def verify_server_def pin_server_def verify_digest_def verify_out_def
    derive_shared_def derive_session_key_def handshake_out_def ref_key_def server_point_def ref_nonce_def server_sig_def
    server_identity_preimage_def device_point_def base_store_def sealed_store_def ref_session_key_def splice_def)

text \<open>The same server again: its key is the sealed one.\<close>

definition repeat_start :: "store_state ta_state" where
  "repeat_start = ref_state sealed_store [] [server_point, ref_nonce, server_point, server_sig] session2"

lemma repeat_run_ok:
  "fst (run_state (ta_handshake_complete ref_platform handshake_types) repeat_start) = Ret TEE_SUCCESS"
  by (simp add: ref_platform_def repeat_start_def handshake_types_def
    ta_handshake_complete_def ref_state_def zero_session_def session1_def session2_def session3_def
    authenticate_server_def find_and_verify_def verify_server_def pin_server_def verify_digest_def verify_out_def
    derive_shared_def derive_session_key_def handshake_out_def ref_key_def server_point_def ref_nonce_def server_sig_def
    server_identity_preimage_def device_point_def base_store_def sealed_store_def ref_session_key_def splice_def)

text \<open>Messages: a session that has sent \<open>n\<close> of them sends the next.\<close>

definition reading_frame :: bytes where
  "reading_frame = encode_frame FRAME_READING (reading_payload 21 (ascii ''C''))"

definition protect_start :: "ta_session \<Rightarrow> store_state ta_state" where
  "protect_start x = ref_state sealed_store reading_frame [zeros 12, zeros 512, [], []] x"

definition protect_types :: "ptype list" where
  "protect_types = [PT_MEMREF_OUTPUT, PT_MEMREF_OUTPUT, PT_VALUE_OUTPUT, PT_NONE]"

definition protect_end :: "ta_session \<Rightarrow> store_state ta_state" where
  "protect_end x = snd (run_state (ta_read_and_protect ref_platform protect_types) (protect_start x))"

lemma protect_run:
  assumes "sensor_authenticated x" "session_key_valid x" "sensor_pta_open x"
    and "send_seq x < 0xffffffff" "length (reading x) = 256"
  shows "run_state (ta_read_and_protect ref_platform protect_types) (protect_start x) = (TEE_SUCCESS, protect_end x)"
    and "store (ext (protect_end x)) = sealed_store"
proof -
  let ?p = "splice 0 (reading_payload 21 (ascii ''C'')) (zeros 256)"
  have u: "length (ascii ''C'') \<le> 255" by simp
  note f = reading_payload_fields [OF u, of 21]
  have at: "take 4 ?p = be32 21" "?p ! 4 = 1" "sub 5 1 ?p = ascii ''C''"
    by (simp_all add: splice_def reading_payload_def nth_append sub_def)
  have v: "from_be32 (be32 21) = 21"
    using from_be32_be32 [of 21 "[]"] by simp
  have n: "length (reading_json 21 (ascii ''C'')) \<le> 77"
    using length_reading_json [of "ascii ''C''" 21] by simp
  have q: "\<not> send_seq x \<ge> 0xffffffff" using assms(4) by simp
  show "run_state (ta_read_and_protect ref_platform protect_types) (protect_start x) = (TEE_SUCCESS, protect_end x)"
    "store (ext (protect_end x)) = sealed_store"
    using n at assms q
    by (simp_all add: protect_end_def prod_eq_iff ref_platform_def protect_start_def protect_types_def
      ta_read_and_protect_def ref_state_def read_sensor_reading_def open_sensor_pta_def invoke_sensor_pta_def
      invoke_command_def sensor_link_read_def f v Let_def store_out_def set_out_size_def reading_frame_def
      format_reading_def encrypt_reading_def emit_message_def protect_out_def)
qed

section \<open>A history\<close>

text \<open>
  Between two commands the Host may choose any buffers and storage may grow: a session in
  any history can be found in the start state of the next run.
\<close>

lemma ref_rebase:
  assumes hist: "ta_hist store ref_platform s e msgs" and st: "store (ext s) \<subseteq>\<^sub>m st" and m: "length m = 4"
  shows "ta_hist store ref_platform (ref_state st q m (sess s)) e msgs"
proof -
  let ?t = "link_update s \<lparr>store = st, ctr = 0, rx = q\<rparr> True [] 0"
  have inv: "ta_inv store s" by (rule ta_hist_inv [OF ref_laws hist])
  have "ta_hist store ref_platform ?t e msgs"
    by (rule ta_hist.outside [OF hist]) (use st in simp)
  from ta_hist.params [OF this m, of "replicate 4 (0, 0)"]
  have "ta_hist store ref_platform (?t\<lparr>shm := m, psize := map length m, pvalue := replicate 4 (0, 0)\<rparr>) e msgs"
    by simp
  also have "?t\<lparr>shm := m, psize := map length m, pvalue := replicate 4 (0, 0)\<rparr> = ref_state st q m (sess s)"
    using inv by (simp add: ref_state_def ta_inv_def)
  finally show ?thesis .
qed

lemma ref_opened: "ta_hist store ref_platform (ref_state Map.empty [] [] zero_session) 0 []"
  by (rule ta_hist.opened [of "ref_state Map.empty [] [] zero_session"])
    (simp_all add: fresh_ta_def TA_OpenSessionEntryPoint_def ref_platform_def ref_state_def zero_session_def
      key_handles_def pta_handles_def)

lemma ref_ready: "length m = 4 \<Longrightarrow> cmd_ready (ref_state st q m x)"
  by (simp add: cmd_ready_def ref_state_def)

lemma ref_sess [simp]: "sess (ref_state st q m x) = x" "store (ext (ref_state st q m x)) = st"
  by (simp_all add: ref_state_def)

lemma ref_starts_ready: "cmd_ready auth_start" "cmd_ready evidence_start" "cmd_ready handshake_start"
    "cmd_ready (protect_start x)" "cmd_ready mint_start" "cmd_ready provision_start" "cmd_ready repeat_start"
  by (simp_all add: auth_start_def evidence_start_def handshake_start_def protect_start_def mint_start_def
    provision_start_def repeat_start_def ref_ready)

text \<open>The same runs through the entry point.\<close>

lemma dispatch_runs:
  "run_state (TA_InvokeCommandEntryPoint ref_platform CMD_AUTHENTICATE_SENSOR types) auth_start = (Ret TEE_SUCCESS, auth_end)"
  "run_state (TA_InvokeCommandEntryPoint ref_platform CMD_GENERATE_ATTESTATION_EVIDENCE evidence_types) evidence_start =
     (Ret TEE_SUCCESS, evidence_end)"
  "run_state (TA_InvokeCommandEntryPoint ref_platform CMD_HANDSHAKE_COMPLETE handshake_types) handshake_start =
     (Ret TEE_SUCCESS, handshake_end)"
  by (simp_all add: TA_InvokeCommandEntryPoint_def returning_def auth_run evidence_run handshake_run)

lemma ref_auth_hist: "ta_hist store ref_platform auth_start 0 []"
  using ref_rebase [OF ref_opened, of base_store "[[], [], [], []]" good_response] by (simp add: auth_start_def)

lemma ref_evidence_hist: "ta_hist store ref_platform evidence_start 0 []"
proof -
  have "ta_hist store ref_platform auth_end 0 []"
    using ta_hist.command [OF ref_auth_hist ref_starts_ready(1) dispatch_runs(1) [of "[]"]] by simp
  from ref_rebase [OF this, of base_store "[zeros 65, ref_nonce, server_point, zeros 96]" "[]"]
  show ?thesis by (simp add: auth_run evidence_start_def)
qed

lemma ref_handshake_hist: "ta_hist store ref_platform handshake_start 0 []"
proof -
  have "ta_hist store ref_platform evidence_end 0 []"
    using ta_hist.command [OF ref_evidence_hist ref_starts_ready(2) dispatch_runs(2)] by simp
  from ref_rebase [OF this, of base_store "[server_point, ref_nonce, server_point, server_sig]" "[]"]
  show ?thesis by (simp add: evidence_run handshake_start_def)
qed

lemma ref_protect_hist: "ta_hist store ref_platform (protect_start session3) 1 []"
proof -
  have "ta_hist store ref_platform handshake_end 1 []"
    using ta_hist.command [OF ref_handshake_hist ref_starts_ready(3) dispatch_runs(3)] by simp
  from ref_rebase [OF this, of sealed_store "[zeros 12, zeros 512, [], []]" reading_frame]
  show ?thesis by (simp add: handshake_run protect_start_def)
qed

text \<open>A pending keypair after the server was pinned; an unprovisioned device; another device id.\<close>

lemma ref_provision_hist: "ta_hist store ref_platform provision_start 0 []"
  using ref_rebase [OF ref_opened, of Map.empty "[[], [], [], []]" "encode_frame FRAME_SECRET sensor_psk"]
  by (simp add: provision_start_def)

lemma ref_repeat_hist: "ta_hist store ref_platform repeat_start 0 []"
  using ref_rebase [OF ref_handshake_hist, of sealed_store "[server_point, ref_nonce, server_point, server_sig]" "[]"]
  by (simp add: handshake_start_def repeat_start_def sealed_store_def base_store_def map_le_def)

definition rebind_start :: "store_state ta_state" where
  "rebind_start = ref_state base_store [] [ascii ''edge-2'', zeros 65, [], []] zero_session"

lemma rebind_ready: "cmd_ready rebind_start"
  by (simp add: rebind_start_def ref_ready)

lemma session3_fields:
  "sensor_authenticated session3" "session_key_valid session3" "sensor_pta_open session3"
  "send_seq session3 = 0" "length (reading session3) = 256"
  by (simp_all add: session3_def session1_def zero_session_def)

lemma protect_run3:
  "run_state (ta_read_and_protect ref_platform protect_types) (protect_start session3) = (TEE_SUCCESS, protect_end session3)"
  "run_state (TA_InvokeCommandEntryPoint ref_platform CMD_READ_AND_PROTECT protect_types) (protect_start session3) =
     (Ret TEE_SUCCESS, protect_end session3)"
  using protect_run(1) [OF session3_fields(1-3) _ session3_fields(5)] session3_fields(4)
  by (simp_all add: TA_InvokeCommandEntryPoint_def returning_def)

text \<open>One message after another.\<close>

lemma protect_next:
  assumes inv: "ta_inv store (protect_start x)"
    and x: "sensor_authenticated x" "session_key_valid x" "sensor_pta_open x" "send_seq x < 0xffffffff" "length (reading x) = 256"
  shows "run_state (TA_InvokeCommandEntryPoint ref_platform CMD_READ_AND_PROTECT protect_types) (protect_start x) =
      (Ret TEE_SUCCESS, protect_end x)"
    and "ta_inv store (protect_end x)"
    and "sensor_authenticated (sess (protect_end x))" "session_key_valid (sess (protect_end x))"
      "sensor_pta_open (sess (protect_end x))" "send_seq (sess (protect_end x)) = send_seq x + 1"
      "length (reading (sess (protect_end x))) = 256"
    and "psize (protect_end x) ! 0 = 12" "psize (protect_end x) ! 1 \<le> 93"
      "pvalue (protect_end x) ! 2 = (ucast (send_seq x + 1), 0)"
proof -
  have ready: "cmd_ready (protect_start x)" by (rule ref_starts_ready)
  note run = protect_run [OF x]
  show dispatch: "run_state (TA_InvokeCommandEntryPoint ref_platform CMD_READ_AND_PROTECT protect_types) (protect_start x) =
      (Ret TEE_SUCCESS, protect_end x)"
    by (simp add: TA_InvokeCommandEntryPoint_def returning_def run)
  show "ta_inv store (protect_end x)" by (rule dispatch.run_inv [OF ref_laws inv ready dispatch])
  have "protect_post store ref_platform (protect_start x) TEE_SUCCESS (protect_end x)"
    by (rule wp_run [OF wp_ta_read_and_protect [OF ref_laws inv ready] run(1)])
  then obtain rd n b where rd: "length rd = 256"
      "sess (protect_end x) = (set_reading rd n (with_pta b x))\<lparr>send_seq := send_seq x + 1\<rparr>"
    and st: "reading_stored (protect_start x) (protect_end x)"
    and ok: "message_ok ref_platform (protect_start x) (protect_end x)"
    by (auto simp: protect_post_def Let_def protect_start_def)
  from rd x show "sensor_authenticated (sess (protect_end x))" "session_key_valid (sess (protect_end x))"
      "sensor_pta_open (sess (protect_end x))" and q: "send_seq (sess (protect_end x)) = send_seq x + 1"
      and "length (reading (sess (protect_end x))) = 256"
    by (simp_all add: with_pta_def)
  have n: "reading_len (sess (protect_end x)) \<le> 77"
    using st length_reading_json unfolding reading_stored_def by auto
  from ok q n show "psize (protect_end x) ! 0 = 12" "psize (protect_end x) ! 1 \<le> 93"
      "pvalue (protect_end x) ! 2 = (ucast (send_seq x + 1), 0)"
    by (auto simp: message_ok_def ref_platform_def protect_start_def ref_state_def)
qed

lemma ref_two_messages: "\<exists>s. ta_hist store ref_platform s 1 [(1, 1), (1, 2)]"
proof -
  have step: "ta_hist store ref_platform (protect_start (sess (protect_end x))) 1 (msgs @ [(1, send_seq x + 1)])"
    if h: "ta_hist store ref_platform (protect_start x) 1 msgs"
      and x: "sensor_authenticated x" "session_key_valid x" "sensor_pta_open x" "send_seq x < 0xffffffff"
        "length (reading x) = 256" for x msgs
  proof -
    note n = protect_next [OF ta_hist_inv [OF ref_laws h] x]
    have "ta_hist store ref_platform (protect_end x) 1 (msgs @ [(1, send_seq x + 1)])"
      using ta_hist.command [OF h ref_starts_ready(4) n(1)] n(6) by simp
    from ref_rebase [OF this, of sealed_store "[zeros 12, zeros 512, [], []]" reading_frame]
    show ?thesis by (simp add: protect_start_def protect_run [OF x])
  qed
  note first = protect_next [OF ta_hist_inv [OF ref_laws ref_protect_hist] session3_fields(1-3) _ session3_fields(5)]
  have 1: "ta_hist store ref_platform (protect_start (sess (protect_end session3))) 1 [(1, 1)]"
    using step [OF ref_protect_hist session3_fields(1-3) _ session3_fields(5)] session3_fields(4) by simp
  have "send_seq (sess (protect_end session3)) = 1"
    using first(6) session3_fields(4) by simp
  with step [OF 1 first(3-5) _ first(7)] session3_fields(4) show ?thesis by auto
qed

end
