(* ===== verification/HostTaRuns.thy ===== *)
theory HostTaRuns
  imports HostTa HostRuns Runs
begin

text \<open>
  The Host of HostRuns with the TA of Runs behind its client library: the commands run the
  entry point of the TA on the reference platform, and the sensor answers each command with
  the frame it needs. Two rounds of the push loop on it send two readings.
\<close>

section \<open>The environment\<close>

definition tee_answer :: "string \<Rightarrow> bytes option" where
  "tee_answer name =
     (if name = ''nonce'' then Some (base64 ref_nonce)
      else if name = ''server_ecdh_pub'' \<or> name = ''server_identity_pub'' then Some (base64 server_point)
      else if name = ''server_sig'' then Some (base64 server_sig)
      else None)"

lemma tee_answers [simp]:
  "tee_answer ''type'' = None" "tee_answer ''nonce'' = Some (base64 ref_nonce)"
  "tee_answer ''server_ecdh_pub'' = Some (base64 server_point)"
  "tee_answer ''server_identity_pub'' = Some (base64 server_point)"
  "tee_answer ''server_sig'' = Some (base64 server_sig)"
  by (simp_all add: tee_answer_def)

text \<open>What the sensor has sent when command \<open>c\<close> runs.\<close>

definition sensor_sent :: "nat \<Rightarrow> bytes" where
  "sensor_sent c = (if c = CMD_AUTHENTICATE_SENSOR then good_response else if c = CMD_READ_AND_PROTECT then reading_frame else [])"

definition arrive :: "nat \<Rightarrow> store_state ta_state \<Rightarrow> store_state ta_state" where
  "arrive c s = link_update s \<lparr>store = store (ext s), ctr = 0, rx = sensor_sent c\<rparr> True [] 0"

definition ta_opened :: "store_state ta_state" where
  "ta_opened = ref_state base_store [] [[], [], [], []] zero_session"

definition run_ta ::
    "nat \<Rightarrow> ptype list \<Rightarrow> op_param list \<Rightarrow> store_state ta_state tee_session \<Rightarrow>
     (TEE_Result \<times> op_param list) \<times> store_state ta_state tee_session" where
  "run_ta c types ps a = (case a of
     Live s \<Rightarrow> (if length ps \<noteq> 4 then ((TEE_ERROR_BAD_PARAMETERS, ps), a)
       else case run_state (TA_InvokeCommandEntryPoint ref_platform c types) (load_params ps (arrive c s)) of
         (Ret res, t) \<Rightarrow> ((res, store_params types ps t), Live t)
       | (Panicked, t) \<Rightarrow> ((TARGET_DEAD, ps), Dead))
   | _ \<Rightarrow> ((TARGET_DEAD, ps), a))"

definition tee_host :: "(bytes \<times> store_state ta_state tee_session, unit) host_env" where
  "tee_host = env_on tee_answer (Live ta_opened) run_ta"

lemma tee_b64: "b64_laws tee_host"
  by (simp add: tee_host_def env_on_b64)

lemma store_param_length: "length (tmp_buffer (store_param ty p m k v)) = length (tmp_buffer p)"
  by (cases "(ty, p, m, k, v)" rule: store_param.cases) (simp_all add: splice_def)

lemma store_params_lengths:
  "length ps = 4 \<Longrightarrow> map (\<lambda>p. length (tmp_buffer p)) (store_params types ps t) = map (\<lambda>p. length (tmp_buffer p)) ps"
  by (rule nth_equalityI) (simp_all add: store_params_def store_param_length)

lemma tee_teec: "teec_laws tee_host"
proof -
  have "map (\<lambda>p. length (tmp_buffer p)) (snd (fst (run_ta c types ps a))) = map (\<lambda>p. length (tmp_buffer p)) ps" for c types ps a
    by (simp add: run_ta_def store_params_lengths split: tee_session.split outcome.split prod.split)
  then show ?thesis by (simp add: teec_laws_def tee_host_def env_on_def split: prod.split) (metis fst_conv snd_conv)
qed

lemma arrive_elsewhere: "elsewhere store (Live s) (Live (arrive c s))"
proof -
  have "store (ext s) \<subseteq>\<^sub>m store \<lparr>store = store (ext s), ctr = 0, rx = sensor_sent c\<rparr>" by simp
  then show ?thesis unfolding elsewhere_def arrive_def by blast
qed

lemma ta_opened_run:
  "fresh_ta ta_opened" "run_state (TA_OpenSessionEntryPoint ref_platform) ta_opened = (TEE_SUCCESS, ta_opened)"
  by (simp_all add: ta_opened_def fresh_ta_def TA_OpenSessionEntryPoint_def ref_platform_def ref_state_def zero_session_def
    key_handles_def pta_handles_def)

lemma run_ta_commanded:
  assumes "length ps = 4" "run_ta c types ps a = ((res, qs), b)"
  shows "commanded store ref_platform c types ps res qs a b"
proof (cases a)
  case (Live s)
  obtain r t where run: "run_state (TA_InvokeCommandEntryPoint ref_platform c types) (load_params ps (arrive c s)) = (r, t)"
    by (metis prod.exhaust)
  show ?thesis
  proof (cases r)
    case (Ret x)
    with assms Live run have "res = x" "qs = store_params types ps t" "b = Live t" by (simp_all add: run_ta_def)
    with commanded.returned [OF arrive_elsewhere run [unfolded Ret]] Live show ?thesis by simp
  next
    case Panicked
    with assms Live run have "res = TARGET_DEAD" "b = Dead" by (simp_all add: run_ta_def)
    with commanded.panicked [OF arrive_elsewhere run [unfolded Panicked]] Live show ?thesis by simp
  qed
qed (use assms in \<open>auto simp: run_ta_def TARGET_DEAD_def elsewhere_def intro!: commanded.unreached\<close>)

lemma tee_runs: "runs_ta tee_host store ref_platform snd"
proof -
  have "lets_be (\<lambda>w w'. elsewhere store (snd w) (snd w')) tee_host"
    by (auto simp: lets_be_def tee_host_def env_on_def elsewhere_def)
  moreover have "\<exists>x s. fresh_ta x \<and> run_state (TA_OpenSessionEntryPoint ref_platform) x = (TEE_SUCCESS, s) \<and> snd w' = Live s"
    if "env_teec_open tee_host w = (TEE_SUCCESS, w')" for w w'
    using that ta_opened_run by (cases w) (auto simp: tee_host_def)
  moreover have "commanded store ref_platform c types ps res qs (snd w) (snd w')"
    if "length ps = 4" "env_invoke tee_host c types ps w = ((res, qs), w')" for c types ps w res qs w'
    using that by (cases w; cases "run_ta c types ps (snd w)") (auto simp: tee_host_def intro: run_ta_commanded)
  ultimately show ?thesis by (simp add: runs_ta_def)
qed

interpretation tee: ta_host tee_host store ref_platform snd
  by unfold_locales (rule ref_laws tee_runs)+

section \<open>The commands of the Host\<close>

lemma load_arrive:
  "ta_inv store s \<Longrightarrow> map value_pair ps = replicate 4 (0, 0) \<Longrightarrow>
   load_params ps (arrive c s) = ref_state (store (ext s)) (sensor_sent c) (map shared_buffer ps) (sess s)"
  by (simp add: load_params_def arrive_def ref_state_def ta_inv_def)

lemma run_ta_ok:
  assumes "ta_inv store s" "length ps = 4" "map value_pair ps = replicate 4 (0, 0)"
    and "ref_state (store (ext s)) (sensor_sent c) (map shared_buffer ps) (sess s) = start"
    and "run_state (TA_InvokeCommandEntryPoint ref_platform c types) start = (Ret r, t)"
  shows "run_ta c types ps (Live s) = ((r, store_params types ps t), Live t)"
  using assms(2,5) load_arrive [OF assms(1,3), of c] assms(4) by (simp add: run_ta_def)

lemma ta_opened_inv: "ta_inv store ta_opened"
  by (rule opened_inv [OF ref_laws ta_opened_run])

lemma kept_by_run:
  "ta_inv store s \<Longrightarrow> cmd_ready s \<Longrightarrow> run_state (TA_InvokeCommandEntryPoint ref_platform c types) s = (Ret r, t) \<Longrightarrow>
   ta_inv store t"
  by (rule dispatch.run_inv [OF ref_laws])

lemma ta_invs: "ta_inv store auth_end" "ta_inv store evidence_end" "ta_inv store handshake_end"
  using kept_by_run [OF ta_hist_inv [OF ref_laws ref_auth_hist] ref_starts_ready(1) dispatch_runs(1)]
    kept_by_run [OF ta_hist_inv [OF ref_laws ref_evidence_hist] ref_starts_ready(2) dispatch_runs(2)]
    kept_by_run [OF ta_hist_inv [OF ref_laws ref_handshake_hist] ref_starts_ready(3) dispatch_runs(3)]
  by simp_all

lemma replicate_4: "replicate 4 x = [x, x, x, x]"
  by (simp add: numeral_eq_Suc)

lemma provision_again:
  "run_state (ta_provision_sensor_secret ref_platform no_types) ta_opened = (TEE_SUCCESS, ta_opened)"
proof -
  have "store (ext ta_opened) SENSOR_PSK_OBJID = Some sensor_psk" by (simp add: ta_opened_def base_store_def)
  then show ?thesis by (simp add: ta_provision_sensor_secret_def ref_platform_def)
qed

lemma run_provision:
  "run_ta CMD_PROVISION_SENSOR_SECRET no_types no_params (Live ta_opened) =
     ((TEE_SUCCESS, store_params no_types no_params ta_opened), Live ta_opened)"
proof (rule run_ta_ok [OF ta_opened_inv])
  show "ref_state (store (ext ta_opened)) (sensor_sent CMD_PROVISION_SENSOR_SECRET) (map shared_buffer no_params)
      (sess ta_opened) = ta_opened"
    by (simp add: ta_opened_def sensor_sent_def)
  show "run_state (TA_InvokeCommandEntryPoint ref_platform CMD_PROVISION_SENSOR_SECRET no_types) ta_opened =
      (Ret TEE_SUCCESS, ta_opened)"
    by (simp add: TA_InvokeCommandEntryPoint_def returning_def provision_again)
qed (simp_all add: replicate_4)

lemma run_authenticate:
  "run_ta CMD_AUTHENTICATE_SENSOR no_types no_params (Live ta_opened) =
     ((TEE_SUCCESS, store_params no_types no_params auth_end), Live auth_end)"
  by (rule run_ta_ok [OF ta_opened_inv _ _ _ dispatch_runs(1)])
    (simp_all add: replicate_4 ta_opened_def auth_start_def sensor_sent_def)

lemma run_evidence:
  assumes "a = zeros 65" "take 32 n = ref_nonce" "p = server_point" "b = zeros 96"
    and "ps = [TmpRef a 65, TmpRef n 32, TmpRef p 65, TmpRef b 96]"
  shows "run_ta CMD_GENERATE_ATTESTATION_EVIDENCE evidence_types ps (Live auth_end) =
     ((TEE_SUCCESS, store_params evidence_types ps evidence_end), Live evidence_end)"
  using assms
  by (intro run_ta_ok [OF ta_invs(1) _ _ _ dispatch_runs(2)])
    (simp_all add: replicate_4 evidence_start_def sensor_sent_def auth_run server_point_def)

lemma run_handshake:
  assumes "a = server_point" "take 32 n = ref_nonce" "p = server_point" "b = server_sig"
    and "ps = [TmpRef a 65, TmpRef n 32, TmpRef p 65, TmpRef b 64]"
  shows "run_ta CMD_HANDSHAKE_COMPLETE handshake_types ps (Live evidence_end) =
     ((TEE_SUCCESS, store_params handshake_types ps handshake_end), Live handshake_end)"
  using assms
  by (intro run_ta_ok [OF ta_invs(2) _ _ _ dispatch_runs(3)])
    (simp_all add: replicate_4 handshake_start_def sensor_sent_def evidence_run server_point_def server_sig_def)

text \<open>Readings, the session of the TA being that of \<open>x\<close> before the command.\<close>

abbreviation protect_params :: "op_param list" where
  "protect_params \<equiv> [TmpRef (zeros 12) 12, TmpRef (zeros 512) 512, ValueRef 0 0, NoParam]"

lemma run_protect:
  assumes "ta_inv store s" "store (ext s) = sealed_store" "sess s = x"
    and "run_state (TA_InvokeCommandEntryPoint ref_platform CMD_READ_AND_PROTECT protect_types) (protect_start x) = (Ret TEE_SUCCESS, t)"
  shows "run_ta CMD_READ_AND_PROTECT protect_types protect_params (Live s) =
     ((TEE_SUCCESS, store_params protect_types protect_params t), Live t)"
  using assms(2,3)
  by (intro run_ta_ok [OF assms(1) _ _ _ assms(4)])
    (simp_all add: replicate_4 protect_start_def sensor_sent_def)

section \<open>Two rounds\<close>

definition first_sent :: "store_state ta_state" where
  "first_sent = protect_end session3"

definition second_sent :: "store_state ta_state" where
  "second_sent = protect_end (sess first_sent)"

lemma session3_room: "send_seq session3 < 0xffffffff"
  by (simp add: session3_fields)

lemmas first_facts =
  protect_next [OF ta_hist_inv [OF ref_laws ref_protect_hist] session3_fields(1-3) session3_room session3_fields(5), folded first_sent_def]

lemma first_session: "send_seq (sess first_sent) = 1" "store (ext first_sent) = sealed_store"
  using first_facts(6) session3_fields(4) protect_run(2) [OF session3_fields(1-3) session3_room session3_fields(5)]
  by (simp_all add: first_sent_def)

lemma second_start_inv: "ta_inv store (protect_start (sess first_sent))"
proof -
  note inv = first_facts(2)
  then have "ta_inv store (arrive CMD_READ_AND_PROTECT first_sent)"
    using elsewhere_counter [OF arrive_elsewhere [of first_sent CMD_READ_AND_PROTECT]]
    by (simp add: unmoved_def split: if_splits)
  then have "ta_inv store (load_params protect_params (arrive CMD_READ_AND_PROTECT first_sent))"
    by (simp add: ta_inv_load)
  with load_arrive [OF inv, of protect_params CMD_READ_AND_PROTECT] show ?thesis
    by (simp add: protect_start_def first_session sensor_sent_def replicate_4)
qed

lemma first_room: "send_seq (sess first_sent) < 0xffffffff"
  by (simp add: first_session)

lemmas second_facts =
  protect_next [OF second_start_inv first_facts(3-5) first_room first_facts(7), folded second_sent_def]

lemma first_read:
  "run_ta CMD_READ_AND_PROTECT protect_types protect_params (Live handshake_end) =
     ((TEE_SUCCESS, store_params protect_types protect_params first_sent), Live first_sent)"
  using first_facts(1) by (intro run_protect [OF ta_invs(3) _ handshake_run(2)]) (simp_all add: handshake_run)

lemma second_read:
  "run_ta CMD_READ_AND_PROTECT protect_types protect_params (Live first_sent) =
     ((TEE_SUCCESS, store_params protect_types protect_params second_sent), Live second_sent)"
  using first_facts(2) second_facts(1) first_session by (intro run_protect) simp_all

lemmas ta_commands [simplified, unfolded evidence_types_def handshake_types_def protect_types_def, simp] =
  run_provision run_authenticate run_evidence [OF _ _ _ _ refl] run_handshake [OF _ _ _ _ refl] first_read second_read

lemma evidence_lengths [simp]:
  "length ref_nonce = 32" "length server_point = 65" "length server_sig = 64"
  by (simp_all add: ref_nonce_def server_point_def server_sig_def)

lemma nonce_taken [simp]: "take 32 (splice 0 ref_nonce buf) = ref_nonce"
  using take_splice_0 [of ref_nonce buf] by simp

definition tee_pushing :: "(bytes \<times> store_state ta_state tee_session) edge" where
  "tee_pushing = snd (run_state (main_start tee_host []) (edge_start ([10, 10], NoSession)))"

lemma tee_started: "run_state (main_start tee_host []) (edge_start ([10, 10], NoSession)) = (Pushing 3, tee_pushing)"
  by (simp add: tee_pushing_def tee_host_def prod_eq_iff main_start_def edge_device_init_def load_config_def from_env_def
      edge_provision_sensor_secret_def edge_authenticate_sensor_def teec_invoke_def push_interval_def edge_start_def)

definition tee_attested :: "(bytes \<times> store_state ta_state tee_session) edge" where
  "tee_attested = snd (run_state (edge_ensure_session tee_host) tee_pushing)"

lemma tee_session:
  "run_state (edge_ensure_session tee_host) tee_pushing = (0, tee_attested)"
  "hw tee_attested = ([], Live handshake_end)" "g_attested tee_attested" "g_session_expiry tee_attested = 300"
  "g_conn_open tee_attested" "g_teec_open tee_attested" "g_conn tee_attested = \<lparr>net_fd = 3\<rparr>"
  by (simp_all add: tee_attested_def tee_host_def prod_eq_iff edge_ensure_session_def tee_pushing_def main_start_def
    edge_device_init_def load_config_def from_env_def edge_provision_sensor_secret_def edge_authenticate_sensor_def
    teec_invoke_def push_interval_def edge_start_def edge_attest_to_server_def attest_connect_def net_connect_def
    attest_hello_def json_object_def send_json_line_def net_send_line_def read_challenge_def recv_message_def
    net_recv_line_def decode_nonce_def decode_fixed_def attest_respond_def ta_handshake_init_def
    create_attestation_report_def quote_report_def encode_report_def read_text_file_def Let_def tpm2b_def
    read_result_def mono_now_def session_ttl_def edge_handshake_def store_params_nth evidence_run)

text \<open>A round on an attested session, the TA being in \<open>a\<close> before it and in \<open>Live t\<close> after it.\<close>

type_synonym tee_edge = "(bytes \<times> store_state ta_state tee_session) edge"

definition round_end :: "tee_edge \<Rightarrow> store_state ta_state \<Rightarrow> u32 \<Rightarrow> bytes \<Rightarrow> bytes \<Rightarrow> tee_edge" where
  "round_end s t q n64 c64 = s\<lparr>hw := ([], Live t),
     log := log s @
       [Invoked CMD_READ_AND_PROTECT protect_params TEE_SUCCESS (store_params protect_types protect_params t),
        Message [JString ''type'' (ascii ''data''), JString ''device_id'' (g_device_id s), JNumber ''seq'' q,
          JString ''nonce'' n64, JString ''ciphertext'' c64],
        Tx (net_fd (g_conn s)) (c_string (ascii ''json'')), Tx (net_fd (g_conn s)) [10],
        Stdout (ascii ''edge_device: pushed sensor reading'' @ [10])],
     g_last_seq := q\<rparr>"

lemma round_end_fields [simp]:
  "hw (round_end s t q n c) = ([], Live t)" "g_attested (round_end s t q n c) = g_attested s"
  "g_conn_open (round_end s t q n c) = g_conn_open s" "g_teec_open (round_end s t q n c) = g_teec_open s"
  "g_session_expiry (round_end s t q n c) = g_session_expiry s"
  by (simp_all add: round_end_def)

lemma tee_round:
  assumes ens: "run_state (edge_ensure_session tee_host) r = (0, s)"
    and s: "hw s = ([], a)" "g_attested s" "g_conn_open s" "g_teec_open s"
    and read: "run_ta CMD_READ_AND_PROTECT protect_types protect_params a =
      ((TEE_SUCCESS, store_params protect_types protect_params t), Live t)"
    and t: "psize t ! 0 = 12" "psize t ! 1 \<le> 93" "pvalue t ! 2 = (q, 0)"
  shows "\<exists>n64 c64. run_state (push_iter tee_host 3) r = (Pushing 3, round_end s t q n64 c64)"
proof (intro exI)
  let ?ps = "store_params protect_types protect_params t"
  have size: "length (tmp_buffer (?ps ! 0)) = 12" "length (tmp_buffer (?ps ! 1)) = 512"
    "tmp_size (?ps ! 0) = 12" "tmp_size (?ps ! 1) = psize t ! 1" "value_a (?ps ! 2) = q"
    using t by (simp_all add: store_params_nth store_param_length protect_types_def)
  have fit: "(14 + psize t ! 1) div 3 < 128" "Suc (Suc (psize t ! 1)) div 3 < 225" using t by linarith+
  have json: "c_string (ascii ''json'') \<noteq> []" by code_simp
  show "run_state (push_iter tee_host 3) r = (Pushing 3, round_end s t q (base64 (tmp_buffer (?ps ! 0)))
      (base64 (take (psize t ! 1) (tmp_buffer (?ps ! 1)))))"
    using read [unfolded protect_types_def, simplified] size [unfolded protect_types_def] fit json t s
    by (simp add: push_iter_def ens [unfolded tee_host_def] edge_call_ta_def ta_read_and_protect_encode_def teec_invoke_def
      tee_host_def edge_send_sensor_data_to_server_def json_object_def send_json_line_def net_send_line_def protect_types_def
      round_end_def)
qed

text \<open>A run of the Host with two data messages under one key.\<close>

lemma tee_two_messages:
  "\<exists>s i j n x d y ms n' x' d' y' ms'. main_reach tee_host [] (Pushing 3) s \<and> i < j \<and> j < length (log s) \<and>
     log s ! i = Message (JString n (ascii ''data'') # JString x d # JNumber y 1 # ms) \<and>
     log s ! j = Message (JString n' (ascii ''data'') # JString x' d' # JNumber y' 2 # ms') \<and>
     (\<forall>k. i < k \<longrightarrow> k < j \<longrightarrow> \<not> rekeyed (log s ! k))"
proof -
  note f1 = first_facts(8-10) [unfolded session3_fields, simplified]
  note f2 = second_facts(8-10) [unfolded first_session, simplified]
  note t = tee_session
  obtain n c where u: "run_state (push_iter tee_host 3) tee_pushing = (Pushing 3, round_end tee_attested first_sent 1 n c)"
    using tee_round [OF t(1,2,3,5,6) first_read, of 1] f1 by auto
  let ?u = "round_end tee_attested first_sent 1 n c"
  have e2: "run_state (edge_ensure_session tee_host) ?u = (0, ?u)"
    using t(3,4) by (simp add: edge_ensure_session_def mono_now_def tee_host_def)
  have "\<exists>n' c'. run_state (push_iter tee_host 3) ?u = (Pushing 3, round_end ?u second_sent 2 n' c')"
    by (rule tee_round [OF e2 _ _ _ _ second_read]) (simp_all add: f2 t(3,5,6))
  then obtain n' c' where v: "run_state (push_iter tee_host 3) ?u = (Pushing 3, round_end ?u second_sent 2 n' c')"
    by blast
  let ?v = "round_end ?u second_sent 2 n' c'"
  have "main_reach tee_host [] (Pushing 3) tee_pushing"
    by (rule main_reach.step [OF main_reach.start [of _ _ "([10, 10], NoSession)"]]) (simp add: tee_started)
  then have "main_reach tee_host [] (Pushing 3) ?u" by (rule main_reach.step) (simp add: u)
  then have reach: "main_reach tee_host [] (Pushing 3) ?v" by (rule main_reach.step) (simp add: v)
  let ?n = "length (log tee_attested)"
  have at: "log ?v ! k = drop ?n (log ?v) ! (k - ?n)" if "?n \<le> k" for k
    using that by (simp add: round_end_def nth_append)
  show ?thesis
  proof (intro exI conjI allI impI)
    show "main_reach tee_host [] (Pushing 3) ?v" by (rule reach)
    show "?n + 1 < ?n + 6" "?n + 6 < length (log ?v)" by (simp_all add: round_end_def)
    show "log ?v ! (?n + 1) = Message (JString ''type'' (ascii ''data'') # JString ''device_id'' (g_device_id tee_attested) #
        JNumber ''seq'' 1 # [JString ''nonce'' n, JString ''ciphertext'' c])"
      "log ?v ! (?n + 6) = Message (JString ''type'' (ascii ''data'') # JString ''device_id'' (g_device_id ?u) #
        JNumber ''seq'' 2 # [JString ''nonce'' n', JString ''ciphertext'' c'])"
      unfolding round_end_def by (simp_all add: nth_append)
    fix k
    assume "?n + 1 < k" "k < ?n + 6"
    then have "k - ?n \<in> {2, 3, 4, 5}" "?n \<le> k" by auto
    with at show "\<not> rekeyed (log ?v ! k)"
      by (auto simp: round_end_def)
  qed
qed

end
