(* ===== verification/ServerRuns.thy ===== *)
theory ServerRuns
  imports StaleReply ServerTypes HostTaRuns
begin

text \<open>
  A concrete server for the platform of Reference: the same small functions in place of cryptography,
  a clock that stands still, and a table for the JSON parser. One device is enrolled, its TA is the
  one of Runs. The theorems about the server are applied on it. It models no code.
\<close>

section \<open>The libraries\<close>

definition ref_verify :: "bytes \<Rightarrow> bytes \<Rightarrow> nat \<Rightarrow> nat \<Rightarrow> bool" where
  "ref_verify pub m r s \<longleftrightarrow> r = be_val (checksum m) \<and> s = be_val (take 32 (drop 1 pub))"

definition ref_decrypt :: "bytes \<Rightarrow> bytes \<Rightarrow> bytes \<Rightarrow> bytes \<Rightarrow> bytes option" where
  "ref_decrypt k n c a = (let m = length c - 16 in
     if 16 \<le> length c \<and> drop m c = fit 16 (n @ a) then Some (xor_key k (take m c)) else None)"

definition ref_float :: "py \<Rightarrow> exn + rat" where
  "ref_float x = (case x of PyInt i \<Rightarrow> Inr (of_int i) | PyFloat r \<Rightarrow> Inr r | _ \<Rightarrow> Inl TypeError)"

definition ref_server :: "(bytes \<rightharpoonup> py) \<Rightarrow> unit server_env" where
  "ref_server parse =
     \<lparr>v_urandom = (\<lambda>n w. (replicate n 5, w)), v_time = (\<lambda>w. (0, w)),
      v_keygen = (\<lambda>w. ((fit 32 [6], server_point), w)), v_sha256 = checksum,
      v_load_pem = EcKey, v_on_curve = (\<lambda>p. length p = 65), v_verify = ref_verify,
      v_exchange = (\<lambda>priv peer. xor_key priv (take 32 (drop 1 peer))), v_hkdf = (\<lambda>z s i n. fit n (z @ s @ i)),
      v_sign = (\<lambda>priv m w. ((be_val (checksum m), be_val priv), w)), v_decrypt = ref_decrypt,
      v_b64e = base64, v_b64d = unbase64, v_loads = parse, v_repr = (\<lambda>x. []), v_str = (\<lambda>x. []), v_float = ref_float\<rparr>"

lemma ref_server_fields [simp]:
  "v_urandom (ref_server p) n w = (replicate n 5, w)" "v_time (ref_server p) w = (0, w)"
  "v_keygen (ref_server p) w = ((fit 32 [6], server_point), w)" "v_sha256 (ref_server p) = checksum"
  "v_load_pem (ref_server p) = EcKey" "v_on_curve (ref_server p) k = (length k = 65)" "v_verify (ref_server p) = ref_verify"
  "v_exchange (ref_server p) priv peer = xor_key priv (take 32 (drop 1 peer))"
  "v_hkdf (ref_server p) z s i n = fit n (z @ s @ i)" "v_decrypt (ref_server p) = ref_decrypt"
  "v_b64e (ref_server p) = base64" "v_b64d (ref_server p) = unbase64" "v_loads (ref_server p) = p"
  "v_float (ref_server p) = ref_float"
  by (simp_all add: ref_server_def)

lemma ref_server_sizes: "server_sizes (ref_server p)"
  by (simp add: server_sizes_def server_point_def)

section \<open>They fit the platform\<close>

lemma xor_key_commute: "length a = length b \<Longrightarrow> xor_key a b = xor_key b a"
  by (auto simp: xor_key_def intro!: nth_equalityI simp: xor.commute)

lemma xor_key_twice: "xor_key k (xor_key k m) = m"
  by (rule nth_equalityI) (simp_all add: xor_key_def xor.assoc [symmetric])

lemma ref_key_made: "key_made ref_platform k \<longleftrightarrow> (\<exists>n :: nat. k = \<lparr>ec_d = fit 32 [of_nat (Suc n)], ec_x = fit 32 [of_nat (Suc n)], ec_y = fit 32 []\<rparr>)"
proof
  assume "key_made ref_platform k"
  then show "\<exists>n :: nat. k = \<lparr>ec_d = fit 32 [of_nat (Suc n)], ec_x = fit 32 [of_nat (Suc n)], ec_y = fit 32 []\<rparr>"
    by (cases k) (auto simp: key_made_def ref_platform_def)
next
  assume "\<exists>n :: nat. k = \<lparr>ec_d = fit 32 [of_nat (Suc n)], ec_x = fit 32 [of_nat (Suc n)], ec_y = fit 32 []\<rparr>"
  then obtain n :: nat where "k = \<lparr>ec_d = fit 32 [of_nat (Suc n)], ec_x = fit 32 [of_nat (Suc n)], ec_y = fit 32 []\<rparr>" ..
  then show "key_made ref_platform k"
    unfolding key_made_def ref_platform_def by (intro exI [of _ "\<lparr>store = Map.empty, ctr = n, rx = []\<rparr>"]) simp
qed

lemma ref_made_fields:
  "key_made ref_platform k \<Longrightarrow> length (ec_d k) = 32 \<and> ec_x k = ec_d k \<and> length (ec_y k) = 32"
  by (auto simp: ref_key_made)

lemma common_ref: "common_crypto ref_platform (ref_server p)"
proof -
  have gcm: "ref_decrypt k n (xor_key k m @ fit 16 (n @ a)) a = Some m" for k n a m
    by (simp add: ref_decrypt_def Let_def xor_key_twice)
  show ?thesis
    unfolding common_crypto_def
    by (auto dest!: ref_made_fields)
      (auto simp: ref_platform_def gcm unbase64_base64 server_point_def device_point_def ref_verify_def
        intro!: xor_key_commute)
qed

section \<open>The enrolled device\<close>

definition edge_1 :: bytes where
  "edge_1 = ascii ''edge-1''"

definition ref_ak :: bytes where
  "ref_ak = 4 # fit 32 [8] @ fit 32 []"

definition ref_pcrs :: bytes where
  "ref_pcrs = ascii ''  sha256:'' @ [10] @ ascii ''    0 : 0x00ff'' @ [10]"

definition pinned_key :: ec_key where
  "pinned_key = \<lparr>ec_d = fit 32 [9], ec_x = fit 32 [9], ec_y = fit 32 []\<rparr>"

definition ref_record :: device_record where
  "ref_record = \<lparr>ak_pub_pem = ref_ak, expected_pcr = ref_pcrs, pcr_bank = ascii ''sha256:0'', created_at = 0,
     ta_pub_b64 = base64 (device_point pinned_key)\<rparr>"

lemma ref_pcr_digest: "recompute_pcr_digest (ref_server p) ref_pcrs = Inr (checksum [0, 255])"
proof -
  have "parse_pcr_text ref_pcrs = Inr [(0, [0, 255])]" by code_simp
  then show ?thesis by (simp add: recompute_pcr_digest_def)
qed

lemma pinned_key_point: "length (device_point pinned_key) = 65"
  by (simp add: device_point_def pinned_key_def)

lemma ref_enrolled: "enrolled ref_platform (ref_server p) ref_record ref_ak (checksum [0, 255]) edge_1 ref_identity"
proof -
  have made: "key_made ref_platform pinned_key"
    unfolding ref_key_made pinned_key_def by (intro exI [of _ 8]) simp
  have fits: "key_fits pinned_key"
    by (simp add: key_fits_def pinned_key_def)
  have "length (base64 (device_point pinned_key)) \<noteq> 0" by (simp add: pinned_key_point)
  then have "base64 (device_point pinned_key) \<noteq> []" by fastforce
  with made fits show ?thesis
    unfolding enrolled_def
    by (intro conjI exI [of _ pinned_key])
      (simp_all add: ref_record_def ref_pcr_digest edge_1_def unbase64_base64 ref_identity_def pinned_key_def)
qed

section \<open>Its attestation\<close>

definition link_start :: "unit device_link" where
  "link_start = \<lparr>sv_w = (), sv_registry = [edge_1 \<mapsto> ref_record], sv_pending = Map.empty, sv_sessions = Map.empty,
     sv_identity = (fit 32 [6], server_point), sl_buf = (\<lambda>d. []), sl_verdict = Map.empty\<rparr>"

definition ref_pending :: pending_challenge where
  "ref_pending = \<lparr>pc_nonce = ref_nonce, pc_priv = fit 32 [6], pc_pub = server_point, pc_issued = 0\<rparr>"

definition link_challenged :: "unit device_link" where
  "link_challenged = link_start\<lparr>sv_pending := [edge_1 \<mapsto> ref_pending]\<rparr>"

lemma challenge_run: "\<exists>ch. run_state (issue_challenge (ref_server p) edge_1) link_start = (Inr ch, link_challenged)"
  by (simp add: issue_challenge_def link_start_def link_challenged_def ref_pending_def ref_nonce_def)

definition ref_quote :: quote where
  "ref_quote = \<lparr>q_name = zeros 34, q_extra = take 32 (shm evidence_end ! 3), q_clock = zeros 17, q_firmware = zeros 8,
     q_selections = [(11, [1, 0, 0])], q_digest = checksum [0, 255]\<rparr>"

definition ref_response :: response where
  "ref_response = \<lparr>rs_device_ecdh_pub = PyStr (base64 (take 65 (shm evidence_end ! 0))),
     rs_quote = PyStr (base64 (tpm2b (quote_body ref_quote))),
     rs_signature = PyStr (base64 (ecdsa_signature (checksum (quote_body ref_quote)) (fit 32 [8]))),
     rs_pcr_values = PyStr ref_pcrs, rs_ta_sig = PyStr (base64 (take 64 (drop 32 (shm evidence_end ! 3))))\<rparr>"

lemma evidence_buffers: "length (shm evidence_end ! 0) = 65" "length (shm evidence_end ! 3) = 96"
  by (simp_all add: evidence_end_def evidence_start_def evidence_types_def base_store_def
    ta_generate_attestation_evidence_def ref_state_def zero_session_def session1_def
    fresh_evidence_def publish_evidence_def err_free_keypair_def ref_sign ref_platform_def ref_nonce_def server_point_def)

lemma ref_quote_wf: "quote_wf ref_quote"
  by (simp add: quote_wf_def quote_body_def ref_quote_def selection_def evidence_buffers)

lemma ref_honest:
  "honest_response (ref_server p) ref_ak (checksum [0, 255]) (take 65 (shm evidence_end ! 0)) (take 96 (shm evidence_end ! 3))
     ref_quote (checksum (quote_body ref_quote)) (fit 32 [8]) ref_pcrs ref_response"
proof -
  have "take 32 (take 96 (shm evidence_end ! 3)) = take 32 (shm evidence_end ! 3)"
    "take 64 (drop 32 (take 96 (shm evidence_end ! 3))) = take 64 (drop 32 (shm evidence_end ! 3))"
    by (simp_all add: evidence_buffers)
  then show ?thesis
    by (simp add: honest_response_def ref_quote_wf ref_pcr_digest ref_response_def ref_verify_def ref_ak_def)
      (simp add: ref_quote_def)
qed

lemma ref_accepted:
  assumes "sv_registry x edge_1 = Some ref_record" "sv_pending x edge_1 = Some ref_pending"
  shows "\<exists>sig w. run_state (verify_and_derive (ref_server p) edge_1 ref_response) x = (Inr sig, w)"
proof -
  have s: "shm evidence_start ! 1 = pc_nonce ref_pending" "shm evidence_start ! 2 = pc_pub ref_pending"
    by (simp_all add: evidence_start_def ref_state_def ref_pending_def)
  obtain key where key: "evidence_for store ref_platform ref_pending key evidence_end"
    using evidence_answers [OF ref_laws ref_quiet ta_hist_inv [OF ref_laws ref_evidence_hist] ref_starts_ready(2) s evidence_run(1)]
    by blast
  have blob: "store (ext evidence_end) TA_IDENTITY_OBJID = Some ref_identity"
    by (simp add: evidence_run base_store_def)
  have proven: "response_proves (ref_server p) ref_record ref_pending edge_1 ref_response (device_point key)"
    by (rule honest_response_proves [OF common_ref ref_laws blob ref_identity_facts(1) ref_enrolled key ref_honest])
      (simp add: evidence_buffers)
  have "v_on_curve (ref_server p) (device_point key)"
    using key by (simp add: evidence_for_def)
  with proven show ?thesis
    by (rule verify_and_derive_accepts [OF assms, rotated]) (simp add: ref_pending_def)
qed

text \<open>The session that is opened.\<close>

definition link_session :: "unit device_link" where
  "link_session = link_start\<lparr>sv_sessions := [edge_1 \<mapsto> \<lparr>ds_key = ref_session_key, ds_expires = 3600, ds_last_seq = 0\<rparr>]\<rparr>"

lemma link_fields [simp]:
  "sv_registry link_challenged edge_1 = Some ref_record" "sv_pending link_challenged edge_1 = Some ref_pending"
  by (simp_all add: link_challenged_def link_start_def)

section \<open>Its first message\<close>

definition ref_data :: "'e ta_state \<Rightarrow> (bytes \<times> py) list" where
  "ref_data t = [(ascii ''type'', PyStr (ascii ''data'')), (ascii ''nonce'', PyStr (base64 (take 12 (shm t ! 0)))),
     (ascii ''ciphertext'', PyStr (base64 (take (psize t ! 1) (shm t ! 1)))),
     (ascii ''seq'', PyInt (uint (fst (pvalue t ! 2))))]"

lemma ref_carries: "carries (ref_server p) t (ref_data t)"
  by (simp add: carries_def ref_data_def py_item_def b64d_def ascii_def unbase64_base64)

definition ref_parse :: "(int \<times> bytes) list \<Rightarrow> bytes \<rightharpoonup> py" where
  "ref_parse ps = [samples_json ps \<mapsto> samples_py ps]"

lemma ref_json: "json_laws (ref_server (ref_parse ps)) ps"
  by (simp add: json_laws_def ref_parse_def ref_float_def)

text \<open>A message of the TA after any reading that the sensor sends.\<close>

definition unit_start :: "bytes \<Rightarrow> store_state ta_state" where
  "unit_start u = ref_state sealed_store (encode_frame FRAME_READING (reading_payload 21 u)) [zeros 12, zeros 512, [], []] session3"

definition unit_end :: "bytes \<Rightarrow> store_state ta_state" where
  "unit_end u = snd (run_state (ta_read_and_protect ref_platform protect_types) (unit_start u))"

lemma unit_run:
  assumes "length u \<le> READING_UNIT_MAX"
  shows "run_state (ta_read_and_protect ref_platform protect_types) (unit_start u) = (TEE_SUCCESS, unit_end u)"
    and "wire (unit_end u) = wire (unit_start u) @ received (encode_frame FRAME_READING (reading_payload 21 u))"
proof -
  let ?p = "splice 0 (reading_payload 21 u) (zeros 256)"
  have u: "length u \<le> 255" and u': "length u \<le> 32" using assms by simp_all
  note f = reading_payload_fields [OF u, of 21]
  have l: "length (reading_payload 21 u) = 5 + length u" using f by simp
  have "take (length (reading_payload 21 u)) ?p = reading_payload 21 u"
    by (rule take_splice_0)
  then have at: "take 4 ?p = be32 21" "unat (?p ! 4) = length u" "sub 5 (length u) ?p = u"
    using f l u' by (simp_all add: splice_def reading_payload_def nth_append sub_def)
  have v: "from_be32 (be32 21) = 21"
    using from_be32_be32 [of 21 "[]"] by simp
  have n: "length (reading_json 21 u) \<le> 77"
    using length_reading_json [OF u', of 21] by simp
  have w: "unat (of_nat (length u) :: u8) = length u" using u by (simp add: unat_of_nat)
  note s = session3_fields
  show "run_state (ta_read_and_protect ref_platform protect_types) (unit_start u) = (TEE_SUCCESS, unit_end u)"
    "wire (unit_end u) = wire (unit_start u) @ received (encode_frame FRAME_READING (reading_payload 21 u))"
    using n at s u' w
    by (simp_all add: unit_end_def prod_eq_iff ref_platform_def unit_start_def protect_types_def
      ta_read_and_protect_def ref_state_def read_sensor_reading_def open_sensor_pta_def invoke_sensor_pta_def
      invoke_command_def sensor_link_read_def f l v Let_def store_out_def set_out_size_def
      format_reading_def encrypt_reading_def emit_message_def protect_out_def)
qed

lemma unit_ready: "cmd_ready (unit_start u)" and unit_sess: "sess (unit_start u) = session3"
  by (simp_all add: unit_start_def ref_ready)

lemma unit_hist: "ta_hist store ref_platform (unit_start u) 1 []"
  using ref_rebase [OF ref_protect_hist, of sealed_store "[zeros 12, zeros 512, [], []]" "encode_frame FRAME_READING (reading_payload 21 u)"]
  by (simp add: protect_start_def unit_start_def)

section \<open>A Host with an unread answer\<close>

text \<open>The answer to its last data message, as the server writes it, and a session that is over.\<close>

definition answer_line :: bytes where
  "answer_line = ascii ''{'' @ quoted (ascii ''ok'') @ ascii '': true}''"

definition answered_host :: "(bytes \<times> unit, unit) host_env" where
  "answered_host = env_on (\<lambda>n. None) () (\<lambda>c ty ps t. ((TEE_SUCCESS, map shrink ps), t))"

definition answered_edge :: "(bytes \<times> unit) edge" where
  "answered_edge = (edge_start (answer_line @ [10], ()))\<lparr>g_conn_open := True, g_attested := True, g_session_expiry := 0\<rparr>"

lemma answered_stream: "stream_kept answered_host fst"
  by (simp add: stream_kept_def answered_host_def env_on_recv split_paired_All)

lemma answered_waits: "answer_waits answered_host fst answered_edge"
proof -
  have "10 \<notin> set answer_line" "length answer_line = 12" by code_simp+
  then show ?thesis
    unfolding answer_waits_def
    by (intro exI [of _ answer_line] exI [of _ "[]"])
      (simp add: data_answer_def answered_host_def answered_edge_def edge_start_def)
qed

lemma answered_over: "g_conn_open answered_edge" "session_over answered_host answered_edge"
  by (simp_all add: session_over_def mono_now_def answered_host_def answered_edge_def)

end
