(* ===== verification/WithServer.thy ===== *)
theory WithServer
  imports ServerRuns
begin

text \<open>
  The properties of the management server and of device and server together. The text of the root
  names the theories they rest on; the runs of ServerRuns and of Runs are their witnesses.
\<close>

text \<open>From a reading on the link to samples of the server, through one message of the TA.\<close>

lemma message_text:
  assumes laws: "platform_laws V P" and quiet: "quiet_host P" and crypto: "common_crypto P E"
    and inv: "ta_inv V s" and ready: "cmd_ready s"
    and run: "run_state (ta_read_and_protect P types) s = (TEE_SUCCESS, t)"
    and read: "wire t = wire s @ received (encode_frame FRAME_READING (reading_payload v u))" "length u \<le> READING_UNIT_MAX"
    and json: "reading_json (sint v) u = samples_json ps" and sent: "carries E t msg"
  shows "on_data_open E (session_key (sess s)) msg = Inr (uint (send_seq (sess t)), samples_json ps) \<and>
    0 < uint (send_seq (sess t)) \<and> uint (send_seq (sess t)) \<le> 0xFFFFFFFF \<and> send_seq (sess t) = send_seq (sess s) + 1"
proof -
  have post: "protect_post V P s TEE_SUCCESS t"
    by (rule wp_run [OF wp_ta_read_and_protect [OF laws inv ready] run])
  then have seq: "send_seq (sess s) < 0xffffffff" "send_seq (sess t) = send_seq (sess s) + 1"
    and ok: "message_ok P s t" and stored: "reading_stored s t"
    by (auto simp: protect_post_def Let_def)
  from seq have "0 < send_seq (sess t)" "send_seq (sess t) \<le> 0xffffffff"
    by (simp_all add: word_less_nat_alt word_le_nat_alt unat_word_ariths)
  note opened = message_opens [OF crypto quiet ready ok sent this]
  have pos: "0 < uint (send_seq (sess t))" "uint (send_seq (sess t)) \<le> 0xFFFFFFFF"
    using \<open>0 < send_seq (sess t)\<close> \<open>send_seq (sess t) \<le> 0xffffffff\<close> by (simp_all add: word_less_def word_le_def)
  from stored obtain v' u' where frame: "length u' \<le> READING_UNIT_MAX"
    "wire t = wire s @ received (encode_frame FRAME_READING (reading_payload v' u'))"
    "take (reading_len (sess t)) (reading (sess t)) = reading_json (sint v') u'"
    by (auto simp: reading_stored_def)
  have "inj Received" by (simp add: inj_def)
  with frame(2) read(1) have "encode_frame FRAME_READING (reading_payload v u) = encode_frame FRAME_READING (reading_payload v' u')"
    by (simp add: inj_map_eq_map)
  from reading_frame_inj [OF this read(2) frame(1)] frame(3) json opened pos seq show ?thesis by simp
qed

lemma message_arrives:
  assumes "platform_laws V P" "quiet_host P" "common_crypto P E" "ta_inv V s" "cmd_ready s"
    and "run_state (ta_read_and_protect P types) s = (TEE_SUCCESS, t)"
    and "wire t = wire s @ received (encode_frame FRAME_READING (reading_payload v u))" "length u \<le> READING_UNIT_MAX"
    and "reading_json (sint v) u = samples_json ps" "carries E t msg"
    and json: "json_laws E ps" "list_all (\<lambda>p. \<bar>fst p\<bar> < 2 ^ 53) ps"
    and sess: "sv_sessions w d = Some ss" "ds_key ss = session_key (sess s)" "ds_last_seq ss < uint (send_seq (sess t))"
      "readings_until E 3 (ds_expires ss) (sv_w w)"
  shows "\<exists>x. run_state (on_data E d msg) w = (Inr (), x) \<and>
    sv_sessions x = (sv_sessions w)(d \<mapsto> ss\<lparr>ds_last_seq := uint (send_seq (sess t))\<rparr>) \<and>
    sl_buf x d = deque_extend (sl_buf w d) (map (sample_at d (fst (v_time E (sv_w w)))) ps) \<and>
    (\<exists>v. sl_verdict x d = Some v \<and> vd_attested v \<and> vd_intact v)"
proof -
  note m = message_text [OF assms(1-10)]
  then have "on_data_open E (ds_key ss) msg = Inr (uint (send_seq (sess t)), samples_json ps)" using sess(2) by simp
  from on_data_delivers [OF json sess(1,4) this sess(3)] m show ?thesis by blast
qed

lemma value_small: "\<bar>sint (v :: u32)\<bar> < 2 ^ 53"
proof -
  have "- (2 ^ 31) \<le> sint v" "sint v < 2 ^ 31" using sint_range_size [of v] by (simp_all add: word_size)
  then show ?thesis by simp
qed

section \<open>Who gets a session\<close>

text \<open>
  C20. The verifier's gate. A response is answered with a signature exactly when the device is
  registered, a challenge of at most 30 seconds ago is pending for it, its point is on the curve, and
  the response proves all five things about that challenge: the quote and its signature parse, the reported PCR values are
  the quoted ones and the enrolled ones, the enrolled attestation key signed the quote, its qualifying data
  is the transcript of this session, and the enrolled TA key signed the same transcript. The
  challenge of a registered device is consumed in any case, nothing is consumed for one that is not
  registered, and a refused response changes no session.
\<close>

theorem verifier_gate:
  assumes "run_state (verify_and_derive E d msg) s = (res, t)"
  shows "((\<exists>sig. res = Inr sig) \<longleftrightarrow> (\<exists>rec p pub. sv_registry s d = Some rec \<and> sv_pending s d = Some p \<and>
      fst (v_time E (sv_w s)) - pc_issued p \<le> 30 \<and> response_proves E rec p d msg pub \<and> v_on_curve E pub)) \<and>
    sv_registry t = sv_registry s \<and>
    sv_pending t = (if sv_registry s d = None then sv_pending s else (sv_pending s)(d := None)) \<and>
    (case res of Inl x \<Rightarrow> sv_sessions t = sv_sessions s | Inr sig \<Rightarrow> opens_session E d msg s sig t)"
proof -
  note spec = verify_and_derive_spec [OF assms]
  have "\<exists>sig. res = Inr sig" if "sv_registry s d = Some rec" "sv_pending s d = Some p"
    "fst (v_time E (sv_w s)) - pc_issued p \<le> 30" "response_proves E rec p d msg pub" "v_on_curve E pub" for rec p pub
    using verify_and_derive_accepts [OF that] assms by auto
  moreover have "\<exists>rec p pub. sv_registry s d = Some rec \<and> sv_pending s d = Some p \<and>
      fst (v_time E (sv_w s)) - pc_issued p \<le> 30 \<and> response_proves E rec p d msg pub \<and> v_on_curve E pub" if "res = Inr sig" for sig
    using spec that by (auto simp: opens_session_def)
  ultimately show ?thesis using spec by blast
qed

theorem verifier_gate_witness:
  "sv_sessions (snd (run_state (verify_and_derive (ref_server Map.empty) edge_1 ref_response) link_start)) = Map.empty \<and>
   \<not> (\<exists>sig t. run_state (verify_and_derive (ref_server Map.empty) edge_1 ref_response) link_start = (Inr sig, t))"
proof -
  obtain res t where run: "run_state (verify_and_derive (ref_server Map.empty) edge_1 ref_response) link_start = (res, t)"
    by (metis prod.exhaust)
  from verifier_gate [OF run] have "\<not> (\<exists>sig. res = Inr sig)" "case res of Inl x \<Rightarrow> sv_sessions t = Map.empty | Inr sig \<Rightarrow> True"
    by (auto simp: link_start_def split: sum.splits)
  with run show ?thesis by (auto split: sum.splits)
qed

text \<open>
  C22. One key on both ends, with a Host that writes to no shared buffer while a command runs
  (\<open>quiet_host\<close>). When the TA makes evidence over a challenge of the server, the server
  accepts a response with that point, and the TA then completes the handshake with its pending pair, the
  session key in the TA is the one the server stored, and both count from zero. Neither side sends
  the key: each computes it from its own private half. The condition is needed: the TA reads the
  server's point from the shared buffer twice, and C30 of the root is a run in which the Host
  changes it in between and the TA ends with another key.
\<close>

theorem both_ends_hold_one_key:
  assumes "platform_laws V P" "quiet_host P" "common_crypto P E"
    and "run_state (issue_challenge E d) v0 = (Inr ch, v1)" "sv_pending v1 d = Some p"
    and "ta_hist V P s e msgs" "cmd_ready s" "shm s ! 1 = pc_nonce p" "shm s ! 2 = pc_pub p"
    and "run_state (ta_generate_attestation_evidence P types) s = (Ret TEE_SUCCESS, t)"
    and "sv_pending v d = Some p" "b64d E (rs_device_ecdh_pub msg) = Inr (take 65 (shm t ! 0))"
    and "run_state (verify_and_derive E d msg) v = (Inr sig, w)"
    and "ta_hist V P u e' msgs'" "cmd_ready u" "shm u ! 0 = pc_pub p" "shm u ! 1 = pc_nonce p"
      "ecdh_keypair (sess u) = ecdh_keypair (sess t)"
    and "run_state (ta_handshake_complete P types') u = (Ret TEE_SUCCESS, x)"
  shows "\<exists>ss. sv_sessions w d = Some ss \<and> session_key (sess x) = ds_key ss \<and> session_key_valid (sess x) \<and>
    send_seq (sess x) = 0 \<and> ds_last_seq ss = 0"
proof -
  obtain key where key: "evidence_for V P p key t"
    using evidence_answers [OF assms(1,2) ta_hist_inv [OF assms(1,6)] assms(7-10)] by blast
  then have pair: "ecdh_keypair (sess u) = Some key" and made: "key_made P key" and pub: "take 65 (shm t ! 0) = device_point key"
    using assms(18) by (simp_all add: evidence_for_def)
  obtain z where z: "p_ecdh P (ec_d key) (take 32 (drop 1 (pc_pub p))) (drop 32 (drop 1 (pc_pub p))) = Some z"
    "session_key (sess x) = p_hkdf P z (pc_nonce p) HKDF_INFO 32" "session_key_valid (sess x)" "send_seq (sess x) = 0"
    using handshake_key [OF assms(1,2) ta_hist_inv [OF assms(1,14)] assms(15-17) pair assms(19)] by blast
  obtain p' where "issued E p'" "sv_pending v1 d = Some p'"
    using issue_challenge_issues [OF assms(3,4)] by auto
  with assms(5) obtain k where "fst (v_keygen E k) = (pc_priv p, pc_pub p)" by (auto simp: issued_def)
  from common_cryptoD(8) [OF assms(3) made this] z(1) have "z = v_exchange E (pc_priv p) (device_point key)" by simp
  moreover have "opens_session E d msg v sig w" using verify_and_derive_spec [OF assms(13)] by simp
  from accepted_key [OF this assms(11,12)] pub obtain ex where "sv_sessions w d =
    Some \<lparr>ds_key = v_hkdf E (v_exchange E (pc_priv p) (device_point key)) (pc_nonce p) HKDF_INFO 32, ds_expires = ex, ds_last_seq = 0\<rparr>"
    by auto
  ultimately show ?thesis using z by (simp add: common_cryptoD(2) [OF assms(3)])
qed

theorem both_ends_hold_one_key_witness:
  "\<exists>sig w ss. run_state (verify_and_derive (ref_server Map.empty) edge_1 ref_response) link_challenged = (Inr sig, w) \<and>
     sv_sessions w edge_1 = Some ss \<and> ds_key ss = ref_session_key"
proof -
  let ?E = "ref_server Map.empty"
  obtain ch where challenge: "run_state (issue_challenge ?E edge_1) link_start = (Inr ch, link_challenged)"
    using challenge_run by blast
  have pending: "sv_pending link_challenged edge_1 = Some ref_pending" by (simp add: link_challenged_def)
  obtain sig w where accepted: "run_state (verify_and_derive ?E edge_1 ref_response) link_challenged = (Inr sig, w)"
    using ref_accepted link_fields by blast
  have s: "shm evidence_start ! 1 = pc_nonce ref_pending" "shm evidence_start ! 2 = pc_pub ref_pending"
    "shm handshake_start ! 0 = pc_pub ref_pending" "shm handshake_start ! 1 = pc_nonce ref_pending"
    by (simp_all add: evidence_start_def handshake_start_def ref_state_def ref_pending_def)
  have "b64d ?E (rs_device_ecdh_pub ref_response) = Inr (take 65 (shm evidence_end ! 0))"
    by (simp add: ref_response_def b64d_def unbase64_base64)
  moreover have "ecdh_keypair (sess handshake_start) = ecdh_keypair (sess evidence_end)"
    by (simp add: handshake_start_def evidence_run)
  ultimately obtain ss where "sv_sessions w edge_1 = Some ss" "session_key (sess handshake_end) = ds_key ss"
    using both_ends_hold_one_key [OF ref_laws ref_quiet common_ref challenge pending ref_evidence_hist ref_starts_ready(2)
      s(1,2) evidence_run(1) pending _ accepted ref_handshake_hist ref_starts_ready(3) s(3,4) _ handshake_run(1)] by blast
  with accepted show ?thesis by (simp add: handshake_run session3_def)
qed

text \<open>
  C23. An honest device is admitted. When the Host writes to no shared buffer while a command runs, the server issues a challenge to an enrolled device, its TA makes
  evidence over it, and the Host sends that point, that signature and a quote of the hash
  over the enrolled PCRs, signed by the enrolled key, within 30 seconds and before another challenge,
  then none of the checks fails and a session is opened.
\<close>

theorem honest_device_accepted:
  assumes "platform_laws V P" "quiet_host P" "common_crypto P E"
    and "run_state (issue_challenge E d) v0 = (Inr ch, v1)" "sv_pending v1 d = Some p"
    and "ta_hist V P s e msgs" "cmd_ready s" "shm s ! 1 = pc_nonce p" "shm s ! 2 = pc_pub p"
    and "run_state (ta_generate_attestation_evidence P types) s = (Ret TEE_SUCCESS, t)"
    and "V (ext t) TA_IDENTITY_OBJID = Some blob" "length blob = 160" "enrolled P E rec ak dg d blob"
    and "honest_response E ak dg (take 65 (shm t ! 0)) (take 96 (shm t ! 3)) q r sg pcrs msg" "96 \<le> length (shm t ! 3)"
    and "sv_registry v d = Some rec" "sv_pending v d = Some p" "fst (v_time E (sv_w v)) - pc_issued p \<le> 30"
  shows "\<exists>sig w ss. run_state (verify_and_derive E d msg) v = (Inr sig, w) \<and> sv_sessions w d = Some ss \<and>
    ds_last_seq ss = 0 \<and> sv_pending w d = None"
proof -
  obtain key where key: "evidence_for V P p key t"
    using evidence_answers [OF assms(1,2) ta_hist_inv [OF assms(1,6)] assms(7-10)] by blast
  have proven: "response_proves E rec p d msg (device_point key)"
    by (rule honest_response_proves [OF assms(3,1,11-13) key assms(14,15)])
  have "v_on_curve E (device_point key)"
    using key common_cryptoD(6) [OF assms(3)] by (simp add: evidence_for_def)
  from verify_and_derive_accepts [OF assms(16-18) proven this] obtain sig w
    where run: "run_state (verify_and_derive E d msg) v = (Inr sig, w)" by blast
  from verify_and_derive_spec [OF run] assms(16) obtain ss where "sv_sessions w d = Some ss" "ds_last_seq ss = 0" "sv_pending w d = None"
    by (auto simp: opens_session_def)
  with run show ?thesis by blast
qed

theorem honest_device_accepted_witness:
  "\<exists>sig w. run_state (verify_and_derive (ref_server Map.empty) edge_1 ref_response) link_challenged = (Inr sig, w)"
proof -
  obtain ch where challenge: "run_state (issue_challenge (ref_server Map.empty) edge_1) link_start = (Inr ch, link_challenged)"
    using challenge_run by blast
  have pending: "sv_pending link_challenged edge_1 = Some ref_pending" "sv_registry link_challenged edge_1 = Some ref_record"
    "fst (v_time (ref_server Map.empty) (sv_w link_challenged)) - pc_issued ref_pending \<le> 30"
    by (simp_all add: link_challenged_def link_start_def ref_pending_def)
  have s: "shm evidence_start ! 1 = pc_nonce ref_pending" "shm evidence_start ! 2 = pc_pub ref_pending"
    by (simp_all add: evidence_start_def ref_state_def ref_pending_def)
  have blob: "store (ext evidence_end) TA_IDENTITY_OBJID = Some ref_identity"
    by (simp add: evidence_run base_store_def)
  show ?thesis
    using honest_device_accepted [OF ref_laws ref_quiet common_ref challenge pending(1) ref_evidence_hist ref_starts_ready(2) s
      evidence_run(1) blob ref_identity_facts(1) ref_enrolled ref_honest _ pending(2,1,3)] evidence_buffers by auto
qed

text \<open>
  An identifier that registration admits is one name on every part of the way: the Host's buffer holds it
  whole, no NUL ends it early, and the TA can seal it.
\<close>

theorem enrolled_identifiers_are_whole:
  assumes "validate_device_id d"
  shows "snprintf 64 d = d \<and> c_string d = d \<and> 0 < length d \<and> length d \<le> DEVICE_ID_MAX \<and>
    blob_id (identity_blob (zeros 32) (zeros 32) (zeros 32) d) = d"
  using validated_id [OF assms] identity_blob_fields [of "zeros 32" "zeros 32" "zeros 32" d]
  by (auto simp: snprintf_def c_string_def takeWhile_eq_all_conv)

section \<open>Data messages\<close>

text \<open>
  C27. A reading arrives, with a Host that writes to no shared buffer while a command runs. The sample the server appends for the message that carries a reading of the
  Sensor Module has the value and the unit of the frame on the secure link, under the name of the
  device's sensor; the verdict is good and the sequence number is the counter of the TA. Between the two are
  the pseudo-TA, the formatting and encryption of the TA, the Host's base64, and the server's
  decryption, replay check and parsing.
\<close>

theorem reading_delivered:
  assumes "platform_laws V P" "quiet_host P" "common_crypto P E" "ta_hist V P s e msgs" "cmd_ready s"
    and "run_state (ta_read_and_protect P types) s = (TEE_SUCCESS, t)"
    and "wire t = wire s @ received (encode_frame FRAME_READING (reading_payload v u))" "length u \<le> READING_UNIT_MAX"
    and "json_laws E [(sint v, c_string u)]" "carries E t msg"
    and "sv_sessions w d = Some ss" "ds_key ss = session_key (sess s)" "ds_last_seq ss < uint (send_seq (sess t))"
      "readings_until E 3 (ds_expires ss) (sv_w w)"
  shows "\<exists>x. run_state (on_data E d msg) w = (Inr (), x) \<and>
    sl_buf x d = deque_extend (sl_buf w d)
      [\<lparr>sm_ts = fst (v_time E (sv_w w)), sm_value = of_int (sint v), sm_sensor = d @ ascii '':sensor'', sm_unit = c_string u\<rparr>] \<and>
    (\<exists>a. sl_verdict x d = Some a \<and> vd_attested a \<and> vd_intact a) \<and>
    sv_sessions x = (sv_sessions w)(d \<mapsto> ss\<lparr>ds_last_seq := uint (send_seq (sess t))\<rparr>)"
proof -
  from value_small [of v] have "list_all (\<lambda>p. \<bar>fst p\<bar> < 2 ^ 53) [(sint v, c_string u)]" by simp
  from message_arrives [OF assms(1-3) ta_hist_inv [OF assms(1,4)] assms(5-8) reading_is_sample assms(10,9) this assms(11-14)]
  show ?thesis by (auto simp: sample_at_def)
qed

theorem reading_delivered_witness:
  "\<exists>x. run_state (on_data (ref_server (ref_parse [(21, ascii ''C'')])) edge_1 (ref_data (unit_end (ascii ''C'')))) link_session = (Inr (), x) \<and>
     sl_buf x edge_1 = [\<lparr>sm_ts = 0, sm_value = 21, sm_sensor = edge_1 @ ascii '':sensor'', sm_unit = ascii ''C''\<rparr>]"
proof -
  let ?ps = "[(21, ascii ''C'')]"
  have u: "length (ascii ''C'') \<le> READING_UNIT_MAX" and c: "c_string (ascii ''C'') = ascii ''C''" and v: "sint (21 :: u32) = 21"
    by (simp, code_simp, simp)
  have json: "json_laws (ref_server (ref_parse ?ps)) [(sint (21 :: u32), c_string (ascii ''C''))]"
    unfolding c v by (rule ref_json)
  have sess: "sv_sessions link_session edge_1 = Some \<lparr>ds_key = ref_session_key, ds_expires = 3600, ds_last_seq = 0\<rparr>"
    "ref_session_key = session_key (sess (unit_start (ascii ''C'')))" "sl_buf link_session edge_1 = []"
    by (simp_all add: link_session_def link_start_def unit_sess session3_def)
  have "0 < uint (send_seq (sess (unit_end (ascii ''C''))))"
    using message_text [OF ref_laws ref_quiet common_ref ta_hist_inv [OF ref_laws unit_hist] unit_ready unit_run [OF u]
      u reading_is_sample ref_carries] by blast
  then show ?thesis
    using reading_delivered [OF ref_laws ref_quiet common_ref unit_hist unit_ready unit_run [OF u] u json ref_carries sess(1)]
      sess(2,3) by (auto simp: c deque_extend_def numeral_3_eq_3)
qed

text \<open>
  The text of a reading is not escaped. A sensor whose unit holds a quotation mark makes the TA seal one
  reading that the server takes for two, the second of them made up by the sensor, under a good verdict.
\<close>

theorem one_reading_two_samples:
  assumes "platform_laws V P" "quiet_host P" "common_crypto P E" "ta_hist V P s e msgs" "cmd_ready s"
    and "run_state (ta_read_and_protect P types) s = (TEE_SUCCESS, t)"
    and "wire t = wire s @ received (encode_frame FRAME_READING (reading_payload v forged_unit))"
    and "json_laws E [(sint v, []), (7, ascii ''C'')]" "carries E t msg"
    and "sv_sessions w d = Some ss" "ds_key ss = session_key (sess s)" "ds_last_seq ss < uint (send_seq (sess t))"
      "readings_until E 3 (ds_expires ss) (sv_w w)"
  shows "\<exists>x. run_state (on_data E d msg) w = (Inr (), x) \<and>
    sl_buf x d = deque_extend (sl_buf w d)
      (map (sample_at d (fst (v_time E (sv_w w)))) [(sint v, []), (7, ascii ''C'')]) \<and>
    (\<exists>a. sl_verdict x d = Some a \<and> vd_attested a \<and> vd_intact a)"
proof -
  from value_small [of v] have "list_all (\<lambda>p. \<bar>fst p\<bar> < 2 ^ 53) [(sint v, []), (7, ascii ''C'')]" by simp
  from message_arrives [OF assms(1-3) ta_hist_inv [OF assms(1,4)] assms(5-7) forged_unit_text assms(9,8) this assms(10-13)]
  show ?thesis by auto
qed




text \<open>
  C26. A new attestation does not stop what is under way. When the key of a session was taken for a message and
  the device opens a new session before the sequence number is checked, the message of the old session
  is accepted in the new one, and the new session then refuses all its own messages up to that number.
\<close>

theorem old_message_counts_in_new_session:
  assumes "run_state (on_data_begin E d) s = ((now, Some old), u)"
    and "on_data_open E old msg = Inr (n, samples_json ps)" "json_laws E ps" "list_all (\<lambda>p. \<bar>fst p\<bar> < 2 ^ 53) ps"
    and "run_state (verify_and_derive E d r) u = (Inr sig, v)" "fst (v_time E (sv_w v)) \<le> ds_expires (the (sv_sessions v d))"
  shows "\<exists>w. run_state (on_data_commit E d now n (samples_json ps)) v = (Inr (), w) \<and>
    sl_buf w d = deque_extend (sl_buf v d) (map (sample_at d now) ps) \<and>
    (\<forall>m \<le> n. \<not> fst (run_state (check_and_advance_seq E d (PyInt m)) w))"
proof -
  have "opens_session E d r u sig v" using verify_and_derive_spec [OF assms(5)] by simp
  from commit_after_rekey [OF assms(3,4,2) this assms(6), of now] obtain w ss
    where w: "run_state (on_data_commit E d now n (samples_json ps)) v = (Inr (), w)"
      "sv_sessions w d = Some (ss\<lparr>ds_last_seq := n\<rparr>)" "sl_buf w d = deque_extend (sl_buf v d) (map (sample_at d now) ps)"
    by blast
  have "\<not> fst (run_state (check_and_advance_seq E d (PyInt m)) w)" if "m \<le> n" for m
    using seq_refused [OF w(2)] that by simp
  with w show ?thesis by blast
qed

theorem old_message_counts_in_new_session_witness:
  "let E = ref_server (ref_parse [(21, ascii ''C'')]); s = link_session\<lparr>sv_pending := [edge_1 \<mapsto> ref_pending]\<rparr> in
   \<exists>sig v w. run_state (verify_and_derive E edge_1 ref_response) s = (Inr sig, v) \<and>
     run_state (on_data_commit E edge_1 0 1 (samples_json [(21, ascii ''C'')])) v = (Inr (), w) \<and>
     \<not> fst (run_state (check_and_advance_seq E edge_1 (PyInt 1)) w)"
proof -
  let ?ps = "[(21, ascii ''C'')]"
  let ?E = "ref_server (ref_parse ?ps)" and ?s = "link_session\<lparr>sv_pending := [edge_1 \<mapsto> ref_pending]\<rparr>"
  have u: "length (ascii ''C'') \<le> READING_UNIT_MAX" and c: "c_string (ascii ''C'') = ascii ''C''" and v: "sint (21 :: u32) = 21"
    by (simp, code_simp, simp)
  have began: "run_state (on_data_begin ?E edge_1) ?s = ((0, Some ref_session_key), ?s)"
    by (simp add: on_data_begin_def session_key_of_def link_session_def)
  have "send_seq (sess (unit_end (ascii ''C''))) = 1" and
    opened: "on_data_open ?E (session_key (sess (unit_start (ascii ''C'')))) (ref_data (unit_end (ascii ''C''))) =
      Inr (uint (send_seq (sess (unit_end (ascii ''C'')))), samples_json ?ps)"
    using message_text [OF ref_laws ref_quiet common_ref ta_hist_inv [OF ref_laws unit_hist] unit_ready unit_run [OF u]
      u reading_is_sample ref_carries, of "ref_parse ?ps"] by (simp_all add: unit_sess session3_fields c v)
  then have one: "on_data_open ?E ref_session_key (ref_data (unit_end (ascii ''C''))) = Inr (1, samples_json ?ps)"
    by (simp add: unit_sess session3_def)
  obtain sig v where accepted: "run_state (verify_and_derive ?E edge_1 ref_response) ?s = (Inr sig, v)"
    using ref_accepted [of ?s "ref_parse ?ps"] by (auto simp: link_session_def link_start_def)
  have "fst (v_time ?E (sv_w v)) \<le> ds_expires (the (sv_sessions v edge_1))"
    using verify_and_derive_spec [OF accepted] by (auto simp: opens_session_def)
  from old_message_counts_in_new_session [OF began one ref_json _ accepted this] accepted show ?thesis by auto
qed

text \<open>
  C37. The device is not told. A data message either ends the connection without an answer, by an
  exception that is not caught, or is answered \<open>ok: true\<close>. It is answered so when it is refused for
  any of the six reasons: no session, an expired one, a message that does not decrypt, a session
  that expires meanwhile, an old number, and a plaintext that is not JSON. No sample is taken then
  and the verdict is bad; the expired session is dropped, the plaintext that is not JSON has used up
  its number, and the sessions are otherwise as they were. Every other message that is answered
  leaves a good verdict.
\<close>

theorem refused_data_answered_ok:
  assumes line: "data_line E line msg" "d \<noteq> []"
    and run: "run_state (handle_line E (Some d) line) s = (answer, t)"
  shows "answer \<in> {([], Leave (Some d)), ([PyDict [(ascii ''ok'', PyBool True)]], Stay (Some d))} \<and>
    (\<forall>why. refused E d msg s why \<longrightarrow> answer = ([PyDict [(ascii ''ok'', PyBool True)]], Stay (Some d)) \<and>
       sl_buf t = sl_buf s \<and> sv_sessions t = sessions_after E d msg s why \<and> (\<exists>v. sl_verdict t d = Some v \<and> \<not> vd_intact v)) \<and>
    (snd answer = Stay (Some d) \<longrightarrow> (\<forall>why. \<not> refused E d msg s why) \<longrightarrow> (\<exists>v. sl_verdict t d = Some v \<and> vd_intact v))"
proof (intro conjI allI impI)
  note line = data_line_handled [OF line, of s]
  show "answer \<in> {([], Leave (Some d)), ([PyDict [(ascii ''ok'', PyBool True)]], Stay (Some d))}"
    using line run by (auto simp: data_reply_def split: prod.splits sum.splits)
  show "\<exists>v. sl_verdict t d = Some v \<and> vd_intact v"
    if "snd answer = Stay (Some d)" "\<forall>why. \<not> refused E d msg s why"
  proof -
    have "run_state (on_data E d msg) s = (Inr (), t)"
      using line run that(1) by (auto split: prod.splits sum.splits)
    then show ?thesis using on_data_taken that(2) by blast
  qed
  fix why
  assume "refused E d msg s why"
  from on_data_refused [OF this] line run
  show "answer = ([PyDict [(ascii ''ok'', PyBool True)]], Stay (Some d))" "sl_buf t = sl_buf s"
    "sv_sessions t = sessions_after E d msg s why" "\<exists>v. sl_verdict t d = Some v \<and> \<not> vd_intact v"
    by (auto simp: data_reply_def)
qed

text \<open>
  A message without its fields in a live session, one in a session that has expired, and one that
  decrypts to something that is not JSON.
\<close>

theorem refused_data_answered_ok_witness:
  "let m = [(ascii ''type'', PyStr (ascii ''data''))]; E = ref_server [[1] \<mapsto> PyDict m];
     d = ref_data (unit_end (ascii ''C'')); F = ref_server [[1] \<mapsto> PyDict d];
     old = link_start\<lparr>sv_sessions := [edge_1 \<mapsto> \<lparr>ds_key = ref_session_key, ds_expires = - 1, ds_last_seq = 0\<rparr>]\<rparr>;
     ok = ([PyDict [(ascii ''ok'', PyBool True)]], Stay (Some edge_1)) in
   fst (run_state (handle_line E (Some edge_1) [1]) link_session) = ok \<and>
   fst (run_state (handle_line E (Some edge_1) [1]) old) = ok \<and>
   sv_sessions (snd (run_state (handle_line E (Some edge_1) [1]) old)) edge_1 = None \<and>
   fst (run_state (handle_line F (Some edge_1) [1]) link_session) = ok \<and>
   (\<exists>ss. sv_sessions (snd (run_state (handle_line F (Some edge_1) [1]) link_session)) edge_1 = Some ss \<and> 0 < ds_last_seq ss)"
proof -
  let ?m = "[(ascii ''type'', PyStr (ascii ''data''))]"
  let ?E = "ref_server [[1] \<mapsto> PyDict ?m]"
  let ?d = "ref_data (unit_end (ascii ''C''))"
  let ?F = "ref_server [[1] \<mapsto> PyDict ?d]"
  let ?s = "link_start\<lparr>sv_sessions := [edge_1 \<mapsto> \<lparr>ds_key = ref_session_key, ds_expires = - 1, ds_last_seq = 0\<rparr>]\<rparr>"
  have line: "data_line ?E [1] ?m" and data: "data_line ?F [1] ?d"
    by (simp_all add: data_line_def ref_data_def py_get_def)
  have name: "edge_1 \<noteq> []" by (simp add: edge_1_def ascii_def)
  note told = refused_data_answered_ok [OF _ name surjective_pairing, THEN conjunct2, THEN conjunct1, rule_format]
  have "refused ?E edge_1 ?m link_session BadMessage"
    by (simp add: link_session_def link_start_def lookup_time_def on_data_open_def py_item_def ascii_def)
  note bad = told [OF line this]
  have "refused ?E edge_1 ?m ?s Expired" by (simp add: lookup_time_def)
  note expired = told [OF line this]
  have u: "length (ascii ''C'') \<le> READING_UNIT_MAX" by simp
  have "on_data_open ?F (session_key (sess (unit_start (ascii ''C'')))) ?d =
      Inr (uint (send_seq (sess (unit_end (ascii ''C'')))), samples_json [(sint (21 :: u32), c_string (ascii ''C''))]) \<and>
    0 < uint (send_seq (sess (unit_end (ascii ''C''))))"
    using message_text [OF ref_laws ref_quiet common_ref ta_hist_inv [OF ref_laws unit_hist] unit_ready unit_run [OF u]
      u reading_is_sample ref_carries] by blast
  then obtain n where opens: "on_data_open ?F ref_session_key ?d = Inr (n, samples_json [(sint (21 :: u32), c_string (ascii ''C''))])"
    and n: "0 < n" by (auto simp: unit_sess session3_def)
  have "hd (samples_json [(sint (21 :: u32), c_string (ascii ''C''))]) \<noteq> 1"
    unfolding samples_json_def by (simp add: ascii_def)
  then have "samples_json [(sint (21 :: u32), c_string (ascii ''C''))] \<noteq> [1]" by auto
  then have "refused ?F edge_1 ?d link_session BadPlaintext"
    using opens n by (auto simp: decrypts_def lookup_time_def advance_time_def link_session_def link_start_def)
  note plain = told [OF data this]
  have "sv_sessions link_session edge_1 = Some \<lparr>ds_key = ref_session_key, ds_expires = 3600, ds_last_seq = 0\<rparr>"
    by (simp add: link_session_def)
  with bad expired plain opens n show ?thesis by (simp add: Let_def)
qed

section \<open>Parsing and types\<close>

text \<open>
  C35. What the Host wraps the verifier unwraps. The size the attestation report puts before a quote of the
  TPM, and the layouts of quote and signature, are those the server's parser reads: the body that was
  signed, its qualifying data, its PCR digest and the two numbers of the signature come back.
\<close>

theorem quote_round_trip:
  assumes "quote_wf q" "length r < 65536" "length s < 65536"
  shows "parse_tpms_attest (tpm2b (quote_body q)) =
      Inr \<lparr>raw_body = quote_body q, extra_data = q_extra q, pcr_digest = q_digest q\<rparr> \<and>
    parse_tpmt_signature_ecdsa (ecdsa_signature r s) = Inr (be_val r, be_val s)"
  using parse_quote [OF assms(1)] parse_signature [OF assms(2,3)] by simp

theorem quote_round_trip_witness:
  "\<exists>a. parse_tpms_attest (tpm2b (quote_body ref_quote)) = Inr a \<and> pcr_digest a = checksum [0, 255]"
  using quote_round_trip [OF ref_quote_wf, of "[]" "[]"] by (simp add: ref_quote_def)

text \<open>
  A quote whose size fits but whose body is too short to hold its magic number is not refused: the
  exception of the parser passes every handler, and the connection is dropped without an answer.
\<close>

theorem short_quote_drops_connection:
  assumes "sv_registry s d = Some rec" "sv_pending s d = Some p" "fst (v_time E (sv_w s)) - pc_issued p \<le> 30"
    and "response_fields msg = Inr r" "b64d E (rs_device_ecdh_pub r) = Inr pub" "length pub = 65"
    and "b64d E (rs_ta_sig r) = Inr sg" "length sg = 64" "b64d E (rs_signature r) = Inr q"
    and "b64d E (rs_quote r) = Inr (tpm2b body)" "length body < 4"
  shows "\<exists>t. run_state (on_response E d msg) s = (([], Leave (Some d)), t) \<and> sv_pending t d = None \<and> sv_sessions t = sv_sessions s"
  using unparsed_quote_leaves [OF assms(1-10) short_quote_raises [OF assms(11)]] .

text \<open>
  C40. The state of the server stays well typed, whatever lines arrive on a connection: session keys have 32 bytes,
  sequence numbers fit 32 bits, nonces and points have their sizes, and no buffer holds
  more than 100000 samples; the registry and the identity of the server are not changed.
\<close>

theorem server_state_well_typed:
  assumes "server_sizes E" "server_typed s" "run_state (handle_connection E dev lines) s = (replies, t)"
  shows "(\<forall>d ss. sv_sessions t d = Some ss \<longrightarrow> length (ds_key ss) = 32 \<and> 0 \<le> ds_last_seq ss \<and> ds_last_seq ss \<le> 0xFFFFFFFF) \<and>
    (\<forall>d p. sv_pending t d = Some p \<longrightarrow> length (pc_nonce p) = 32 \<and> length (pc_pub p) = 65) \<and>
    (\<forall>d. length (sl_buf t d) \<le> 100000) \<and> sv_registry t = sv_registry s \<and> sv_identity t = sv_identity s \<and> server_typed t"
proof -
  have "keeps_types s t" by (rule boundedD [OF types_connection [OF assms(1)] assms(3)])
  with assms(2) have t: "server_typed t" "sv_registry t = sv_registry s" "sv_identity t = sv_identity s"
    by (simp_all add: keeps_types_def)
  then show ?thesis
    unfolding server_typed_def session_typed_def challenge_typed_def by simp
qed

theorem server_state_well_typed_witness:
  "let E = ref_server [[1] \<mapsto> PyDict [(ascii ''type'', PyStr (ascii ''hello'')), (ascii ''device_id'', PyStr edge_1)]];
       t = snd (run_state (handle_connection E None [[1]]) link_start)
   in \<exists>p. sv_pending t edge_1 = Some p \<and> length (pc_nonce p) = 32 \<and> length (pc_pub p) = 65"
proof -
  let ?m = "[(ascii ''type'', PyStr (ascii ''hello'')), (ascii ''device_id'', PyStr edge_1)]"
  let ?E = "ref_server [[1] \<mapsto> PyDict ?m]"
  obtain rs t where run: "run_state (handle_connection ?E None [[1]]) link_start = (rs, t)" by (metis prod.exhaust)
  have typed: "server_typed link_start" by (simp add: server_typed_def link_start_def)
  have hello: "py_get ?m ''type'' PyNone = PyStr (ascii ''hello'')" "py_get ?m ''device_id'' PyNone = PyStr edge_1"
    by (simp_all add: py_get_def ascii_def)
  have "sv_registry link_start edge_1 \<noteq> None" "edge_1 \<noteq> []" by (simp_all add: link_start_def edge_1_def ascii_def)
  from hello_replaces_challenge [OF this hello(2), of ?E] obtain p ch u
    where u: "run_state (on_hello ?E ?m) link_start = (([PyDict ch], Stay (Some edge_1)), u)" "sv_pending u edge_1 = Some p"
    by fastforce
  have "run_state (handle_line ?E None [1]) link_start = (([PyDict ch], Stay (Some edge_1)), u)"
    using u hello(1) by (simp add: handle_line_def Let_def)
  with run u(2) have "\<exists>p. sv_pending t edge_1 = Some p"
    by (auto simp: on_close_def set_verdict_def split: if_splits)
  with server_state_well_typed [OF ref_server_sizes typed run] run show ?thesis by auto
qed

text \<open>
  C36. A session cannot be renewed over a connection that carried data. The Host never reads the answers to
  its data messages, so they wait in its socket, and stay there while rounds go on within the session.
  The first round after its expiry takes the oldest of them for the challenge: it fails,
  the connection is dropped and nothing is pushed, whatever the server would have said.
\<close>

theorem stale_answer_breaks_renewal:
  assumes "stream_kept H q" "answer_waits H q s" "g_conn_open s" "run_state (push_iter H n) s = (pc, t)"
  shows "if session_over H s then pc = Pushing n \<and> \<not> g_conn_open t \<and> \<not> g_attested t
    else answer_waits H q t \<or> \<not> g_conn_open t"
  using round_over_answered_connection [OF assms(1,2,3) _ assms(4)] round_within_session [OF assms(1,2) _ assms(4)]
  by (cases "session_over H s") simp_all

theorem stale_answer_breaks_renewal_witness:
  "\<exists>t. run_state (push_iter answered_host 3) answered_edge = (Pushing 3, t) \<and> \<not> g_conn_open t"
proof -
  obtain pc t where run: "run_state (push_iter answered_host 3) answered_edge = (pc, t)" by (metis prod.exhaust)
  from stale_answer_breaks_renewal [OF answered_stream answered_waits answered_over(1) run] answered_over(2) run show ?thesis
    by simp
qed

end
