(* ===== verification/Attacks.thy ===== *)
theory Attacks
  imports Runs
begin

text \<open>
  Three lawful surroundings in which the code does less than its comments say: another session
  of the TA seals a server key during the first handshake, the Host rewrites the nonce of a
  message while it is encrypted, which it can on any platform, and the Host rewrites the server's
  point between its verification and its use. The runs are computed here; the root states what
  they show.
\<close>

section \<open>A second session pins first\<close>

definition rival_point :: bytes where
  "rival_point = 0x04 # fit 32 [8] @ fit 32 []"

definition rival :: "tee_call \<Rightarrow> (string \<rightharpoonup> bytes) \<Rightarrow> (string \<rightharpoonup> bytes)" where
  "rival c st = (if c = AsymmetricVerifyDigest \<and> st SERVER_PUBKEY_OBJID = None
     then st(SERVER_PUBKEY_OBJID \<mapsto> rival_point) else st)"

lemma rival_other [simp]: "c \<noteq> AsymmetricVerifyDigest \<Longrightarrow> rival c = (\<lambda>st. st)"
  by (simp add: rival_def fun_eq_iff)

definition race_platform :: "store_state platform" where
  "race_platform = ref_with (\<lambda>m. m) rival"

lemma race_laws: "platform_laws store race_platform"
  unfolding race_platform_def by (rule ref_with_laws) (auto simp: rival_def map_le_def dom_def)

lemma race_quiet: "quiet_host race_platform"
  by (simp add: quiet_host_def race_platform_def)

definition race_end :: "store_state ta_state" where
  "race_end = snd (run_state (ta_handshake_complete race_platform handshake_types) handshake_start)"

lemma race_run:
  "run_state (ta_handshake_complete race_platform handshake_types) handshake_start = (Ret TEE_SUCCESS, race_end)"
  "session_key_valid (sess race_end)" "store (ext race_end) SERVER_PUBKEY_OBJID = Some rival_point"
  by (simp_all add: race_end_def prod_eq_iff race_platform_def handshake_start_def handshake_types_def
    ta_handshake_complete_def ref_state_def zero_session_def session1_def session2_def
    authenticate_server_def find_and_verify_def verify_server_def pin_server_def verify_digest_def verify_out_def
    derive_shared_def derive_session_key_def handshake_out_def ref_key_def server_point_def ref_nonce_def server_sig_def
    server_identity_preimage_def device_point_def base_store_def splice_def meanwhile_def
    rival_def [of AsymmetricVerifyDigest])

lemma fit_byte_eq [simp]: "fit 32 [a] = fit 32 [b] \<longleftrightarrow> a = b"
  by (simp add: fit_def lpad_def)

lemma race_rejects: "\<not> p_verify race_platform (take 32 (drop 1 rival_point)) (drop 33 rival_point) digest server_sig"
  by (simp add: race_platform_def rival_point_def server_sig_def)

section \<open>The Host chooses the nonce\<close>

definition force_nonce :: "bytes \<Rightarrow> bytes list \<Rightarrow> bytes list" where
  "force_nonce iv m = (if m \<noteq> [] \<and> length iv \<le> length (m ! 0) then m[0 := splice 0 iv (m ! 0)] else m)"

definition with_host :: "'e platform \<Rightarrow> (bytes list \<Rightarrow> bytes list) \<Rightarrow> 'e platform" where
  "with_host P H = P\<lparr>p_host := \<lambda>m e. (H m, e)\<rparr>"

lemma with_host_laws:
  assumes "platform_laws V P" and "\<And>m. map length (H m) = map length m"
  shows "platform_laws V (with_host P H)"
  using assms
  unfolding platform_laws_def storage_laws_def seals_def host_keeps_sizes_def crypto_sizes_def with_host_def
  by simp

lemma force_nonce_sizes: "map length (force_nonce iv m) = map length m"
  by (cases m) (simp_all add: force_nonce_def)

lemma forced_nonce:
  assumes laws: "platform_laws V P" and iv: "length iv = 12" and n: "length (shm s) = 4"
    and used: "nonce_of (with_host P (force_nonce iv)) s iv'"
  shows "iv' = iv"
proof -
  obtain m e where m: "map length m = map length (shm s)" "take 12 (m ! 0) = fst (p_random P 12 e)"
    "iv' = take 12 (force_nonce iv m ! 0)"
    using used by (auto simp: nonce_of_def with_host_def)
  have "length (take 12 (m ! 0)) = 12"
    using platform_laws_D(4) [OF laws] m(2) by (simp add: crypto_sizes_def)
  then have "12 \<le> length (m ! 0)" by (simp add: min_def split: if_splits)
  moreover have "m \<noteq> []" using m(1) n by auto
  ultimately show ?thesis
    using iv m(3) take_splice_0 [of iv "m ! 0"] by (simp add: force_nonce_def)
qed

definition nonce_platform :: "bytes \<Rightarrow> store_state platform" where
  "nonce_platform iv = with_host ref_platform (force_nonce iv)"

lemma nonce_platform_ref: "nonce_platform iv = ref_with (force_nonce iv) (\<lambda>c st. st)"
  by (simp add: nonce_platform_def with_host_def ref_platform_def ref_full_def)

definition nonce_end :: "bytes \<Rightarrow> store_state ta_state" where
  "nonce_end iv = snd (run_state (ta_read_and_protect (nonce_platform iv) protect_types) (protect_start session3))"

lemma force_nonce_cons [simp]:
  "length iv \<le> length a \<Longrightarrow> force_nonce iv (a # m) = splice 0 iv a # m"
  by (simp add: force_nonce_def)

definition nonce_text :: bytes where
  "nonce_text = reading_json 21 (ascii ''C'')"

definition nonce_cipher :: bytes where
  "nonce_cipher = xor_key (session_key session3) nonce_text"

lemma length_nonce_cipher [simp]: "length nonce_cipher = length nonce_text"
  by (simp add: nonce_cipher_def xor_key_def)

lemma length_nonce_text: "length nonce_text \<le> 77"
  using length_reading_json [of "ascii ''C''" 21] by (simp add: nonce_text_def)

lemma nonce_run:
  assumes iv: "length iv = 12"
  shows "run_state (ta_read_and_protect (nonce_platform iv) protect_types) (protect_start session3) =
      (TEE_SUCCESS, nonce_end iv)"
    and "shm (nonce_end iv) =
      [iv, splice (length nonce_text) (fit 16 (iv @ seq_aad 1)) (splice 0 nonce_cipher (zeros 512)), [], []]"
    and "take (reading_len (sess (nonce_end iv))) (reading (sess (nonce_end iv))) = nonce_text"
proof -
  have u: "length (ascii ''C'') \<le> 255" by simp
  note f = reading_payload_fields [OF u, of 21]
  have at: "take 4 (splice 0 (reading_payload 21 (ascii ''C'')) (zeros 256)) = be32 21"
    "splice 0 (reading_payload 21 (ascii ''C'')) (zeros 256) ! 4 = 1"
    "sub 5 1 (splice 0 (reading_payload 21 (ascii ''C'')) (zeros 256)) = ascii ''C''"
    by (simp_all add: splice_def reading_payload_def nth_append sub_def)
  have v: "from_be32 (be32 21) = 21"
    using from_be32_be32 [of 21 "[]"] by simp
  have w: "take (length nonce_text) (splice 0 (nonce_text @ [0]) r) = nonce_text" for r
    by (simp add: splice_def)
  show "run_state (ta_read_and_protect (nonce_platform iv) protect_types) (protect_start session3) =
      (TEE_SUCCESS, nonce_end iv)"
    "shm (nonce_end iv) =
      [iv, splice (length nonce_text) (fit 16 (iv @ seq_aad 1)) (splice 0 nonce_cipher (zeros 512)), [], []]"
    "take (reading_len (sess (nonce_end iv))) (reading (sess (nonce_end iv))) = nonce_text"
    using length_nonce_text iv session3_fields
    by (simp_all add: nonce_end_def prod_eq_iff nonce_platform_ref protect_start_def protect_types_def
      ta_read_and_protect_def ref_state_def read_sensor_reading_def open_sensor_pta_def invoke_sensor_pta_def
      invoke_command_def sensor_link_read_def at at [unfolded One_nat_def] f v Let_def store_out_def set_out_size_def reading_frame_def
      format_reading_def encrypt_reading_def emit_message_def protect_out_def nonce_text_def [symmetric]
      nonce_cipher_def [symmetric] w)
qed

section \<open>The Host swaps the point\<close>

text \<open>
  Buffer 3 counts the accesses until the signature is read, shows the signature then, and
  from there on buffer 0 holds the point of the Host's choice.
\<close>

definition evil_point :: bytes where
  "evil_point = 0x04 # fit 32 [9] @ fit 32 []"

definition swap_point :: "bytes list \<Rightarrow> bytes list" where
  "swap_point m =
     (if map length m \<noteq> [65, 32, 65, 64] then m
      else if last (m ! 3) = 6 then m[0 := evil_point]
      else if last (m ! 3) = 5 then m[3 := server_sig]
      else m[3 := replicate 64 (last (m ! 3) + 1)])"

text \<open>
  On this platform the server has signed one transcript only, over its own point: every other
  message has another digest, and no signature verifies but the server's over that digest.
\<close>

definition transcript :: bytes where
  "transcript = server_identity_preimage ref_nonce server_point (device_point ref_key)"

definition swap_digest :: "bytes \<Rightarrow> bytes" where
  "swap_digest m = replicate 32 (if m = transcript then 1 else 0)"

definition swap_verify :: "bytes \<Rightarrow> bytes \<Rightarrow> bytes \<Rightarrow> bytes \<Rightarrow> bool" where
  "swap_verify x y d sig \<longleftrightarrow> d = replicate 32 1 \<and> sig = server_sig \<and> x = fit 32 [6]"

definition swap_platform :: "store_state platform" where
  "swap_platform = ref_full swap_digest swap_verify swap_point (\<lambda>c st. st)"

lemma swap_laws: "platform_laws store swap_platform"
  unfolding swap_platform_def
proof (rule ref_full_laws)
  fix m :: "bytes list"
  show "map length (swap_point m) = map length m"
    by (auto simp: swap_point_def evil_point_def server_sig_def map_update)
qed (simp_all add: swap_digest_def)

definition swap_start :: "store_state ta_state" where
  "swap_start = ref_state base_store [] [server_point, ref_nonce, server_point, zeros 64] session2"

definition swap_end :: "store_state ta_state" where
  "swap_end = snd (run_state (ta_handshake_complete swap_platform handshake_types) swap_start)"

lemma swap_counting [simp]:
  assumes "length a = 65" "length b = 32" "length c = 65"
  shows "n < 5 \<Longrightarrow> swap_point [a, b, c, replicate 64 n] = [a, b, c, replicate 64 (n + 1)]"
    and "swap_point [a, b, c, replicate 64 5] = [a, b, c, server_sig]"
    and "swap_point [a, b, c, server_sig] = [evil_point, b, c, server_sig]"
  using assms by (auto simp: swap_point_def server_sig_def fit_def lpad_def)

lemma shapes [simp]:
  "length server_point = 65" "length evil_point = 65" "length server_sig = 64" "length ref_nonce = 32"
  "take 1 server_point = [4]" "take (Suc 0) server_point = [4]" "take 32 (drop 1 server_point) = fit 32 [6]"
  "take 32 (drop (Suc 0) server_point) = fit 32 [6]"
  "take 32 (drop 1 evil_point) = fit 32 [9]"
  "take 32 (drop (Suc 0) evil_point) = fit 32 [9]"
  by (simp_all add: server_point_def evil_point_def server_sig_def ref_nonce_def)

lemma swap_accepts [simp]:
  "swap_verify (fit 32 [6]) y (swap_digest (SERVER_IDENTITY_LABEL @ ref_nonce @ server_point @ 4 # fit 32 [1] @ fit 32 []))
     server_sig"
  by (simp add: swap_verify_def swap_digest_def transcript_def server_identity_preimage_def device_point_def ref_key_def)

text \<open>What was ever signed is one message: no other verifies under any key or signature.\<close>

definition signed_only :: "'e platform \<Rightarrow> bytes \<Rightarrow> bool" where
  "signed_only P m \<longleftrightarrow> (\<forall>m' x y sig. p_verify P x y (p_sha256 P m') sig \<longrightarrow> m' = m)"

lemma swap_signed_once:
  "signed_only swap_platform (server_identity_preimage ref_nonce server_point (device_point ref_key))"
  by (auto simp: signed_only_def swap_platform_def swap_verify_def swap_digest_def transcript_def split: if_splits)

lemma swap_run:
  "run_state (ta_handshake_complete swap_platform handshake_types) swap_start = (Ret TEE_SUCCESS, swap_end)"
  "session_key_valid (sess swap_end)"
  "session_key (sess swap_end) = p_hkdf swap_platform (xor_key (fit 32 [1]) (fit 32 [9])) ref_nonce HKDF_INFO 32"
  by (simp_all add: swap_end_def prod_eq_iff swap_platform_def swap_start_def handshake_types_def
    ta_handshake_complete_def ref_state_def zero_session_def session1_def session2_def
    authenticate_server_def find_and_verify_def verify_server_def pin_server_def verify_digest_def verify_out_def
    derive_shared_def derive_session_key_def handshake_out_def ref_key_def base_store_def)

lemma swap_secrets:
  "p_ecdh swap_platform (ec_d ref_key) (take 32 (drop 1 evil_point)) (drop 33 evil_point) = Some (xor_key (fit 32 [1]) (fit 32 [9]))"
  "p_ecdh swap_platform (ec_d ref_key) (take 32 (drop 1 server_point)) (drop 33 server_point) =
     Some (xor_key (fit 32 [1]) (fit 32 [6]))"
  by (simp_all add: swap_platform_def ref_key_def)

text \<open>The key of the run is not one that the signed point gives, whatever the salt.\<close>

lemma swap_other_key:
  "session_key (sess swap_end) \<noteq> p_hkdf swap_platform (xor_key (fit 32 [1]) (fit 32 [6])) n HKDF_INFO 32"
proof -
  have "xor_key (fit 32 [1]) (fit 32 [9]) \<noteq> xor_key (fit 32 [1]) (fit 32 [6])"
    by (simp add: xor_key_def fit_def lpad_def)
  then show ?thesis
    by (simp add: swap_run) (simp add: swap_platform_def fit_def lpad_def)
qed

section \<open>The runs start in well-formed states\<close>

lemma attack_starts:
  "ta_inv store handshake_start" "ta_inv store (protect_start session3)" "ta_inv store swap_start"
  "cmd_ready swap_start"
proof -
  show "ta_inv store handshake_start" by (rule ta_hist_inv [OF ref_laws ref_handshake_hist])
  show "ta_inv store (protect_start session3)" by (rule ta_hist_inv [OF ref_laws ref_protect_hist])
  have "ta_hist store ref_platform swap_start 0 []"
    using ref_rebase [OF ref_handshake_hist, of base_store "[server_point, ref_nonce, server_point, zeros 64]" "[]"]
    by (simp add: handshake_start_def swap_start_def)
  then show "ta_inv store swap_start" by (rule ta_hist_inv [OF ref_laws])
  show "cmd_ready swap_start" by (simp add: swap_start_def ref_ready)
qed

end
