(* ===== verification/SensorDaemon.thy ===== *)
theory SensorDaemon
  imports Link
begin

text \<open>
  The Sensor Module process (sensor_module/sensor_daemon.c): exact-length socket I/O,
  the CHALLENGE and SECRET_REQUEST handlers with the one-shot latch, the periodic
  READING push, and the accept loop. The socket, the clock and OpenSSL's HMAC are the
  record \<open>host_os\<close>, over an opaque state \<open>'d\<close>.
\<close>

section \<open>The operating system the daemon runs on\<close>

datatype select_result = SelectEINTR | SelectError | SelectTimeout | SelectReadable
datatype accept_result = AcceptEINTR | AcceptError | Accepted

record 'd host_os =
  os_read :: "nat \<Rightarrow> 'd \<Rightarrow> bytes option \<times> 'd"
  os_write :: "bytes \<Rightarrow> 'd \<Rightarrow> nat option \<times> 'd"
  os_select :: "'d \<Rightarrow> select_result \<times> 'd"
  os_time :: "'d \<Rightarrow> int \<times> 'd"
  os_accept :: "'d \<Rightarrow> accept_result \<times> 'd"
  os_close :: "'d \<Rightarrow> 'd"
  os_hmac :: "bytes \<Rightarrow> bytes \<Rightarrow> bytes option"

section \<open>State\<close>

text \<open>
  \<open>g_secret\<close>, \<open>g_secret_served\<close> and \<open>g_secret_window_closed\<close> are the process globals.
  \<open>conns\<close> counts the connections accepted so far and \<open>frames\<close> records every call of
  \<open>write_frame\<close> with the connection it was made on; no code reads these two.
\<close>

record 'd daemon =
  dext :: 'd
  g_secret :: bytes
  g_secret_served :: bool
  g_secret_window_closed :: bool
  conns :: nat
  frames :: "(nat \<times> u8 \<times> bytes) list"

definition os_op :: "('d \<Rightarrow> 'a \<times> 'd) \<Rightarrow> ('d daemon, 'a) state" where
  "os_op f = State (\<lambda>s. case f (dext s) of (a, d) \<Rightarrow> (a, s\<lparr>dext := d\<rparr>))"

definition load_secret :: "bytes option \<Rightarrow> ('d daemon, int) state" where
  "load_secret file =
     (case file of
        None \<Rightarrow> State_Monad.return (- 1)
      | Some content \<Rightarrow> do {
          modify (\<lambda>s. s\<lparr>g_secret := splice 0 (take LINK_SECRET_SIZE content) (g_secret s)\<rparr>);
          if length (take LINK_SECRET_SIZE content) \<noteq> LINK_SECRET_SIZE then State_Monad.return (- 1)
          else State_Monad.return 0 })"

section \<open>Socket I/O\<close>

text \<open>\<open>read\<close> returns at most \<open>len - got\<close> bytes; nothing or an error ends the transfer.\<close>

function read_full :: "'d host_os \<Rightarrow> nat \<Rightarrow> bytes \<Rightarrow> ('d daemon, bytes option) state" where
  "read_full H len got =
     (if length got < len then do {
        r \<leftarrow> os_op (os_read H (len - length got));
        case r of
          None \<Rightarrow> State_Monad.return None
        | Some bs \<Rightarrow>
            if take (len - length got) bs = [] then State_Monad.return None
            else read_full H len (got @ take (len - length got) bs) }
      else State_Monad.return (Some got))"
  by pat_completeness auto
termination
  by (relation "measure (\<lambda>(H, len, got). len - length got)") (auto simp: min_def neq_Nil_conv)

declare read_full.simps [simp del]

function write_full :: "'d host_os \<Rightarrow> bytes \<Rightarrow> ('d daemon, int) state" where
  "write_full H buf =
     (if buf \<noteq> [] then do {
        r \<leftarrow> os_op (os_write H buf);
        case r of
          None \<Rightarrow> State_Monad.return (- 1)
        | Some n \<Rightarrow>
            if n = 0 then State_Monad.return (- 1)
            else write_full H (drop n buf) }
      else State_Monad.return 0)"
  by pat_completeness auto
termination
  by (relation "measure (\<lambda>(H, buf). length buf)") auto

declare write_full.simps [simp del]

definition daemon_write_frame :: "'d host_os \<Rightarrow> u8 \<Rightarrow> bytes \<Rightarrow> ('d daemon, int) state" where
  "daemon_write_frame H ty payload = do {
     modify (\<lambda>s. s\<lparr>frames := frames s @ [(conns s, ty, payload)]\<rparr>);
     rc \<leftarrow> write_full H (frame_header ty (of_nat (length payload)));
     if rc \<noteq> 0 then State_Monad.return (- 1)
     else if length payload \<noteq> 0 then do {
       rc \<leftarrow> write_full H payload;
       if rc \<noteq> 0 then State_Monad.return (- 1) else State_Monad.return 0 }
     else State_Monad.return 0 }"

section \<open>Handlers\<close>

definition handle_challenge :: "'d host_os \<Rightarrow> u16 \<Rightarrow> ('d daemon, int) state" where
  "handle_challenge H len =
     (if unat len \<noteq> CHALLENGE_SIZE then State_Monad.return (- 1)
      else do {
        r \<leftarrow> read_full H CHALLENGE_SIZE [];
        case r of
          None \<Rightarrow> State_Monad.return (- 1)
        | Some challenge \<Rightarrow> do {
            secret \<leftarrow> gets g_secret;
            case os_hmac H secret challenge of
              None \<Rightarrow> State_Monad.return (- 1)
            | Some response \<Rightarrow>
                if length response \<noteq> HMAC_SIZE then State_Monad.return (- 1)
                else do {
                  rc \<leftarrow> daemon_write_frame H FRAME_CHALLENGE_RESPONSE response;
                  if rc \<noteq> 0 then State_Monad.return (- 1) else State_Monad.return 0 } } })"

definition handle_secret_request :: "'d host_os \<Rightarrow> u16 \<Rightarrow> bool \<Rightarrow> ('d daemon, int) state" where
  "handle_secret_request H len authenticated =
     (if len \<noteq> 0 then State_Monad.return (- 1)
      else do {
        served \<leftarrow> gets g_secret_served;
        closed \<leftarrow> gets g_secret_window_closed;
        if served \<or> closed \<or> authenticated then daemon_write_frame H FRAME_SECRET []
        else do {
          secret \<leftarrow> gets g_secret;
          rc \<leftarrow> daemon_write_frame H FRAME_SECRET secret;
          if rc \<noteq> 0 then State_Monad.return (- 1)
          else do {
            modify (\<lambda>s. s\<lparr>g_secret_served := True\<rparr>);
            State_Monad.return 0 } } })"

definition reading_value :: "u32 \<Rightarrow> u32" where
  "reading_value tick = 20 + tick mod 10"

definition send_reading :: "'d host_os \<Rightarrow> u32 \<Rightarrow> ('d daemon, int) state" where
  "send_reading H tick =
     daemon_write_frame H FRAME_READING (reading_payload (reading_value tick) (ascii ''C''))"

section \<open>The service loop\<close>

definition READING_INTERVAL_SEC :: int where [simp]: "READING_INTERVAL_SEC = 2"

text \<open>The locals of \<open>serve\<close>.\<close>

record serve_locals =
  tick :: u32
  last_reading :: int
  authenticated :: bool

datatype loop_result = Continue serve_locals | Break

text \<open>The part of an iteration after the incoming frame, if any, has been handled.\<close>

definition serve_tail :: "'d host_os \<Rightarrow> serve_locals \<Rightarrow> ('d daemon, loop_result) state" where
  "serve_tail H l =
     (if \<not> authenticated l then State_Monad.return (Continue l)
      else do {
        now \<leftarrow> os_op (os_time H);
        if now - last_reading l \<ge> READING_INTERVAL_SEC then do {
          rc \<leftarrow> send_reading H (tick l);
          if rc \<noteq> 0 then State_Monad.return Break
          else State_Monad.return (Continue (l\<lparr>tick := tick l + 1, last_reading := now\<rparr>)) }
        else State_Monad.return (Continue l) })"

definition serve_frame :: "'d host_os \<Rightarrow> serve_locals \<Rightarrow> bytes \<Rightarrow> ('d daemon, loop_result) state" where
  "serve_frame H l hdr = (let len = frame_length hdr in
     if hdr ! 0 = FRAME_CHALLENGE then do {
       rc \<leftarrow> handle_challenge H len;
       if rc \<noteq> 0 then State_Monad.return Break
       else if \<not> authenticated l then do {
         now \<leftarrow> os_op (os_time H);
         serve_tail H (l\<lparr>authenticated := True, last_reading := now\<rparr>) }
       else serve_tail H l }
     else if hdr ! 0 = FRAME_SECRET_REQUEST then do {
       rc \<leftarrow> handle_secret_request H len (authenticated l);
       if rc \<noteq> 0 then State_Monad.return Break else serve_tail H l }
     else State_Monad.return Break)"

definition serve_iter :: "'d host_os \<Rightarrow> serve_locals \<Rightarrow> ('d daemon, loop_result) state" where
  "serve_iter H l = do {
     rc \<leftarrow> os_op (os_select H);
     case rc of
       SelectEINTR \<Rightarrow> State_Monad.return (Continue l)
     | SelectError \<Rightarrow> State_Monad.return Break
     | SelectTimeout \<Rightarrow> serve_tail H l
     | SelectReadable \<Rightarrow> do {
         r \<leftarrow> read_full H FRAME_HDR_SIZE [];
         case r of
           None \<Rightarrow> State_Monad.return Break
         | Some hdr \<Rightarrow> serve_frame H l hdr } }"

text \<open>
  Control points of the process: waiting in \<open>accept\<close>, at the head of the loop of
  \<open>serve\<close>, or gone. One step is one \<open>accept\<close> or one iteration; leaving the loop
  closes the connection and shuts the secret window.
\<close>

datatype daemon_pc = Accepting | Serving serve_locals | Exited

definition serve_start :: serve_locals where
  "serve_start = \<lparr>tick = 0, last_reading = 0, authenticated = False\<rparr>"

definition end_connection :: "'d host_os \<Rightarrow> ('d daemon, daemon_pc) state" where
  "end_connection H = do {
     os_op (\<lambda>d. ((), os_close H d));
     modify (\<lambda>s. s\<lparr>g_secret_window_closed := True\<rparr>);
     State_Monad.return Accepting }"

fun daemon_step :: "'d host_os \<Rightarrow> daemon_pc \<Rightarrow> ('d daemon, daemon_pc) state" where
  "daemon_step H Accepting = do {
     r \<leftarrow> os_op (os_accept H);
     case r of
       AcceptEINTR \<Rightarrow> State_Monad.return Accepting
     | AcceptError \<Rightarrow> do {
         os_op (\<lambda>d. ((), os_close H d));
         State_Monad.return Exited }
     | Accepted \<Rightarrow> do {
         modify (\<lambda>s. s\<lparr>conns := Suc (conns s)\<rparr>);
         State_Monad.return (Serving serve_start) } }"
| "daemon_step H (Serving l) = do {
     r \<leftarrow> serve_iter H l;
     case r of
       Continue l' \<Rightarrow> State_Monad.return (Serving l')
     | Break \<Rightarrow> end_connection H }"
| "daemon_step H Exited = State_Monad.return Exited"

text \<open>The process after \<open>load_secret\<close> and \<open>listen_on\<close> have succeeded.\<close>

definition daemon_start :: "'d \<Rightarrow> bytes \<Rightarrow> 'd daemon" where
  "daemon_start d secret =
     \<lparr>dext = d, g_secret = secret, g_secret_served = False, g_secret_window_closed = False,
      conns = 0, frames = []\<rparr>"

inductive daemon_reach :: "'d host_os \<Rightarrow> bytes \<Rightarrow> daemon_pc \<Rightarrow> 'd daemon \<Rightarrow> bool"
  for H :: "'d host_os" and k :: bytes where
  start: "daemon_reach H k Accepting (daemon_start d k)"
| step: "daemon_reach H k pc s \<Longrightarrow> run_state (daemon_step H pc) s = (pc', s') \<Longrightarrow>
     daemon_reach H k pc' s'"

section \<open>What one call does\<close>

text \<open>Plain I/O changes nothing but the external state.\<close>

definition io_only :: "'d daemon \<Rightarrow> 'd daemon \<Rightarrow> bool" where
  "io_only s t \<longleftrightarrow> t = s\<lparr>dext := dext t\<rparr>"

interpretation io: effect_order io_only
proof
  fix s t u :: "'d daemon"
  show "io_only s s" by (simp add: io_only_def)
  show "io_only s t \<Longrightarrow> io_only t u \<Longrightarrow> io_only s u"
    by (cases s; cases t; cases u) (simp add: io_only_def)
qed

lemma run_os_op [simp]:
  "run_state (os_op f) s = (fst (f (dext s)), s\<lparr>dext := snd (f (dext s))\<rparr>)"
  by (simp add: os_op_def case_prod_beta)

lemma io_only_os_op: "bounded io_only (os_op f)"
  by (simp add: bounded_def io_only_def)

lemma read_full_io: "bounded io_only (read_full H len got)"
proof (induction H len got rule: read_full.induct)
  case (1 H len got)
  show ?case
    unfolding read_full.simps [of H len got]
    by (intro io.bounded_rules io_only_os_op "1.IH"; assumption)
qed

lemma read_full_length:
  "run_state (read_full H len got) s = (Some bs, t) \<Longrightarrow> length got \<le> len \<Longrightarrow> length bs = len"
proof (induction H len got arbitrary: s rule: read_full.induct)
  case (1 H len got)
  show ?case
  proof (cases "length got < len")
    case False
    with "1.prems" show ?thesis by (auto simp: read_full.simps [of H len got])
  next
    case len: True
    obtain r d where op: "os_read H (len - length got) (dext s) = (r, d)"
      by (metis prod.exhaust)
    from "1.prems"(1) len op obtain xs where r: "r = Some xs" and ne: "take (len - length got) xs \<noteq> []"
      and run: "run_state (read_full H len (got @ take (len - length got) xs)) (s\<lparr>dext := d\<rparr>) = (Some bs, t)"
      by (auto simp: read_full.simps [of H len got] simp del: take_eq_Nil split: option.splits if_splits)
    show ?thesis
      by (rule "1.IH" [OF len ne run]) (use len in simp)
  qed
qed

lemma write_full_io: "bounded io_only (write_full H buf)"
proof (induction H buf rule: write_full.induct)
  case (1 H buf)
  show ?case
    unfolding write_full.simps [of H buf]
    by (intro io.bounded_rules io_only_os_op "1.IH"; assumption)
qed

text \<open>A frame is recorded once, whether or not the socket accepts all of it.\<close>

lemma daemon_write_frame_run:
  assumes "run_state (daemon_write_frame H ty p) s = (rc, t)"
  shows "t = s\<lparr>frames := frames s @ [(conns s, ty, p)], dext := dext t\<rparr>"
proof -
  let ?s0 = "s\<lparr>frames := frames s @ [(conns s, ty, p)]\<rparr>"
  let ?body = "do {
     rc \<leftarrow> write_full H (frame_header ty (of_nat (length p)));
     if rc \<noteq> 0 then State_Monad.return (- 1)
     else if length p \<noteq> 0 then do {
       rc \<leftarrow> write_full H p;
       if rc \<noteq> 0 then State_Monad.return (- 1) else State_Monad.return 0 }
     else State_Monad.return (0::int) }"
  have "bounded io_only ?body"
    by (intro io.bounded_rules write_full_io)
  moreover have "run_state ?body ?s0 = (rc, t)"
    using assms by (simp add: daemon_write_frame_def)
  ultimately have "io_only ?s0 t" by (rule boundedD)
  then show ?thesis by (simp add: io_only_def)
qed

text \<open>A challenge that is answered is answered with the HMAC of the burned-in secret.\<close>

lemma handle_challenge_run:
  assumes "run_state (handle_challenge H len) s = (rc, t)"
  shows "(\<exists>d. t = s\<lparr>dext := d\<rparr> \<and> rc \<noteq> 0) \<or>
    (\<exists>c r d. length c = CHALLENGE_SIZE \<and> os_hmac H (g_secret s) c = Some r \<and> length r = HMAC_SIZE \<and>
       t = s\<lparr>frames := frames s @ [(conns s, FRAME_CHALLENGE_RESPONSE, r)], dext := d\<rparr>)"
proof (cases "unat len = CHALLENGE_SIZE")
  case False
  with assms have "t = s\<lparr>dext := dext s\<rparr>" "rc \<noteq> 0" by (auto simp: handle_challenge_def)
  then show ?thesis by blast
next
  case True
  obtain r1 s1 where 1: "run_state (read_full H CHALLENGE_SIZE []) s = (r1, s1)"
    by (metis prod.exhaust)
  have io: "s1 = s\<lparr>dext := dext s1\<rparr>"
    using boundedD [OF read_full_io 1] by (simp add: io_only_def)
  show ?thesis
  proof (cases "\<exists>c r. r1 = Some c \<and> os_hmac H (g_secret s1) c = Some r \<and> length r = HMAC_SIZE")
    case False
    with assms True 1 have "t = s1" "rc \<noteq> 0"
      by (auto simp: handle_challenge_def split: option.splits if_splits)
    with io show ?thesis by blast
  next
    case hm: True
    then obtain c r where c: "r1 = Some c" "os_hmac H (g_secret s1) c = Some r" "length r = HMAC_SIZE"
      by blast
    with assms True 1 obtain rc' where
      2: "run_state (daemon_write_frame H FRAME_CHALLENGE_RESPONSE r) s1 = (rc', t)"
      by (auto simp: handle_challenge_def split: prod.splits if_splits)
    have "length c = CHALLENGE_SIZE"
      using read_full_length [of H CHALLENGE_SIZE "[]" s c s1] 1 c(1) by simp
    moreover have "g_secret s1 = g_secret s" "frames s1 = frames s" "conns s1 = conns s"
      using arg_cong [OF io, of g_secret] arg_cong [OF io, of frames] arg_cong [OF io, of conns] by simp_all
    moreover have "t = s\<lparr>frames := frames s @ [(conns s, FRAME_CHALLENGE_RESPONSE, r)], dext := dext t\<rparr>"
      using daemon_write_frame_run [OF 2] io by (metis (no_types, lifting) daemon.surjective
        daemon.update_convs(1,6) calculation(3,4))
    ultimately show ?thesis using c by metis
  qed
qed

lemma handle_challenge_simps:
  assumes "run_state (handle_challenge H len) s = (rc, t)"
  shows "conns t = conns s \<and> g_secret t = g_secret s \<and> g_secret_served t = g_secret_served s \<and>
    g_secret_window_closed t = g_secret_window_closed s \<and>
    (frames t = frames s \<and> rc \<noteq> 0 \<or> (\<exists>r. frames t = frames s @ [(conns s, FRAME_CHALLENGE_RESPONSE, r)]))"
  using handle_challenge_run [OF assms] by (elim disjE exE conjE) simp_all

lemma daemon_write_frame_simps:
  assumes "run_state (daemon_write_frame H ty p) s = (rc, t)"
  shows "frames t = frames s @ [(conns s, ty, p)]" "conns t = conns s" "g_secret t = g_secret s"
    "g_secret_served t = g_secret_served s" "g_secret_window_closed t = g_secret_window_closed s"
  by (subst daemon_write_frame_run [OF assms], simp)+

lemma handle_secret_request_run:
  assumes "run_state (handle_secret_request H len auth) s = (rc, t)"
  shows "conns t = conns s \<and> g_secret t = g_secret s \<and> g_secret_window_closed t = g_secret_window_closed s \<and>
    (rc \<noteq> 0 \<and> frames t = frames s \<and> g_secret_served t = g_secret_served s \<or>
     (g_secret_served s \<or> g_secret_window_closed s \<or> auth) \<and>
       frames t = frames s @ [(conns s, FRAME_SECRET, [])] \<and> g_secret_served t = g_secret_served s \<or>
     \<not> (g_secret_served s \<or> g_secret_window_closed s \<or> auth) \<and>
       frames t = frames s @ [(conns s, FRAME_SECRET, g_secret s)] \<and> (rc = 0 \<longrightarrow> g_secret_served t))"
proof (cases "len = 0")
  case False
  with assms show ?thesis by (auto simp: handle_secret_request_def)
next
  case len: True
  show ?thesis
  proof (cases "g_secret_served s \<or> g_secret_window_closed s \<or> auth")
    case True
    with assms len have "run_state (daemon_write_frame H FRAME_SECRET []) s = (rc, t)"
      by (auto simp: handle_secret_request_def)
    from daemon_write_frame_simps [OF this] True show ?thesis by simp
  next
    case False
    obtain rc1 s1 where 1: "run_state (daemon_write_frame H FRAME_SECRET (g_secret s)) s = (rc1, s1)"
      by (metis prod.exhaust)
    with assms len False
    have "t = (if rc1 \<noteq> 0 then s1 else s1\<lparr>g_secret_served := True\<rparr>)" "rc = 0 \<longleftrightarrow> rc1 = 0"
      by (auto simp: handle_secret_request_def split: if_splits)
    with daemon_write_frame_simps [OF 1] False show ?thesis by simp
  qed
qed

section \<open>The order of frames\<close>

text \<open>
  \<open>entry_ok k old x\<close>: frame \<open>x\<close> may follow the frames \<open>old\<close>. A SECRET frame with a
  payload carries \<open>k\<close>, on the first connection, before any challenge has been answered
  on it and not after another such frame; a READING frame follows an answered challenge of the same connection.
\<close>

fun is_secret :: "nat \<times> u8 \<times> bytes \<Rightarrow> bool" where
  "is_secret (c, ty, p) \<longleftrightarrow> ty = FRAME_SECRET \<and> p \<noteq> []"

definition answered :: "nat \<Rightarrow> (nat \<times> u8 \<times> bytes) list \<Rightarrow> bool" where
  "answered c fs \<longleftrightarrow> (\<exists>q \<in> set fs. fst q = c \<and> fst (snd q) = FRAME_CHALLENGE_RESPONSE)"

definition entry_ok :: "bytes \<Rightarrow> (nat \<times> u8 \<times> bytes) list \<Rightarrow> nat \<times> u8 \<times> bytes \<Rightarrow> bool" where
  "entry_ok k old x \<longleftrightarrow>
     (is_secret x \<longrightarrow> snd (snd x) = k \<and> fst x = 1 \<and> \<not> answered 1 old \<and> \<not> list_ex is_secret old) \<and>
     (fst (snd x) = FRAME_READING \<longrightarrow> answered (fst x) old)"

definition log_ok :: "bytes \<Rightarrow> (nat \<times> u8 \<times> bytes) list \<Rightarrow> bool" where
  "log_ok k fs \<longleftrightarrow> (\<forall>i < length fs. entry_ok k (take i fs) (fs ! i))"

lemma log_ok_Nil [simp]: "log_ok k []"
  by (simp add: log_ok_def)

lemma log_ok_snoc [simp]: "log_ok k (fs @ [x]) \<longleftrightarrow> log_ok k fs \<and> entry_ok k fs x"
  by (auto simp: log_ok_def nth_append less_Suc_eq)

lemma answered_snoc [simp]:
  "answered c (fs @ [(c', ty, p)]) \<longleftrightarrow> answered c fs \<or> (c' = c \<and> ty = FRAME_CHALLENGE_RESPONSE)"
  by (auto simp: answered_def)

lemma answered_Nil [simp]: "\<not> answered c []"
  by (simp add: answered_def)

lemma log_ok_one_secret: "log_ok k fs \<Longrightarrow> length (filter is_secret fs) \<le> 1"
proof (induction fs rule: rev_induct)
  case (snoc x fs)
  then show ?case
    by (cases "is_secret x") (auto simp: entry_ok_def list_ex_iff filter_empty_conv)
qed simp

section \<open>The invariant of the process\<close>

text \<open>
  \<open>daemon_base\<close> holds throughout; \<open>secret_gate\<close> says why the latch is enough: once a
  secret has been written the latch or the window is shut.
\<close>

definition daemon_base :: "bytes \<Rightarrow> 'd daemon \<Rightarrow> bool" where
  "daemon_base k s \<longleftrightarrow> g_secret s = k \<and> log_ok k (frames s) \<and> list_all (\<lambda>q. fst q \<le> conns s) (frames s)"

definition secret_gate :: "'d daemon \<Rightarrow> bool" where
  "secret_gate s \<longleftrightarrow> g_secret_served s \<or> g_secret_window_closed s \<or> \<not> list_ex is_secret (frames s)"

fun daemon_inv :: "bytes \<Rightarrow> daemon_pc \<Rightarrow> 'd daemon \<Rightarrow> bool" where
  "daemon_inv k (Serving l) s \<longleftrightarrow> daemon_base k s \<and> secret_gate s \<and>
     (g_secret_window_closed s \<or> conns s = 1) \<and> (authenticated l \<longleftrightarrow> answered (conns s) (frames s))"
| "daemon_inv k _ s \<longleftrightarrow> daemon_base k s \<and> secret_gate s \<and> (g_secret_window_closed s \<or> conns s = 0)"

lemma frame_types_distinct [simp]:
  "FRAME_SECRET \<noteq> FRAME_CHALLENGE_RESPONSE" "FRAME_SECRET \<noteq> FRAME_READING"
  "FRAME_CHALLENGE_RESPONSE \<noteq> FRAME_READING" "FRAME_CHALLENGE_RESPONSE \<noteq> FRAME_SECRET"
  "FRAME_READING \<noteq> FRAME_SECRET" "FRAME_READING \<noteq> FRAME_CHALLENGE_RESPONSE"
  by (simp_all add: frame_types)

lemma daemon_inv_dext [simp]:
  "daemon_base k (s\<lparr>dext := d\<rparr>) = daemon_base k s" "secret_gate (s\<lparr>dext := d\<rparr>) = secret_gate s"
  by (simp_all add: daemon_base_def secret_gate_def)

text \<open>An iteration keeps the invariant, or ends the connection with the base invariant intact.\<close>

definition loop_post :: "bytes \<Rightarrow> loop_result \<Rightarrow> 'd daemon \<Rightarrow> bool" where
  "loop_post k r t \<longleftrightarrow> (case r of Continue l \<Rightarrow> daemon_inv k (Serving l) t | Break \<Rightarrow> daemon_base k t)"

lemma serve_tail_inv:
  assumes "run_state (serve_tail H l) s = (r, t)" "daemon_inv k (Serving l) s"
  shows "loop_post k r t"
proof (cases "authenticated l")
  case False
  with assms show ?thesis by (auto simp: serve_tail_def loop_post_def)
next
  case auth: True
  define now where "now = fst (os_time H (dext s))"
  define s1 where "s1 = s\<lparr>dext := snd (os_time H (dext s))\<rparr>"
  have inv1: "daemon_inv k (Serving l) s1"
    using assms(2) by (simp add: s1_def)
  show ?thesis
  proof (cases "now - last_reading l \<ge> READING_INTERVAL_SEC")
    case False
    with assms(1) auth have "r = Continue l" "t = s1"
      by (auto simp: serve_tail_def now_def s1_def)
    with inv1 show ?thesis by (simp add: loop_post_def)
  next
    case True
    obtain rc s2 where 2: "run_state (send_reading H (tick l)) s1 = (rc, s2)"
      by (metis prod.exhaust)
    note f = daemon_write_frame_simps [OF 2 [unfolded send_reading_def]]
    have base: "daemon_base k s2" and gate: "secret_gate s2" and
      rest: "g_secret_window_closed s2 \<or> conns s2 = 1" "answered (conns s2) (frames s2)"
      using inv1 auth f by (auto simp: daemon_base_def secret_gate_def entry_ok_def)
    from assms(1) auth True 2 have "t = s2"
      "r = (if rc \<noteq> 0 then Break else Continue (l\<lparr>tick := tick l + 1, last_reading := now\<rparr>))"
      by (auto simp: serve_tail_def now_def s1_def split: if_splits)
    with base gate rest auth show ?thesis by (simp add: loop_post_def)
  qed
qed

lemma serve_frame_inv:
  assumes run: "run_state (serve_frame H l hdr) s = (r, t)" and inv: "daemon_inv k (Serving l) s"
  shows "loop_post k r t"
proof -
  consider (ch) "hdr ! 0 = FRAME_CHALLENGE" | (sec) "hdr ! 0 \<noteq> FRAME_CHALLENGE" "hdr ! 0 = FRAME_SECRET_REQUEST"
    | (other) "hdr ! 0 \<noteq> FRAME_CHALLENGE" "hdr ! 0 \<noteq> FRAME_SECRET_REQUEST" by blast
  then show ?thesis
  proof cases
    case other
    with run inv show ?thesis by (auto simp: serve_frame_def loop_post_def)
  next
    case ch
    obtain rc s1 where 1: "run_state (handle_challenge H (frame_length hdr)) s = (rc, s1)"
      by (metis prod.exhaust)
    have base: "daemon_base k s1" and gate: "secret_gate s1" and
      win: "g_secret_window_closed s1 \<or> conns s1 = 1" and
      ans: "rc = 0 \<longrightarrow> answered (conns s1) (frames s1)"
      using inv handle_challenge_simps [OF 1]
      by (auto simp: daemon_base_def secret_gate_def entry_ok_def)
    show ?thesis
    proof (cases "rc = 0")
      case False
      with run ch 1 base show ?thesis by (auto simp: serve_frame_def loop_post_def)
    next
      case True
      define l' where "l' = (if authenticated l then l
        else l\<lparr>authenticated := True, last_reading := fst (os_time H (dext s1))\<rparr>)"
      define s2 where "s2 = (if authenticated l then s1 else s1\<lparr>dext := snd (os_time H (dext s1))\<rparr>)"
      have "run_state (serve_tail H l') s2 = (r, t)"
        using run ch 1 True by (auto simp: serve_frame_def l'_def s2_def split: if_splits)
      moreover have "daemon_inv k (Serving l') s2"
        using base gate win ans True by (auto simp: l'_def s2_def)
      ultimately show ?thesis by (rule serve_tail_inv)
    qed
  next
    case sec
    obtain rc s1 where 1: "run_state (handle_secret_request H (frame_length hdr) (authenticated l)) s = (rc, s1)"
      by (metis prod.exhaust)
    have "daemon_base k s1 \<and> (rc = 0 \<longrightarrow> daemon_inv k (Serving l) s1)"
      using handle_secret_request_run [OF 1] inv
      by (elim conjE disjE) (simp_all add: daemon_base_def secret_gate_def entry_ok_def, (elim conjE, simp)?)
    then have base: "daemon_base k s1" and post: "rc = 0 \<longrightarrow> daemon_inv k (Serving l) s1"
      by blast+
    show ?thesis
    proof (cases "rc = 0")
      case False
      with run sec 1 base show ?thesis by (auto simp: serve_frame_def loop_post_def)
    next
      case True
      with run sec 1 have "run_state (serve_tail H l) s1 = (r, t)"
        by (auto simp: serve_frame_def)
      moreover have "daemon_inv k (Serving l) s1" using post True by simp
      ultimately show ?thesis by (rule serve_tail_inv)
    qed
  qed
qed

lemma serve_iter_inv:
  assumes run: "run_state (serve_iter H l) s = (r, t)" and inv: "daemon_inv k (Serving l) s"
  shows "loop_post k r t"
proof -
  define rc where "rc = fst (os_select H (dext s))"
  define s1 where "s1 = s\<lparr>dext := snd (os_select H (dext s))\<rparr>"
  have inv1: "daemon_inv k (Serving l) s1" using inv by (simp add: s1_def)
  show ?thesis
  proof (cases rc)
    case SelectReadable
    obtain r1 s2 where 2: "run_state (read_full H FRAME_HDR_SIZE []) s1 = (r1, s2)"
      by (metis prod.exhaust)
    have s2: "s2 = s1\<lparr>dext := dext s2\<rparr>"
      using boundedD [OF read_full_io 2] by (simp add: io_only_def)
    have inv2: "daemon_inv k (Serving l) s2"
      by (subst s2) (use inv1 in simp)
    from run SelectReadable 2
    have "r1 = None \<and> r = Break \<and> t = s2 \<or> (\<exists>hdr. run_state (serve_frame H l hdr) s2 = (r, t))"
      by (auto simp: serve_iter_def rc_def s1_def split: option.splits)
    with inv2 show ?thesis
      by (auto simp: loop_post_def dest: serve_frame_inv)
  next
    case SelectTimeout
    with run have "run_state (serve_tail H l) s1 = (r, t)"
      by (simp add: serve_iter_def rc_def s1_def)
    from serve_tail_inv [OF this inv1] show ?thesis .
  qed (use run inv1 in \<open>auto simp: serve_iter_def rc_def s1_def loop_post_def\<close>)
qed

lemma daemon_step_inv:
  assumes run: "run_state (daemon_step H pc) s = (pc', t)" and inv: "daemon_inv k pc s"
  shows "daemon_inv k pc' t"
proof (cases pc)
  case Accepting
  have fresh: "\<not> answered (Suc (conns s)) (frames s)"
    using inv Accepting by (fastforce simp: daemon_base_def answered_def list_all_iff)
  have grow: "list_all (\<lambda>q. fst q \<le> Suc (conns s)) (frames s)"
    using inv Accepting by (auto simp: daemon_base_def elim!: list.pred_mono_strong)
  show ?thesis
    using run inv Accepting fresh grow
    by (cases "fst (os_accept H (dext s))")
      (auto simp: serve_start_def daemon_base_def secret_gate_def)
next
  case (Serving l)
  obtain r s1 where 1: "run_state (serve_iter H l) s = (r, s1)"
    by (metis prod.exhaust)
  from inv Serving serve_iter_inv [OF 1] have post: "loop_post k r s1" by simp
  show ?thesis
  proof (cases r)
    case (Continue l')
    with run Serving 1 post show ?thesis by (simp add: loop_post_def)
  next
    case Break
    with run Serving 1 post show ?thesis
      by (auto simp: end_connection_def loop_post_def daemon_base_def secret_gate_def)
  qed
next
  case Exited
  with run inv show ?thesis by auto
qed

lemma daemon_reach_inv: "daemon_reach H k pc s \<Longrightarrow> daemon_inv k pc s"
proof (induction rule: daemon_reach.induct)
  case (start d)
  show ?case by (simp add: daemon_start_def daemon_base_def secret_gate_def)
next
  case (step pc s pc' s')
  then show ?case by (blast intro: daemon_step_inv)
qed

lemma daemon_reach_log: "daemon_reach H k pc s \<Longrightarrow> log_ok k (frames s)"
  by (cases pc) (auto dest!: daemon_reach_inv simp: daemon_base_def)

end
