(* ===== verification/DaemonRuns.thy ===== *)
theory DaemonRuns
  imports SensorDaemon Reference
begin

text \<open>
  A concrete operating system for the daemon: the bytes the device will send are queued,
  writes are accepted whole, and the clock jumps when they have all been read. With it, one
  run of the process over a connection on which the device fetches the secret and then sends
  two challenges.
\<close>

definition ref_os :: "bytes host_os" where
  "ref_os =
     \<lparr>os_read = (\<lambda>n d. (if d = [] then None else Some (take n d), drop n d)),
      os_write = (\<lambda>bs d. (Some (length bs), d)),
      os_select = (\<lambda>d. (if d = [] then SelectTimeout else SelectReadable, d)),
      os_time = (\<lambda>d. (if d = [] then 200 else 100, d)),
      os_accept = (\<lambda>d. (Accepted, d)),
      os_close = (\<lambda>d. d),
      os_hmac = (\<lambda>k m. Some (checksum (k @ m)))\<rparr>"

lemma ref_os_fields [simp]:
  "os_read ref_os n d = (if d = [] then None else Some (take n d), drop n d)"
  "os_write ref_os bs d = (Some (length bs), d)"
  "os_select ref_os d = (if d = [] then SelectTimeout else SelectReadable, d)"
  "os_time ref_os d = (if d = [] then 200 else 100, d)" "os_accept ref_os d = (Accepted, d)" "os_close ref_os d = d"
  "os_hmac ref_os k m = Some (checksum (k @ m))"
  by (simp_all add: ref_os_def)

lemma ref_read_full [simp]:
  assumes "dext s = bs @ rest" "length bs = n" "0 < n"
  shows "run_state (read_full ref_os n []) s = (Some bs, s\<lparr>dext := rest\<rparr>)"
  using assms by (subst read_full.simps) (auto simp: read_full.simps [of ref_os n bs])

lemma ref_write_full [simp]: "run_state (write_full ref_os bs) s = (0, s)"
  by (subst write_full.simps) (simp add: write_full.simps [of ref_os "[]"])

lemma ref_daemon_write_frame [simp]:
  "run_state (daemon_write_frame ref_os ty p) s = (0, s\<lparr>frames := frames s @ [(conns s, ty, p)]\<rparr>)"
  by (simp add: daemon_write_frame_def)

definition device_bytes :: "bytes \<Rightarrow> bytes" where
  "device_bytes c = encode_frame FRAME_SECRET_REQUEST [] @ encode_frame FRAME_CHALLENGE c @ encode_frame FRAME_CHALLENGE c"

text \<open>The process on its first connection, with the secret served and these bytes still to come.\<close>

definition serving :: "bytes \<Rightarrow> bytes \<Rightarrow> (nat \<times> u8 \<times> bytes) list \<Rightarrow> bytes daemon" where
  "serving k d fs = \<lparr>dext = d, g_secret = k, g_secret_served = True, g_secret_window_closed = False,
     conns = 1, frames = (1, FRAME_SECRET, k) # fs\<rparr>"

definition answering :: serve_locals where
  "answering = \<lparr>tick = 0, last_reading = 100, authenticated = True\<rparr>"

definition response_frame :: "bytes \<Rightarrow> bytes \<Rightarrow> nat \<times> u8 \<times> bytes" where
  "response_frame k c = (1, FRAME_CHALLENGE_RESPONSE, checksum (k @ c))"

definition reading_frame1 :: "nat \<times> u8 \<times> bytes" where
  "reading_frame1 = (1, FRAME_READING, reading_payload 20 (ascii ''C''))"

lemma ref_serves_secret:
  "daemon_reach ref_os k (Serving serve_start) (serving k (encode_frame FRAME_CHALLENGE c @ encode_frame FRAME_CHALLENGE c) [])"
proof -
  let ?s0 = "daemon_start (device_bytes c) k" and ?d = "encode_frame FRAME_CHALLENGE c @ encode_frame FRAME_CHALLENGE c"
  have "daemon_reach ref_os k (Serving serve_start) (?s0\<lparr>conns := 1\<rparr>)"
    by (rule daemon_reach.step [OF daemon_reach.start [of ref_os k "device_bytes c"]]) (simp add: daemon_start_def)
  then show ?thesis
  proof (rule daemon_reach.step)
    let ?h = "frame_header FRAME_SECRET_REQUEST 0"
    have "run_state (serve_iter ref_os serve_start) (?s0\<lparr>conns := 1\<rparr>) = (Continue serve_start, serving k ?d [])"
      by (simp add: serve_iter_def serve_frame_def serve_tail_def daemon_start_def serving_def device_bytes_def
        encode_frame_def ref_read_full [where bs = ?h] handle_secret_request_def serve_start_def frame_types
        del: frame_types_distinct) (simp add: frame_header_def)
    then show "run_state (daemon_step ref_os (Serving serve_start)) (?s0\<lparr>conns := 1\<rparr>) =
        (Serving serve_start, serving k ?d [])"
      by simp
  qed
qed

text \<open>A challenge of 32 bytes is answered; the first one starts the interval.\<close>

lemma ref_handle_challenge [simp]:
  assumes "length c = 32" "dext s = c @ rest"
  shows "run_state (handle_challenge ref_os 32) s =
    (0, s\<lparr>dext := rest, frames := frames s @ [(conns s, FRAME_CHALLENGE_RESPONSE, checksum (g_secret s @ c))]\<rparr>)"
  using assms by (simp add: handle_challenge_def)

lemma ref_answers_first:
  assumes c: "length c = 32"
  shows "daemon_reach ref_os k (Serving answering) (serving k (encode_frame FRAME_CHALLENGE c) [response_frame k c])"
proof (rule daemon_reach.step [OF ref_serves_secret [of k c]])
  let ?h = "frame_header FRAME_CHALLENGE 32"
  have "run_state (serve_iter ref_os serve_start)
      (serving k (encode_frame FRAME_CHALLENGE c @ encode_frame FRAME_CHALLENGE c) []) =
      (Continue answering, serving k (encode_frame FRAME_CHALLENGE c) [response_frame k c])"
    using c by (simp add: serve_iter_def serve_frame_def serve_tail_def serving_def response_frame_def answering_def
      encode_frame_def ref_read_full [where bs = ?h] serve_start_def)
      (simp add: frame_header_def)
  then show "run_state (daemon_step ref_os (Serving serve_start))
      (serving k (encode_frame FRAME_CHALLENGE c @ encode_frame FRAME_CHALLENGE c) []) =
      (Serving answering, serving k (encode_frame FRAME_CHALLENGE c) [response_frame k c])"
    by simp
qed

lemma ref_sends_reading:
  assumes c: "length c = 32"
  shows "\<exists>l. daemon_reach ref_os k (Serving l) (serving k [] [response_frame k c, response_frame k c, reading_frame1])"
proof -
  let ?h = "frame_header FRAME_CHALLENGE 32" and ?l = "answering\<lparr>tick := 1, last_reading := 200\<rparr>"
  have "run_state (serve_iter ref_os answering) (serving k (encode_frame FRAME_CHALLENGE c) [response_frame k c]) =
      (Continue ?l, serving k [] [response_frame k c, response_frame k c, reading_frame1])"
    using c by (simp add: serve_iter_def serve_frame_def serve_tail_def serving_def response_frame_def answering_def
      encode_frame_def ref_read_full [where bs = ?h] send_reading_def reading_value_def reading_frame1_def)
      (simp add: frame_header_def)
  then have "run_state (daemon_step ref_os (Serving answering)) (serving k (encode_frame FRAME_CHALLENGE c) [response_frame k c]) =
      (Serving ?l, serving k [] [response_frame k c, response_frame k c, reading_frame1])"
    by simp
  from daemon_reach.step [OF ref_answers_first [OF c] this] show ?thesis by blast
qed

end
