(* ===== verification/ProbeTa.thy ===== *)
theory ProbeTa
  imports Platform Protocol
begin

text \<open>
  The storage-scope prober (ciot_probe_ta/ta/probe_ta.c), the fixture with which the tests
  check that sealed objects are invisible to another TA. What matters for a fixture is that its
  verdict is about the storage and not about its own history: a marker it left behind must not
  look like a breach. The storage it sees is the record \<open>probe_storage\<close>.
\<close>

section \<open>Its storage\<close>

text \<open>Deleting through a handle with the given flags panics, value False, on any error.\<close>

record 'e probe_storage =
  q_open :: "bytes \<Rightarrow> data_flag list \<Rightarrow> 'e \<Rightarrow> TEE_Result \<times> 'e"
  q_read :: "bytes \<Rightarrow> nat \<Rightarrow> 'e \<Rightarrow> (TEE_Result \<times> bytes) \<times> 'e"
  q_seek :: "bytes \<Rightarrow> nat \<Rightarrow> 'e \<Rightarrow> TEE_Result \<times> 'e"
  q_create :: "bytes \<Rightarrow> data_flag list \<Rightarrow> bytes \<Rightarrow> 'e \<Rightarrow> TEE_Result \<times> 'e"
  q_delete :: "bytes \<Rightarrow> data_flag list \<Rightarrow> 'e \<Rightarrow> bool \<times> 'e"

text \<open>The numeric result codes of the GlobalPlatform API, as they are handed to the caller.\<close>

fun result_code :: "TEE_Result \<Rightarrow> u32" where
  "result_code TEE_SUCCESS = 0"
| "result_code TEE_ERROR_GENERIC = 0xFFFF0000"
| "result_code TEE_ERROR_ACCESS_DENIED = 0xFFFF0001"
| "result_code TEE_ERROR_ACCESS_CONFLICT = 0xFFFF0003"
| "result_code TEE_ERROR_BAD_FORMAT = 0xFFFF0005"
| "result_code TEE_ERROR_BAD_PARAMETERS = 0xFFFF0006"
| "result_code TEE_ERROR_BAD_STATE = 0xFFFF0007"
| "result_code TEE_ERROR_ITEM_NOT_FOUND = 0xFFFF0008"
| "result_code TEE_ERROR_NOT_IMPLEMENTED = 0xFFFF0009"
| "result_code TEE_ERROR_NOT_SUPPORTED = 0xFFFF000A"
| "result_code TEE_ERROR_OUT_OF_MEMORY = 0xFFFF000C"
| "result_code TEE_ERROR_COMMUNICATION = 0xFFFF000E"
| "result_code TEE_ERROR_SHORT_BUFFER = 0xFFFF0010"
| "result_code TEE_ERROR_OVERFLOW = 0xFFFF300F"
| "result_code TEE_ERROR_MAC_INVALID = 0xFFFF3071"
| "result_code TEE_ERROR_SIGNATURE_INVALID = 0xFFFF3072"
| "result_code (TEE_OTHER w) = w"

section \<open>Operations\<close>

definition PROBE_OBJID_MAX :: nat where [simp]: "PROBE_OBJID_MAX = 64"
definition PROBE_CMD_OPEN_FOREIGN_OBJECT :: nat where [simp]: "PROBE_CMD_OPEN_FOREIGN_OBJECT = 0"
definition PROBE_CMD_SELF_ROUNDTRIP :: nat where [simp]: "PROBE_CMD_SELF_ROUNDTRIP = 1"

definition probe_marker :: bytes where
  "probe_marker = ascii ''ciot-probe-control'' @ [0]"

lemma length_probe_marker [simp]: "length probe_marker = 19"
  by (simp add: probe_marker_def)

definition open_object :: "'e probe_storage \<Rightarrow> bytes \<Rightarrow> data_flag list \<Rightarrow> (('e, 'm) tee_world_scheme, TEE_Result) state" where
  "open_object S oid flags = do {
     res \<leftarrow> ext_op (q_open S oid flags);
     modify (\<lambda>s. if res = TEE_SUCCESS then s\<lparr>n_persistent := Suc (n_persistent s)\<rparr> else s);
     State_Monad.return res }"

definition delete_object :: "'e probe_storage \<Rightarrow> bytes \<Rightarrow> data_flag list \<Rightarrow> (('e, 'm) tee_world_scheme, bool) state" where
  "delete_object S oid flags = do {
     ok \<leftarrow> ext_op (q_delete S oid flags);
     modify (\<lambda>s. s\<lparr>n_persistent := n_persistent s - 1\<rparr>);
     State_Monad.return ok }"

definition copy_objid :: "'e platform \<Rightarrow> (('e, 'm) tee_world_scheme, bytes option) state" where
  "copy_objid P = do {
     n \<leftarrow> get_size 0;
     if n = 0 \<or> n > PROBE_OBJID_MAX then State_Monad.return None
     else do {
       oid \<leftarrow> shm_read P 0 0 n;
       State_Monad.return (Some oid) } }"

definition probe_report :: "TEE_Result \<Rightarrow> nat \<Rightarrow> (('e, 'm) tee_world_scheme, TEE_Result outcome) state" where
  "probe_report res got = do {
     set_value 1 (result_code res) (of_nat got);
     State_Monad.return (Ret TEE_SUCCESS) }"

text \<open>The object turned out to be a leftover of the prober: delete it and probe again.\<close>

definition probe_again :: "'e probe_storage \<Rightarrow> bytes \<Rightarrow> (('e, 'm) tee_world_scheme, TEE_Result outcome) state" where
  "probe_again S oid = do {
     res \<leftarrow> open_object S oid [TEE_DATA_FLAG_ACCESS_READ, TEE_DATA_FLAG_ACCESS_WRITE_META];
     ok \<leftarrow> (if res = TEE_SUCCESS
       then delete_object S oid [TEE_DATA_FLAG_ACCESS_READ, TEE_DATA_FLAG_ACCESS_WRITE_META]
       else State_Monad.return True);
     if \<not> ok then State_Monad.return Panicked
     else do {
       res \<leftarrow> open_object S oid [TEE_DATA_FLAG_ACCESS_READ];
       (if res = TEE_SUCCESS then close_object else State_Monad.return ());
       probe_report res 0 } }"

definition probe_foreign_object ::
    "'e platform \<Rightarrow> 'e probe_storage \<Rightarrow> ptype list \<Rightarrow> (('e, 'm) tee_world_scheme, TEE_Result outcome) state" where
  "probe_foreign_object P S types =
     (if types \<noteq> [PT_MEMREF_INPUT, PT_VALUE_OUTPUT, PT_NONE, PT_NONE]
      then State_Monad.return (Ret TEE_ERROR_BAD_PARAMETERS)
      else do {
        r \<leftarrow> copy_objid P;
        case r of
          None \<Rightarrow> State_Monad.return (Ret TEE_ERROR_BAD_PARAMETERS)
        | Some oid \<Rightarrow> do {
            res \<leftarrow> open_object S oid [TEE_DATA_FLAG_ACCESS_READ];
            if res \<noteq> TEE_SUCCESS then probe_report res 0
            else do {
              (rr, stolen) \<leftarrow> ext_op (q_read S oid 64);
              let got = (if rr \<noteq> TEE_SUCCESS then 0 else length stolen);
              close_object;
              if got = length probe_marker \<and> stolen = probe_marker then probe_again S oid
              else probe_report res got } } })"

abbreviation roundtrip_flags :: "data_flag list" where
  "roundtrip_flags \<equiv> [TEE_DATA_FLAG_ACCESS_WRITE, TEE_DATA_FLAG_ACCESS_READ, TEE_DATA_FLAG_ACCESS_WRITE_META,
     TEE_DATA_FLAG_OVERWRITE]"

definition read_back :: "'e probe_storage \<Rightarrow> bytes \<Rightarrow> (('e, 'm) tee_world_scheme, TEE_Result \<times> nat) state" where
  "read_back S oid = do {
     res \<leftarrow> ext_op (q_seek S oid 0);
     if res \<noteq> TEE_SUCCESS then State_Monad.return (res, 0)
     else do {
       (res, readback) \<leftarrow> ext_op (q_read S oid 19);
       State_Monad.return
         (if res \<noteq> TEE_SUCCESS then (res, 0)
          else (if length readback \<noteq> length probe_marker \<or> readback \<noteq> probe_marker then TEE_ERROR_GENERIC
                else TEE_SUCCESS, length readback)) } }"

definition self_roundtrip ::
    "'e platform \<Rightarrow> 'e probe_storage \<Rightarrow> ptype list \<Rightarrow> (('e, 'm) tee_world_scheme, TEE_Result outcome) state" where
  "self_roundtrip P S types =
     (if types \<noteq> [PT_MEMREF_INPUT, PT_VALUE_OUTPUT, PT_NONE, PT_NONE]
      then State_Monad.return (Ret TEE_ERROR_BAD_PARAMETERS)
      else do {
        r \<leftarrow> copy_objid P;
        case r of
          None \<Rightarrow> State_Monad.return (Ret TEE_ERROR_BAD_PARAMETERS)
        | Some oid \<Rightarrow> do {
            res \<leftarrow> ext_op (q_create S oid roundtrip_flags probe_marker);
            if res \<noteq> TEE_SUCCESS then probe_report res 0
            else do {
              modify (\<lambda>s. s\<lparr>n_persistent := Suc (n_persistent s)\<rparr>);
              (res, got) \<leftarrow> read_back S oid;
              ok \<leftarrow> delete_object S oid roundtrip_flags;
              if \<not> ok then State_Monad.return Panicked else probe_report res got } } })"

definition probe_invoke ::
    "'e platform \<Rightarrow> 'e probe_storage \<Rightarrow> nat \<Rightarrow> ptype list \<Rightarrow> (('e, 'm) tee_world_scheme, TEE_Result outcome) state" where
  "probe_invoke P S cmd_id types =
     (if cmd_id = PROBE_CMD_OPEN_FOREIGN_OBJECT then probe_foreign_object P S types
      else if cmd_id = PROBE_CMD_SELF_ROUNDTRIP then self_roundtrip P S types
      else State_Monad.return (Ret TEE_ERROR_NOT_SUPPORTED))"

section \<open>Its verdict\<close>

text \<open>
  Working storage with the contents \<open>V\<close>: objects open when they exist, read back from the
  start, are created over an old one, and are deleted through a handle with the meta flag.
\<close>

definition working_storage :: "('e \<Rightarrow> bytes \<rightharpoonup> bytes) \<Rightarrow> 'e probe_storage \<Rightarrow> bool" where
  "working_storage V S \<longleftrightarrow>
     (\<forall>oid fl e. fst (q_open S oid fl e) = (if V e oid = None then TEE_ERROR_ITEM_NOT_FOUND else TEE_SUCCESS) \<and>
        V (snd (q_open S oid fl e)) = V e) \<and>
     (\<forall>oid n e c. V e oid = Some c \<longrightarrow> fst (q_read S oid n e) = (TEE_SUCCESS, take n c)) \<and>
     (\<forall>oid n e. V (snd (q_read S oid n e)) = V e) \<and>
     (\<forall>oid n e. fst (q_seek S oid n e) = TEE_SUCCESS \<and> V (snd (q_seek S oid n e)) = V e) \<and>
     (\<forall>oid fl d e. TEE_DATA_FLAG_OVERWRITE \<in> set fl \<longrightarrow>
        fst (q_create S oid fl d e) = TEE_SUCCESS \<and> V (snd (q_create S oid fl d e)) = (V e)(oid \<mapsto> d)) \<and>
     (\<forall>oid fl e. fst (q_delete S oid fl e) = (TEE_DATA_FLAG_ACCESS_WRITE_META \<in> set fl \<and> V e oid \<noteq> None) \<and>
        (TEE_DATA_FLAG_ACCESS_WRITE_META \<in> set fl \<longrightarrow> V (snd (q_delete S oid fl e)) = (V e)(oid := None)))"

text \<open>What the two commands answer about object \<open>oid\<close> of a storage with contents \<open>m\<close>.\<close>

definition probe_answer :: "(bytes \<rightharpoonup> bytes) \<Rightarrow> bytes \<Rightarrow> u32 \<times> u32" where
  "probe_answer m oid = (case m oid of
     None \<Rightarrow> (result_code TEE_ERROR_ITEM_NOT_FOUND, 0)
   | Some c \<Rightarrow> if take 64 c = probe_marker then (result_code TEE_ERROR_ITEM_NOT_FOUND, 0)
       else (0, of_nat (min 64 (length c))))"

definition probe_leaves :: "(bytes \<rightharpoonup> bytes) \<Rightarrow> bytes \<Rightarrow> (bytes \<rightharpoonup> bytes)" where
  "probe_leaves m oid = (if map_option (take 64) (m oid) = Some probe_marker then m(oid := None) else m)"

text \<open>Nobody rewrites the shared buffer, and nobody else works on these objects.\<close>

definition undisturbed :: "('e \<Rightarrow> bytes \<rightharpoonup> bytes) \<Rightarrow> 'e platform \<Rightarrow> bool" where
  "undisturbed V P \<longleftrightarrow> quiet_host P \<and> (\<forall>m e. V (snd (p_host P m e)) = V e)"

lemma copy_objid_run:
  assumes P: "undisturbed V P" and buf: "shm s \<noteq> []" "psize s ! 0 = length (shm s ! 0)"
    and n: "0 < psize s ! 0" "psize s ! 0 \<le> 64"
  shows "\<exists>e. run_state (copy_objid P) s = (Some (shm s ! 0), s\<lparr>ext := e\<rparr>) \<and> V e = V (ext s)"
proof -
  obtain m e where h: "p_host P (shm s) (ext s) = (m, e)" by (metis prod.exhaust)
  with P have m: "m = shm s" "V e = V (ext s)"
    unfolding undisturbed_def quiet_host_def by (metis fst_conv, metis snd_conv)
  have "s\<lparr>shm := shm s, ext := e\<rparr> = s\<lparr>ext := e\<rparr>" by simp
  with buf n h m show ?thesis
    by (intro exI [of _ e]) (simp add: copy_objid_def get_size_def shm_read_def host_step_def)
qed

lemmas run_probe = open_object_def delete_object_def probe_report_def set_value_def close_object_def

lemma working_storageD:
  assumes "working_storage V S"
  shows "fst (q_open S oid fl e) = (if V e oid = None then TEE_ERROR_ITEM_NOT_FOUND else TEE_SUCCESS)"
    "V (snd (q_open S oid fl e)) = V e" "V e oid = Some c \<Longrightarrow> fst (q_read S oid n e) = (TEE_SUCCESS, take n c)"
    "V (snd (q_read S oid n e)) = V e" "fst (q_seek S oid n e) = TEE_SUCCESS" "V (snd (q_seek S oid n e)) = V e"
    "TEE_DATA_FLAG_OVERWRITE \<in> set fl \<Longrightarrow> fst (q_create S oid fl d e) = TEE_SUCCESS"
    "TEE_DATA_FLAG_OVERWRITE \<in> set fl \<Longrightarrow> V (snd (q_create S oid fl d e)) = (V e)(oid \<mapsto> d)"
    "fst (q_delete S oid fl e) = (TEE_DATA_FLAG_ACCESS_WRITE_META \<in> set fl \<and> V e oid \<noteq> None)"
    "TEE_DATA_FLAG_ACCESS_WRITE_META \<in> set fl \<Longrightarrow> V (snd (q_delete S oid fl e)) = (V e)(oid := None)"
  using assms unfolding working_storage_def by simp_all

lemma probe_foreign_run:
  assumes S: "working_storage V S" and P: "undisturbed V P"
    and buf: "shm s \<noteq> []" "psize s ! 0 = length (shm s ! 0)" "0 < psize s ! 0" "psize s ! 0 \<le> 64"
    and run: "run_state (probe_foreign_object P S [PT_MEMREF_INPUT, PT_VALUE_OUTPUT, PT_NONE, PT_NONE]) s = (r, t)"
  shows "r = Ret TEE_SUCCESS \<and> pvalue t = (pvalue s)[1 := probe_answer (V (ext s)) (shm s ! 0)] \<and>
    V (ext t) = probe_leaves (V (ext s)) (shm s ! 0) \<and> n_persistent t = n_persistent s"
proof -
  from copy_objid_run [OF P buf] obtain e where c: "run_state (copy_objid P) s = (Some (shm s ! 0), s\<lparr>ext := e\<rparr>)"
    and e: "V e = V (ext s)" by blast
  note D = working_storageD [OF S]
  show ?thesis
  proof (cases "V (ext s) (shm s ! 0)")
    case None
    with run c e show ?thesis
      by (auto simp: probe_foreign_object_def run_probe D probe_answer_def probe_leaves_def)
  next
    case (Some x)
    show ?thesis
    proof (cases "take 64 x = probe_marker")
      case True
      with run c e Some show ?thesis
        by (auto simp: probe_foreign_object_def probe_again_def run_probe D D(3) [of _ _ x] probe_answer_def
          probe_leaves_def case_prod_beta)
    next
      case False
      with run c e Some show ?thesis
        by (auto simp: probe_foreign_object_def run_probe D D(3) [of _ _ x] probe_answer_def probe_leaves_def
          case_prod_beta min.commute)
    qed
  qed
qed

lemma self_roundtrip_run:
  assumes S: "working_storage V S" and P: "undisturbed V P"
    and buf: "shm s \<noteq> []" "psize s ! 0 = length (shm s ! 0)" "0 < psize s ! 0" "psize s ! 0 \<le> 64"
    and run: "run_state (self_roundtrip P S [PT_MEMREF_INPUT, PT_VALUE_OUTPUT, PT_NONE, PT_NONE]) s = (r, t)"
  shows "r = Ret TEE_SUCCESS \<and> pvalue t = (pvalue s)[1 := (0, 19)] \<and>
    V (ext t) = (V (ext s))(shm s ! 0 := None) \<and> n_persistent t = n_persistent s"
proof -
  from copy_objid_run [OF P buf] obtain e where c: "run_state (copy_objid P) s = (Some (shm s ! 0), s\<lparr>ext := e\<rparr>)"
    and e: "V e = V (ext s)" by blast
  note D = working_storageD [OF S]
  from run c e show ?thesis
    by (auto simp: self_roundtrip_def read_back_def run_probe D D(3) [of _ _ probe_marker] case_prod_beta)
qed

section \<open>A concrete storage\<close>

definition map_storage :: "(bytes \<rightharpoonup> bytes) probe_storage" where
  "map_storage =
     \<lparr>q_open = (\<lambda>oid fl m. (if m oid = None then TEE_ERROR_ITEM_NOT_FOUND else TEE_SUCCESS, m)),
      q_read = (\<lambda>oid n m. (case m oid of None \<Rightarrow> (TEE_ERROR_GENERIC, []) | Some c \<Rightarrow> (TEE_SUCCESS, take n c), m)),
      q_seek = (\<lambda>oid n m. (TEE_SUCCESS, m)),
      q_create = (\<lambda>oid fl d m. (TEE_SUCCESS, m(oid \<mapsto> d))),
      q_delete = (\<lambda>oid fl m. (TEE_DATA_FLAG_ACCESS_WRITE_META \<in> set fl \<and> m oid \<noteq> None, m(oid := None)))\<rparr>"

lemma map_storage_works: "working_storage (\<lambda>m. m) map_storage"
  by (simp add: working_storage_def map_storage_def)

text \<open>A platform of which the prober only uses the Normal World, which is quiet.\<close>

definition still_platform :: "'e platform" where
  "still_platform =
     \<lparr>p_sha256 = (\<lambda>m. m), p_hmac = (\<lambda>k m. m), p_verify = (\<lambda>x y d s. False), p_sign = (\<lambda>d m e. (None, e)),
      p_ecdh = (\<lambda>d x y. None), p_hkdf = (\<lambda>z s i n. []), p_gcm = (\<lambda>k n a p. (p, [])), p_random = (\<lambda>n e. ([], e)),
      p_keypair = (\<lambda>e. (([], [], []), e)), p_result = (\<lambda>c e. (TEE_ERROR_GENERIC, e)),
      p_open = (\<lambda>n e. (TEE_ERROR_GENERIC, e)), p_read = (\<lambda>n k e. ((TEE_ERROR_GENERIC, []), e)),
      p_create = (\<lambda>n f d e. (TEE_ERROR_GENERIC, e)), p_host = (\<lambda>m e. (m, e)), p_uart_init = (\<lambda>e. e),
      p_uart_putc = (\<lambda>b e. e), p_uart_flush = (\<lambda>e. e), p_uart_have_rx = (\<lambda>e. (False, e)),
      p_uart_getchar = (\<lambda>e. (0, e)), p_mdelay = (\<lambda>n e. e)\<rparr>"

lemma still_undisturbed: "undisturbed (\<lambda>m. m) still_platform"
  by (simp add: undisturbed_def quiet_host_def still_platform_def)

definition probe_start :: "(bytes \<rightharpoonup> bytes) \<Rightarrow> (bytes \<rightharpoonup> bytes) tee_world" where
  "probe_start m =
     \<lparr>ext = m, uart_ready = False, wire = [], waited = 0, shm = [[1, 2, 3], [], [], []], psize = [3, 0, 0, 0],
      pvalue = replicate 4 (0, 0), oob = False, n_objects = 0, n_operations = 0, n_persistent = 0, n_sessions = 0\<rparr>"

end
