(* ===== verification/DaemonMain.thy ===== *)
theory DaemonMain
  imports SensorDaemon
begin

text \<open>
  The start of the Sensor Module (\<open>main\<close> and \<open>listen_on\<close> of sensor_daemon.c): its
  arguments, the secret file and the listening socket, up to the accept loop of SensorDaemon.
\<close>

record 'd boot_os =
  bo_file :: "bytes \<Rightarrow> bytes option"
  bo_socket :: "'d \<Rightarrow> int \<times> 'd"
  bo_bind :: "int \<Rightarrow> u32 \<Rightarrow> u16 \<Rightarrow> 'd \<Rightarrow> int \<times> 'd"
  bo_listen :: "int \<Rightarrow> nat \<Rightarrow> 'd \<Rightarrow> int \<times> 'd"
  bo_close :: "int \<Rightarrow> 'd \<Rightarrow> 'd"

definition INADDR_LOOPBACK :: u32 where [simp]: "INADDR_LOOPBACK = 0x7F000001"

text \<open>A flag needs a value after it; anything else is skipped.\<close>

fun parse_args :: "bytes list \<Rightarrow> u16 \<times> bytes option \<Rightarrow> u16 \<times> bytes option" where
  "parse_args (a # b # rest) (port, path) =
     (if a = ascii ''--port'' then parse_args rest (word_of_int (atoi b), path)
      else if a = ascii ''--secret'' then parse_args rest (port, Some b)
      else parse_args (b # rest) (port, path))"
| "parse_args [a] r = r"
| "parse_args [] r = r"

definition listen_on :: "'d boot_os \<Rightarrow> u16 \<Rightarrow> ('d daemon, int) state" where
  "listen_on B port = do {
     fd \<leftarrow> os_op (bo_socket B);
     if fd < 0 then State_Monad.return (- 1)
     else do {
       rc \<leftarrow> os_op (bo_bind B fd INADDR_LOOPBACK port);
       rc \<leftarrow> (if rc \<noteq> 0 then State_Monad.return rc else os_op (bo_listen B fd 1));
       if rc \<noteq> 0 then do {
         os_op (\<lambda>d. ((), bo_close B fd d));
         State_Monad.return (- 1) }
       else State_Monad.return fd } }"

text \<open>\<open>Inl\<close> is the exit status of a process that ends here.\<close>

definition daemon_main :: "'d boot_os \<Rightarrow> bytes list \<Rightarrow> ('d daemon, int + daemon_pc) state" where
  "daemon_main B args = (case parse_args args (0, None) of
     (port, None) \<Rightarrow> State_Monad.return (Inl 1)
   | (port, Some path) \<Rightarrow>
       if port = 0 then State_Monad.return (Inl 1)
       else do {
         rc \<leftarrow> load_secret (bo_file B path);
         if rc \<noteq> 0 then State_Monad.return (Inl 1)
         else do {
           fd \<leftarrow> listen_on B port;
           if fd < 0 then State_Monad.return (Inl 1)
           else State_Monad.return (Inr Accepting) } })"

section \<open>What it starts\<close>

text \<open>The process before \<open>main\<close>: the secret is a zero-filled global.\<close>

abbreviation daemon_image :: "'d \<Rightarrow> 'd daemon" where
  "daemon_image d \<equiv> daemon_start d (zeros LINK_SECRET_SIZE)"

lemma listen_on_io: "bounded io_only (listen_on B port)"
  unfolding listen_on_def by (intro io.bounded_rules io_only_os_op)

lemma daemon_main_run:
  assumes run: "run_state (daemon_main B args) (daemon_image d) = (Inr pc, t)"
  shows "\<exists>port path content. parse_args args (0, None) = (port, Some path) \<and> port \<noteq> 0 \<and> bo_file B path = Some content \<and>
    LINK_SECRET_SIZE \<le> length content \<and> pc = Accepting \<and> t = daemon_start (dext t) (take LINK_SECRET_SIZE content)"
proof -
  obtain port path where a: "parse_args args (0, None) = (port, path)" by (metis prod.exhaust)
  from run a obtain p content where p: "path = Some p" "port \<noteq> 0" "bo_file B p = Some content"
    "32 \<le> length content"
    by (auto simp: daemon_main_def load_secret_def split: option.splits if_splits)
  let ?k = "splice 0 (take 32 content) (zeros 32)"
  have k: "?k = take 32 content" using p(4) by (simp add: splice_def)
  obtain fd u where l: "run_state (listen_on B port) (daemon_start d ?k) = (fd, u)" by (metis prod.exhaust)
  with run a p have "pc = Accepting" "t = u"
    by (auto simp: daemon_main_def load_secret_def daemon_start_def split: if_splits)
  moreover from boundedD [OF listen_on_io l] have "u = daemon_start (dext u) ?k"
    by (simp add: io_only_def daemon_start_def)
  ultimately show ?thesis using a p k by auto
qed

section \<open>A concrete start\<close>

definition boot_ref :: "bytes boot_os" where
  "boot_ref =
     \<lparr>bo_file = (\<lambda>p. Some (replicate 40 7)), bo_socket = (\<lambda>d. (3, d)), bo_bind = (\<lambda>fd a p d. (0, d)),
      bo_listen = (\<lambda>fd n d. (0, d)), bo_close = (\<lambda>fd d. d)\<rparr>"

definition boot_args :: "bytes list" where
  "boot_args = [ascii ''--port'', ascii ''9000'', ascii ''--secret'', ascii ''k'']"

lemma boot_runs: "\<exists>t. run_state (daemon_main boot_ref boot_args) (daemon_image []) = (Inr Accepting, t)"
proof -
  have "parse_args boot_args (0, None) = (9000, Some (ascii ''k''))" by code_simp
  then show ?thesis
    by (simp add: daemon_main_def load_secret_def listen_on_def boot_ref_def)
qed

end
