(* ===== verification/DeadSession.thy ===== *)
theory DeadSession
  imports HostTaRuns
begin

text \<open>
  The push loop on a session whose TA has panicked. The client library answers every command
  on it with an error and the session stays dead until the client opens a new one, which the
  loop never does.
\<close>

section \<open>The law of the client library\<close>

definition target_dead_law :: "('w, 'j) host_env \<Rightarrow> ('w \<Rightarrow> bool) \<Rightarrow> bool" where
  "target_dead_law H dead \<longleftrightarrow> lets_be (\<lambda>w w'. dead w \<longrightarrow> dead w') H \<and>
     (\<forall>c types ps w res qs w'. length ps = 4 \<longrightarrow> dead w \<longrightarrow> env_invoke H c types ps w = ((res, qs), w') \<longrightarrow>
        res \<noteq> TEE_SUCCESS \<and> dead w')"

fun succeeded :: "host_event \<Rightarrow> bool" where
  "succeeded (Invoked c ps r qs) \<longleftrightarrow> r = TEE_SUCCESS"
| "succeeded _ \<longleftrightarrow> False"

definition stays_dead :: "('w \<Rightarrow> bool) \<Rightarrow> 'w edge \<Rightarrow> 'w edge \<Rightarrow> bool" where
  "stays_dead dead s t \<longleftrightarrow> (dead (hw s) \<longrightarrow> dead (hw t) \<and> (\<exists>es. log t = log s @ es \<and> list_all (\<lambda>e. \<not> succeeded e) es))"

locale dead_session =
  fixes H :: "('w, 'j) host_env" and dead :: "'w \<Rightarrow> bool"
  assumes law: "target_dead_law H dead"

sublocale dead_session \<subseteq> host_effect "stays_dead dead" H "\<lambda>w w'. dead w \<longrightarrow> dead w'"
proof
  show "lets_be (\<lambda>w w'. dead w \<longrightarrow> dead w') H" using law by (simp add: target_dead_law_def)
next
  fix s t u :: "'w edge"
  assume "stays_dead dead s t" "stays_dead dead t u"
  then show "stays_dead dead s u" by (fastforce simp: stays_dead_def)
next
  fix s :: "'w edge" and e
  assume "plain_event e"
  then show "stays_dead dead s (s\<lparr>log := log s @ [e]\<rparr>)" by (cases e) (simp_all add: stays_dead_def)
next
  fix s :: "'w edge" and c ps types res qs w
  assume "host_params c ps" "env_invoke H c types ps (hw s) = ((res, qs), w)"
  then have "dead (hw s) \<Longrightarrow> res \<noteq> TEE_SUCCESS \<and> dead w"
    using law unfolding target_dead_law_def host_params_def by blast
  then show "stays_dead dead s (s\<lparr>hw := w, log := log s @ [Invoked c ps res qs]\<rparr>)"
    by (simp add: stays_dead_def)
qed (simp_all add: stays_dead_def)

text \<open>A TA behind the client library obeys the law.\<close>

lemma commanded_dead: "commanded V P c types ps res qs Dead b \<Longrightarrow> res \<noteq> TEE_SUCCESS \<and> b = Dead"
  by (auto elim!: commanded.cases simp: elsewhere_def TARGET_DEAD_def)

sublocale ta_host \<subseteq> dead_session H "\<lambda>w. st w = Dead"
proof
  have "lets_be (\<lambda>w w'. st w = Dead \<longrightarrow> st w' = Dead) H"
    using runs unfolding runs_ta_def by (auto elim!: lets_be_mono simp: elsewhere_def)
  moreover have "res \<noteq> TEE_SUCCESS \<and> st w' = Dead"
    if "length ps = 4" "st w = Dead" "env_invoke H c types ps w = ((res, qs), w')" for c types ps w res qs w'
    using runs that commanded_dead unfolding runs_ta_def by metis
  ultimately show "target_dead_law H (\<lambda>w. st w = Dead)" unfolding target_dead_law_def by blast
qed

section \<open>The loop\<close>

primrec main_steps :: "('w, 'j) host_env \<Rightarrow> bytes list \<Rightarrow> nat \<Rightarrow> main_pc \<Rightarrow> ('w edge, main_pc) state" where
  "main_steps H args 0 pc = State_Monad.return pc"
| "main_steps H args (Suc n) pc = do {
     pc \<leftarrow> main_step H args pc;
     main_steps H args n pc }"

lemma main_steps_reach:
  "main_reach H args pc s \<Longrightarrow> run_state (main_steps H args n pc) s = (pc', t) \<Longrightarrow> main_reach H args pc' t"
proof (induction n arbitrary: pc s)
  case (Suc n)
  obtain pc1 u where u: "run_state (main_step H args pc) s = (pc1, u)" by (metis prod.exhaust)
  with Suc.prems have "run_state (main_steps H args n pc1) u = (pc', t)" by simp
  with Suc.IH [OF main_reach.step [OF Suc.prems(1) u]] show ?case by simp
qed simp

context dead_session begin

lemma refused: "dead w \<Longrightarrow> env_invoke H c types ps w = ((res, qs), w') \<Longrightarrow> length ps = 4 \<Longrightarrow> res \<noteq> TEE_SUCCESS"
  using law unfolding target_dead_law_def by blast

lemma dead_call:
  assumes "dead (hw s)" "run_state (edge_call_ta H n) s = (r, t)"
  shows "r = None \<and> calm s t"
proof -
  have "wp (edge_call_ta H n) (\<lambda>r t. r = None \<and> calm s t) s"
    using refused [OF assms(1)]
    by (auto simp: edge_call_ta_def ta_read_and_protect_encode_def teec_invoke_def calm_def calm_events_def
        split: prod.splits dest: refused [OF assms(1)])
  from wp_run [OF this assms(2)] show ?thesis .
qed

lemma dead_push:
  assumes dead: "dead (hw s)" and run: "run_state (push_iter H i) s = (pc, t)"
  shows "pc = Pushing i \<and> calm s t \<and> stays_dead dead s t"
proof -
  obtain rc u where e: "run_state (edge_ensure_session H) s = (rc, u)" by (metis prod.exhaust)
  have 1: "calm s u" by (rule boundedD [OF calm_ensure e])
  have u: "dead (hw u)" using boundedD [OF step_session(1) e] dead by (simp add: stays_dead_def)
  obtain r v where c: "run_state (edge_call_ta H 512) u = (r, v)" by (metis prod.exhaust)
  have 2: "r = None" "calm u v" using dead_call [OF u c] by simp_all
  have 3: "stays_dead dead s t" by (rule boundedD [OF step_push run])
  obtain x y where rst: "run_state (edge_reset_connection H) u = (x, y)" by (metis prod.exhaust)
  have 4: "calm u y" by (rule boundedD [OF calm_reset rst])
  from run e c rst 2(1) have "pc = Pushing i \<and> (\<exists>z \<in> {v, y}. log t = log z)"
    by (auto simp: push_iter_def split: if_splits)
  with 1 2(2) 4 3 show ?thesis by (fastforce simp: calm_def calm_events_def)
qed

lemma dead_rounds:
  "dead (hw s) \<Longrightarrow> run_state (main_steps H args n (Pushing i)) s = (pc, t) \<Longrightarrow>
   pc = Pushing i \<and> calm s t \<and> dead (hw t) \<and> stays_dead dead s t"
proof (induction n arbitrary: s)
  case (Suc n)
  obtain q u where u: "run_state (push_iter H i) s = (q, u)" by (metis prod.exhaust)
  note one = dead_push [OF Suc.prems(1) u]
  then have "run_state (main_steps H args n (Pushing i)) u = (pc, t)" "dead (hw u)"
    using Suc.prems u by (simp_all add: stays_dead_def)
  with Suc.IH one show ?case by (blast intro: calm.R_trans R_trans)
qed (simp add: calm.R_refl R_refl)

end

end
