(* ===== verification/HostConfig.thy ===== *)
theory HostConfig
  imports HostEdge
begin

text \<open>
  The configuration of the Host against a reference: the file is a list of lines, a line with
  an equals sign assigns to its key, the last assignment counts, and the environment wins over
  the file. The code reads the file in pieces of at most 255 bytes; the two agree when no line
  is longer than one piece.
\<close>

section \<open>The reference\<close>

fun split_lines :: "bytes \<Rightarrow> bytes list" where
  "split_lines [] = []"
| "split_lines (b # bs) = (if b = 10 then [] # split_lines bs
     else case split_lines bs of [] \<Rightarrow> [[b]] | l # ls \<Rightarrow> (b # l) # ls)"

definition assignment :: "bytes \<Rightarrow> (bytes \<times> bytes) option" where
  "assignment l = (if 61 \<in> set l then Some (takeWhile (\<lambda>b. b \<noteq> 61) l, tl (dropWhile (\<lambda>b. b \<noteq> 61) l)) else None)"

definition file_settings :: "bytes \<Rightarrow> (bytes \<times> bytes) list" where
  "file_settings content = List.map_filter assignment (split_lines content)"

definition configured :: "('w, 'j) host_env \<Rightarrow> bytes option \<Rightarrow> string \<Rightarrow> string \<Rightarrow> bytes option" where
  "configured H file name key = (case env_getenv H name of
     Some v \<Rightarrow> Some v
   | None \<Rightarrow> (case file of None \<Rightarrow> None | Some content \<Rightarrow> map_of (rev (file_settings content)) (ascii key)))"

section \<open>Lines\<close>

lemma split_lines_newline: "10 \<notin> set l \<Longrightarrow> split_lines (l @ 10 # rest) = l # split_lines rest"
  by (induction l) simp_all

lemma split_lines_last: "10 \<notin> set l \<Longrightarrow> l \<noteq> [] \<Longrightarrow> split_lines l = [l]"
proof (induction l)
  case (Cons b l)
  then show ?case by (cases l) auto
qed simp

lemma fgets_line: "10 \<notin> set l \<Longrightarrow> Suc (length l) < n \<Longrightarrow> fgets n (l @ 10 # rest) = l @ [10]"
proof -
  assume l: "10 \<notin> set l" "Suc (length l) < n"
  then have "takeWhile (\<lambda>b. b \<noteq> 10) (l @ 10 # r) = l" for r by (subst takeWhile_append2) auto
  moreover have "take (n - 1) (l @ 10 # rest) = l @ 10 # take (n - 2 - length l) rest"
    using l(2) by (simp add: take_Cons' numeral_2_eq_2)
  ultimately show ?thesis using l(2) by (simp add: fgets_def Let_def)
qed

lemma fgets_last: "10 \<notin> set l \<Longrightarrow> length l < n \<Longrightarrow> fgets n l = l"
proof -
  assume l: "10 \<notin> set l" "length l < n"
  then have "takeWhile (\<lambda>b. b \<noteq> 10) l = l" by (simp only: takeWhile_eq_all_conv) auto
  moreover have "take (n - 1) l = l" using l by simp
  ultimately show ?thesis by (simp only: fgets_def Let_def) (use l in simp)
qed

text \<open>One line of the file, with or without its newline.\<close>

lemma takeWhile_line: "(10 :: u8) \<notin> set l \<Longrightarrow> e = [] \<or> e = [10] \<Longrightarrow> takeWhile (\<lambda>b. b \<noteq> 10) (drop n l @ e) = drop n l"
  by (subst takeWhile_append2) (auto dest: in_set_dropD)

lemma config_line_assignment:
  assumes l: "10 \<notin> set l" "0 \<notin> set l" and e: "e = [] \<or> e = [10]"
  shows "config_line (l @ e) s = (case assignment l of None \<Rightarrow> s | Some (k, v) \<Rightarrow> apply_setting k v s)"
proof -
  have c: "c_string (l @ e) = l @ e"
    using l(2) e unfolding c_string_def by (subst takeWhile_eq_all_conv) auto
  show ?thesis
  proof (cases "61 \<in> set l")
    case True
    let ?k = "takeWhile (\<lambda>b. b \<noteq> 61) l"
    have k: "takeWhile (\<lambda>b. b \<noteq> 61) (l @ e) = ?k" using True by (auto intro: takeWhile_append1)
    have less: "length ?k < length l"
      using True by (induction l) auto
    then have "?k \<noteq> l @ e" by auto
    moreover have "drop (Suc (length ?k)) (l @ e) = drop (Suc (length ?k)) l @ e" using less by simp
    moreover have "drop (Suc (length ?k)) l = tl (dropWhile (\<lambda>b. b \<noteq> 61) l)"
      by (simp add: drop_Suc dropWhile_eq_drop tl_drop)
    ultimately show ?thesis
      using True takeWhile_line [OF l(1) e, of "Suc (length ?k)"] by (auto simp: config_line_def c k Let_def assignment_def)
  next
    case False
    then have "takeWhile (\<lambda>b. b \<noteq> 61) (l @ e) = l @ e" using e by (subst takeWhile_eq_all_conv) auto
    with False show ?thesis by (simp add: config_line_def c Let_def assignment_def)
  qed
qed

definition assign :: "(bytes \<times> bytes) list \<Rightarrow> 'w edge \<Rightarrow> 'w edge" where
  "assign kvs = fold (\<lambda>(k, v). apply_setting k v) kvs"

lemma fold_config_lines:
  fixes s :: "'w edge"
  assumes "\<forall>l \<in> set (split_lines content). length l < 255" "0 \<notin> set content"
  shows "fold config_line (config_lines content) s = assign (file_settings content) s"
  using assms
proof (induction content arbitrary: s rule: length_induct)
  case (1 content)
  show ?case
  proof (cases "10 \<in> set content")
    case True
    then obtain l rest where c: "content = l @ 10 # rest" "10 \<notin> set l" by (meson split_list_first)
    have l: "length l < 255" "\<forall>l \<in> set (split_lines rest). length l < 255" "0 \<notin> set l" "0 \<notin> set rest"
      using "1.prems" c split_lines_newline [OF c(2)] by auto
    have "config_lines content = (l @ [10]) # config_lines rest"
      using fgets_line [OF c(2), of 256 rest] l(1) unfolding c(1) by (subst config_lines.simps) simp
    moreover have "file_settings content = (case assignment l of None \<Rightarrow> file_settings rest | Some kv \<Rightarrow> kv # file_settings rest)"
      by (simp add: file_settings_def c split_lines_newline [OF c(2)] List.map_filter_simps split: option.split)
    moreover have "fold config_line (config_lines rest) u = assign (file_settings rest) u" for u :: "'w edge"
      using "1.IH" [rule_format, of rest u] l(2,4) c(1) by simp
    ultimately show ?thesis
      by (simp add: assign_def config_line_assignment [OF c(2) l(3)] split: option.split)
  next
    case False
    show ?thesis
    proof (cases "content = []")
      case True
      then show ?thesis by (simp add: config_lines.simps [of "[]"] file_settings_def List.map_filter_simps assign_def)
    next
      case line: False
      then have s: "split_lines content = [content]" by (rule split_lines_last [OF False])
      then have "config_lines content = [content]"
        using "1.prems" fgets_last [OF False, of 256] line
        by (simp add: config_lines.simps [of content] config_lines.simps [of "[]"])
      moreover have "0 \<notin> set content" using "1.prems" by simp
      ultimately show ?thesis
        using s config_line_assignment [OF False _ disjI1 [OF refl], of s]
        by (simp add: file_settings_def List.map_filter_simps assign_def split: option.split)
    qed
  qed
qed

section \<open>The last assignment counts\<close>

lemma config_keys:
  "distinct [ascii ''device_id'', ascii ''server_host'', ascii ''server_port'', ascii ''ak_handle'', ascii ''admin_port'']"
  by code_simp

definition setting :: "('w edge \<Rightarrow> 'a) \<Rightarrow> string \<Rightarrow> (bytes \<Rightarrow> 'a) \<Rightarrow> bool" where
  "setting field key conv \<longleftrightarrow>
     (\<forall>k v s. field (apply_setting k v s) = (if k = ascii key then conv v else field s))"

lemma settings:
  "setting g_device_id ''device_id'' (snprintf 64)" "setting g_server_host ''server_host'' (snprintf 64)"
  "setting g_server_port ''server_port'' (\<lambda>v. word_of_int (atoi v))" "setting g_ak_handle ''ak_handle'' (snprintf 32)"
  "setting g_admin_port ''admin_port'' (\<lambda>v. word_of_int (atoi v))"
  using config_keys by (auto simp: setting_def apply_setting_def)

lemma assign_last:
  assumes "setting field key conv"
  shows "field (assign kvs s) = (case map_of (rev kvs) (ascii key) of None \<Rightarrow> field s | Some v \<Rightarrow> conv v)"
proof (induction kvs arbitrary: s)
  case (Cons kv kvs)
  then show ?case
    using assms by (cases kv) (simp add: assign_def setting_def map_add_def split: option.split)
qed (simp add: assign_def)

definition env_settings :: "(string \<times> string) list" where
  "env_settings = [(''CIOT_DEVICE_ID'', ''device_id''), (''CIOT_SERVER_HOST'', ''server_host''),
     (''CIOT_SERVER_PORT'', ''server_port''), (''CIOT_AK_HANDLE'', ''ak_handle''), (''CIOT_ADMIN_PORT'', ''admin_port'')]"

lemma env_settings_keys:
  assumes "(n, k) \<in> set env_settings" "(n', k') \<in> set env_settings"
  shows "ascii k = ascii k' \<longleftrightarrow> n = n'" "k = k' \<longleftrightarrow> n = n'"
proof -
  have "list_all (\<lambda>(n, k). list_all (\<lambda>(n', k'). (ascii k = ascii k') = (n = n') \<and> (k = k') = (n = n')) env_settings) env_settings"
    by code_simp
  with assms show "ascii k = ascii k' \<longleftrightarrow> n = n'" "k = k' \<longleftrightarrow> n = n'" by (auto simp: list_all_iff)
qed

text \<open>A setting after the file and the environment have been read.\<close>

lemma from_env_field:
  assumes "setting field key conv"
  shows "field (from_env H name key s) = (case env_getenv H name of None \<Rightarrow> field s | Some v \<Rightarrow> conv v)"
    and "ascii key' \<noteq> ascii key \<Longrightarrow> field (from_env H name key' s) = field s"
  using assms by (simp_all add: from_env_def setting_def split: option.split)

lemma load_config_field:
  assumes conf: "file = fst (env_fopen H (ascii ''/etc/confidential_iot/device.conf'') (hw s))"
    and ok: "\<And>content. file = Some content \<Longrightarrow> (\<forall>l \<in> set (split_lines content). length l < 255) \<and> 0 \<notin> set content"
    and run: "run_state (load_config H) s = (x, t)" and field: "setting field key conv" "\<And>w. field (s\<lparr>hw := w\<rparr>) = field s"
    and name: "(name, key) \<in> set env_settings"
  shows "field t = (case configured H file name key of None \<Rightarrow> field s | Some v \<Rightarrow> conv v)"
proof -
  let ?s = "s\<lparr>hw := snd (env_fopen H (ascii ''/etc/confidential_iot/device.conf'') (hw s))\<rparr>"
  let ?u = "case file of None \<Rightarrow> ?s | Some content \<Rightarrow> assign (file_settings content) ?s"
  have t: "t = from_env H ''CIOT_ADMIN_PORT'' ''admin_port'' (from_env H ''CIOT_AK_HANDLE'' ''ak_handle''
     (from_env H ''CIOT_SERVER_PORT'' ''server_port'' (from_env H ''CIOT_SERVER_HOST'' ''server_host''
     (from_env H ''CIOT_DEVICE_ID'' ''device_id'' ?u))))"
    using run ok conf by (auto simp: load_config_def fold_config_lines split: option.splits)
  have "field t = (case env_getenv H name of None \<Rightarrow> field ?u | Some v \<Rightarrow> conv v)"
  proof -
    have "field (from_env H n k u) = (if n = name then case env_getenv H name of None \<Rightarrow> field u | Some v \<Rightarrow> conv v else field u)"
      if "(n, k) \<in> set env_settings" for n k u
    proof (cases "n = name")
      case True
      with env_settings_keys(2) [OF that name] have "k = key" by simp
      with True from_env_field(1) [OF field(1)] show ?thesis by simp
    next
      case False
      with env_settings_keys(1) [OF that name] have "ascii k \<noteq> ascii key" by simp
      with False from_env_field(2) [OF field(1)] show ?thesis by simp
    qed
    then have others: "(n, k) \<in> set env_settings \<Longrightarrow> field (from_env H n k u) =
        (if n = name then case env_getenv H name of None \<Rightarrow> field u | Some v \<Rightarrow> conv v else field u)" for n k u
      by blast
    have "name \<in> fst ` set env_settings" using name by force
    then show ?thesis unfolding t
      by (simp only: env_settings_def list.set image_insert image_empty fst_conv)
        (elim insertE emptyE; simp add: others env_settings_def split: option.split)
  qed
  moreover have "field ?u = (case file of None \<Rightarrow> field s | Some content \<Rightarrow>
      (case map_of (rev (file_settings content)) (ascii key) of None \<Rightarrow> field s | Some v \<Rightarrow> conv v))"
    using field(2) by (simp add: assign_last [OF field(1)] split: option.split)
  ultimately show ?thesis by (simp add: configured_def split: option.split)
qed

end
