(* ===== verification/SecureLine.thy ===== *)
theory SecureLine
  imports SensorDaemon TaDispatch
begin

text \<open>
  The two ends of the secure UART joined: the daemon runs on a line whose other end is the
  UART of the PTA, and acts while the PTA sleeps in its polling loop. \<open>sensor_attached\<close> says of
  a platform that its UART is such a line; \<open>cooperative\<close> says that nothing else fails.
\<close>

section \<open>The line\<close>

record line =
  to_sensor :: bytes
  to_device :: bytes
  wall :: int

text \<open>
  The socket of the daemon on the line. A read is only made when its bytes are there, the
  daemon being asleep in \<open>select\<close> or in the read until then.
\<close>

definition line_os :: "(bytes \<Rightarrow> bytes \<Rightarrow> bytes option) \<Rightarrow> line host_os" where
  "line_os hm =
     \<lparr>os_read = (\<lambda>n L. (Some (take n (to_sensor L)), L\<lparr>to_sensor := drop n (to_sensor L)\<rparr>)),
      os_write = (\<lambda>bs L. (Some (length bs), L\<lparr>to_device := to_device L @ bs\<rparr>)),
      os_select = (\<lambda>L. (if to_sensor L = [] then SelectTimeout else SelectReadable, L)),
      os_time = (\<lambda>L. (wall L, L)),
      os_accept = (\<lambda>L. (Accepted, L)), os_close = (\<lambda>L. L), os_hmac = hm\<rparr>"

type_synonym sensor = "daemon_pc \<times> line daemon"

definition turn :: "(bytes \<Rightarrow> bytes \<Rightarrow> bytes option) \<Rightarrow> sensor \<Rightarrow> sensor" where
  "turn hm x = run_state (daemon_step (line_os hm) (fst x)) (snd x)"

definition on_line :: "(line \<Rightarrow> line) \<Rightarrow> sensor \<Rightarrow> sensor" where
  "on_line f = map_prod id (\<lambda>d. d\<lparr>dext := f (dext d)\<rparr>)"

abbreviation outbox :: "sensor \<Rightarrow> bytes" where
  "outbox x \<equiv> to_device (dext (snd x))"

abbreviation feed :: "bytes \<Rightarrow> sensor \<Rightarrow> sensor" where
  "feed bs \<equiv> on_line (\<lambda>L. L\<lparr>to_sensor := to_sensor L @ bs\<rparr>)"

abbreviation drain :: "nat \<Rightarrow> sensor \<Rightarrow> sensor" where
  "drain n \<equiv> on_line (\<lambda>L. L\<lparr>to_device := drop n (to_device L)\<rparr>)"

lemma on_line_simps [simp]:
  "on_line f (pc, d) = (pc, d\<lparr>dext := f (dext d)\<rparr>)" "dext (snd (on_line f x)) = f (dext (snd x))"
  "on_line g (on_line f x) = on_line (\<lambda>L. g (f L)) x"
  by (cases x; simp add: on_line_def)+

text \<open>
  The device's end of the line: what the sensor has put on it is there to be taken, oldest byte
  first, and taking it is all that the receiving calls of the UART do. Nothing is said of how
  much the line holds.
\<close>

definition uart_drains :: "'e platform \<Rightarrow> ('e \<Rightarrow> sensor) \<Rightarrow> bool" where
  "uart_drains P D \<longleftrightarrow>
     (\<forall>e. D (p_uart_init P e) = D e) \<and>
     (\<forall>e. fst (p_uart_have_rx P e) = (outbox (D e) \<noteq> []) \<and> D (snd (p_uart_have_rx P e)) = D e) \<and>
     (\<forall>e. outbox (D e) \<noteq> [] \<longrightarrow> fst (p_uart_getchar P e) = hd (outbox (D e)) \<and>
        D (snd (p_uart_getchar P e)) = drain 1 (D e))"

text \<open>
  The laws of a sensor that answers. A byte put on the UART reaches the sensor; a byte of the outbox
  is there to be taken; during a delay of a millisecond the daemon makes one step or stays where it
  is, and it does not stay for as long as the polling loop waits. They are meant for exchanges of
  one frame at a time, while nothing is pushed; readings that pile up are Cadence.
\<close>

definition sensor_attached ::
    "'e platform \<Rightarrow> (bytes \<Rightarrow> bytes \<Rightarrow> bytes option) \<Rightarrow> ('e \<Rightarrow> sensor) \<Rightarrow> ('e \<Rightarrow> nat) \<Rightarrow> bool" where
  "sensor_attached P hm D lag \<longleftrightarrow>
     (\<forall>b e. D (p_uart_putc P b e) = feed [b] (D e)) \<and>
     (\<forall>e. D (p_uart_flush P e) = D e) \<and> (\<forall>e. D (p_uart_init P e) = D e) \<and>
     (\<forall>e. fst (p_uart_have_rx P e) = (outbox (D e) \<noteq> []) \<and> D (snd (p_uart_have_rx P e)) = D e \<and>
        lag (snd (p_uart_have_rx P e)) = lag e) \<and>
     (\<forall>e. outbox (D e) \<noteq> [] \<longrightarrow> fst (p_uart_getchar P e) = hd (outbox (D e)) \<and>
        D (snd (p_uart_getchar P e)) = drain 1 (D e)) \<and>
     (\<forall>e. D (p_mdelay P POLL_STEP_MS e) = turn hm (D e) \<or>
        D (p_mdelay P POLL_STEP_MS e) = D e \<and> lag (p_mdelay P POLL_STEP_MS e) < lag e) \<and>
     (\<forall>e. lag e < READ_TIMEOUT_MS)"

definition cooperative :: "'e storage_view \<Rightarrow> ('e \<Rightarrow> 'd) \<Rightarrow> 'e platform \<Rightarrow> bool" where
  "cooperative V D P \<longleftrightarrow>
     (\<forall>c e. fst (p_result P c e) = TEE_SUCCESS \<and> V (snd (p_result P c e)) = V e \<and> D (snd (p_result P c e)) = D e) \<and>
     (\<forall>i e. fst (p_open P i e) = (if V e i = None then TEE_ERROR_ITEM_NOT_FOUND else TEE_SUCCESS) \<and>
        V (snd (p_open P i e)) = V e \<and> D (snd (p_open P i e)) = D e) \<and>
     (\<forall>i n e c. V e i = Some c \<longrightarrow> fst (p_read P i n e) = (TEE_SUCCESS, take n c)) \<and>
     (\<forall>i n e. V (snd (p_read P i n e)) = V e \<and> D (snd (p_read P i n e)) = D e) \<and>
     (\<forall>i fl d e. V e i = None \<longrightarrow> fst (p_create P i fl d e) = TEE_SUCCESS \<and>
        V (snd (p_create P i fl d e)) = (V e)(i \<mapsto> d)) \<and>
     (\<forall>i fl d e. D (snd (p_create P i fl d e)) = D e) \<and>
     (\<forall>n e. length (fst (p_random P n e)) = n \<and> V (snd (p_random P n e)) = V e \<and> D (snd (p_random P n e)) = D e) \<and>
     (\<forall>e. V (p_uart_init P e) = V e) \<and> (\<forall>b e. V (p_uart_putc P b e) = V e) \<and> (\<forall>e. V (p_uart_flush P e) = V e) \<and>
     (\<forall>e. V (snd (p_uart_have_rx P e)) = V e) \<and> (\<forall>e. V (snd (p_uart_getchar P e)) = V e) \<and>
     (\<forall>n e. V (p_mdelay P n e) = V e)"

section \<open>The daemon on the line\<close>

lemma frame_header_nonempty [simp]: "frame_header ty n \<noteq> []"
  by (simp add: frame_header_def)

lemma line_os_fields [simp]:
  "os_read (line_os hm) n L = (Some (take n (to_sensor L)), L\<lparr>to_sensor := drop n (to_sensor L)\<rparr>)"
  "os_write (line_os hm) bs L = (Some (length bs), L\<lparr>to_device := to_device L @ bs\<rparr>)"
  "os_select (line_os hm) L = (if to_sensor L = [] then SelectTimeout else SelectReadable, L)"
  "os_time (line_os hm) L = (wall L, L)" "os_hmac (line_os hm) = hm"
  by (simp_all add: line_os_def)

lemma read_full_line:
  "0 < n \<Longrightarrow> n \<le> length (to_sensor (dext d)) \<Longrightarrow>
   run_state (read_full (line_os hm) n []) d =
     (Some (take n (to_sensor (dext d))), d\<lparr>dext := (dext d)\<lparr>to_sensor := drop n (to_sensor (dext d))\<rparr>\<rparr>)"
  by (auto simp: read_full.simps [of "line_os hm" n "[]"] read_full.simps [of "line_os hm" n "take n _"] min_def)

lemma write_full_line:
  "run_state (write_full (line_os hm) bs) d = (0, d\<lparr>dext := (dext d)\<lparr>to_device := to_device (dext d) @ bs\<rparr>\<rparr>)"
  by (simp add: write_full.simps [of "line_os hm" bs] write_full.simps [of "line_os hm" "[]"])

lemma write_frame_line:
  "length p < 65536 \<Longrightarrow> run_state (daemon_write_frame (line_os hm) ty p) d =
     (0, d\<lparr>frames := frames d @ [(conns d, ty, p)], dext := (dext d)\<lparr>to_device := to_device (dext d) @ encode_frame ty p\<rparr>\<rparr>)"
  by (simp add: daemon_write_frame_def write_full_line encode_frame_def)

text \<open>A request for the secret, in the first connection and before it was served.\<close>

lemma turn_secret:
  assumes "\<not> g_secret_served d" "\<not> g_secret_window_closed d" "\<not> authenticated l" "length (g_secret d) < 65536"
    and "to_sensor (dext d) = encode_frame FRAME_SECRET_REQUEST []"
  shows "turn hm (Serving l, d) = (Serving l, d\<lparr>g_secret_served := True,
    frames := frames d @ [(conns d, FRAME_SECRET, g_secret d)],
    dext := (dext d)\<lparr>to_sensor := [], to_device := to_device (dext d) @ encode_frame FRAME_SECRET (g_secret d)\<rparr>\<rparr>)"
  using assms
  by (simp add: turn_def serve_iter_def read_full_line encode_frame_def serve_frame_def Let_def frame_types
      handle_secret_request_def write_frame_line serve_tail_def)

lemma turn_challenge:
  assumes "\<not> authenticated l" "length c = CHALLENGE_SIZE" "hm (g_secret d) c = Some r" "length r = HMAC_SIZE"
    and "to_sensor (dext d) = encode_frame FRAME_CHALLENGE c"
  shows "turn hm (Serving l, d) = (Serving (l\<lparr>authenticated := True, last_reading := wall (dext d)\<rparr>),
    d\<lparr>frames := frames d @ [(conns d, FRAME_CHALLENGE_RESPONSE, r)],
      dext := (dext d)\<lparr>to_sensor := [], to_device := to_device (dext d) @ encode_frame FRAME_CHALLENGE_RESPONSE r\<rparr>\<rparr>)"
  using assms
  by (simp add: turn_def serve_iter_def read_full_line encode_frame_def serve_frame_def Let_def frame_types
      handle_challenge_def write_frame_line serve_tail_def)

section \<open>The PTA takes from the line\<close>

locale line_reader =
  fixes P :: "'e platform" and D :: "'e \<Rightarrow> sensor" and V :: "'e storage_view"
  assumes drains: "uart_drains P D"
    and kept: "V (p_uart_init P e) = V e" "V (snd (p_uart_have_rx P e)) = V e" "V (snd (p_uart_getchar P e)) = V e"
begin

declare wp_ext_op [simp] kept [simp]

text \<open>Only the link has moved, and the other end of it is in state \<open>x\<close>.\<close>

definition moved :: "('e, 'm) world_scheme \<Rightarrow> sensor \<Rightarrow> ('e, 'm) world_scheme \<Rightarrow> bool" where
  "moved s x t \<longleftrightarrow> world.more t = world.more s \<and> V (ext t) = V (ext s) \<and> D (ext t) = x"

lemma drain_fields [simp]:
  "D (p_uart_init P e) = D e" "fst (p_uart_have_rx P e) = (outbox (D e) \<noteq> [])" "D (snd (p_uart_have_rx P e)) = D e"
  "outbox (D e) \<noteq> [] \<Longrightarrow> fst (p_uart_getchar P e) = hd (outbox (D e))"
  "outbox (D e) \<noteq> [] \<Longrightarrow> D (snd (p_uart_getchar P e)) = drain 1 (D e)"
  using drains by (simp_all add: uart_drains_def)

text \<open>Bytes that have arrived.\<close>

lemma wp_read_loop:
  assumes "outbox (D (ext s)) = bs @ rest" "length got + length bs = len"
    and "\<And>t. moved s (drain (length bs) (D (ext s))) t \<Longrightarrow> Q (True, got @ bs) t"
  shows "wp (uart_read_loop P len got w) Q s"
  using assms
proof (induction bs arbitrary: got s)
  case Nil
  have "drain 0 x = x" for x :: sensor by (cases x) simp
  then have "moved s (drain (length []) (D (ext s))) s" by (simp add: moved_def)
  with Nil show ?case by (simp add: uart_read_loop.simps [of P len got])
next
  case (Cons b bs)
  have "wp (uart_read_loop P len (got @ [b]) w) Q u" if u: "moved s (drain 1 (D (ext s))) u" for u
  proof (rule Cons.IH)
    show "outbox (D (ext u)) = bs @ rest" "length (got @ [b]) + length bs = len"
      using u Cons.prems(1,2) by (simp_all add: moved_def)
    fix t
    assume "moved u (drain (length bs) (D (ext u))) t"
    with u have "moved s (drain (length (b # bs)) (D (ext s))) t" by (simp add: moved_def drop_Suc drop_tl)
    with Cons.prems(3) [of t] show "Q (True, (got @ [b]) @ bs) t" by simp
  qed
  with Cons.prems(1,2) show ?case
    by (simp add: uart_read_loop.simps [of P len got] uart_getchar_def moved_def)
qed

text \<open>A frame whose header is read with the sensor in state \<open>z\<close>.\<close>

lemma wp_read_frame_from:
  assumes hdr: "\<And>R. (\<And>t. moved s (drain 3 z) t \<Longrightarrow> R (True, frame_header ty (of_nat (length p))) t) \<Longrightarrow>
      wp (uart_read_loop P 3 [] 0) R s"
    and sent: "outbox z = encode_frame ty p @ rest" and p: "p \<noteq> []" "length p \<le> LINK_READING_MAX" "length p \<le> cap"
    and Q: "\<And>t. moved s (drain (3 + length p) z) t \<Longrightarrow> Q (True, p) t"
  shows "wp (read_frame P ty cap) Q s"
proof -
  have len: "unat (frame_length (frame_header ty (of_nat (length p)))) = length p" using p by (simp add: unat_frame_len)
  have rest: "wp (uart_read P (length p)) Q u" if u: "moved s (drain 3 z) u" for u
    unfolding uart_read_def
  proof (rule wp_read_loop [of _ p rest])
    show "outbox (D (ext u)) = p @ rest" using u sent by (simp add: moved_def encode_frame_def)
    fix t
    assume "moved u (drain (length p) (D (ext u))) t"
    with u have "moved s (drain (3 + length p) z) t" by (simp add: moved_def add.commute)
    with Q show "Q (True, [] @ p) t" by simp
  qed simp
  show ?thesis
    unfolding read_frame_def wp_bind FRAME_HDR_SIZE_def unfolding uart_read_def [of P 3]
    by (rule hdr) (use rest len p in \<open>simp add: Let_def\<close>)
qed

lemma wp_read_ready:
  assumes "outbox (D (ext s)) = encode_frame ty p @ rest" "p \<noteq> []" "length p \<le> LINK_READING_MAX" "length p \<le> cap"
    and "\<And>t. moved s (drain (3 + length p) (D (ext s))) t \<Longrightarrow> Q (True, p) t"
  shows "wp (read_frame P ty cap) Q s"
proof (rule wp_read_frame_from [of s "D (ext s)" ty p rest])
  show "wp (uart_read_loop P 3 [] 0) R s"
    if "\<And>t. moved s (drain 3 (D (ext s))) t \<Longrightarrow> R (True, frame_header ty (of_nat (length p))) t" for R
    by (rule wp_read_loop [of _ "frame_header ty (of_nat (length p))" "p @ rest"])
      (use assms(1) that in \<open>simp_all add: encode_frame_def\<close>)
qed (use assms in simp_all)

end

section \<open>The PTA on the line\<close>

locale secure_line =
  fixes P :: "'e platform" and hm :: "bytes \<Rightarrow> bytes \<Rightarrow> bytes option" and D :: "'e \<Rightarrow> sensor"
    and lag :: "'e \<Rightarrow> nat" and V :: "'e storage_view"
  assumes attached: "sensor_attached P hm D lag" and coop: "cooperative V D P"
begin

declare wp_ext_op [simp]

lemma reads: "line_reader P D V"
  by unfold_locales (use attached coop in \<open>simp_all add: sensor_attached_def uart_drains_def cooperative_def\<close>)

end

sublocale secure_line \<subseteq> line_reader P D V
  by (rule reads)

context secure_line begin

declare wp_ext_op [simp]

lemma uart_fields [simp]:
  "D (p_uart_putc P b e) = feed [b] (D e)" "D (p_uart_flush P e) = D e" "D (p_uart_init P e) = D e"
  "fst (p_uart_have_rx P e) = (outbox (D e) \<noteq> [])" "D (snd (p_uart_have_rx P e)) = D e"
  "lag (snd (p_uart_have_rx P e)) = lag e" "lag e < 2000"
  using attached by (simp_all add: sensor_attached_def)

lemma coop_fields [simp]:
  "fst (p_result P c e) = TEE_SUCCESS" "V (snd (p_result P c e)) = V e" "D (snd (p_result P c e)) = D e"
  "fst (p_open P i e) = (if V e i = None then TEE_ERROR_ITEM_NOT_FOUND else TEE_SUCCESS)"
  "V (snd (p_open P i e)) = V e" "D (snd (p_open P i e)) = D e"
  "V e i = Some w \<Longrightarrow> fst (p_read P i n e) = (TEE_SUCCESS, take n w)"
  "V (snd (p_read P i n e)) = V e" "D (snd (p_read P i n e)) = D e"
  "V e i = None \<Longrightarrow> fst (p_create P i fl d e) = TEE_SUCCESS"
  "V e i = None \<Longrightarrow> V (snd (p_create P i fl d e)) = (V e)(i \<mapsto> d)" "D (snd (p_create P i fl d e)) = D e"
  "length (fst (p_random P n e)) = n" "V (snd (p_random P n e)) = V e" "D (snd (p_random P n e)) = D e"
  "V (p_uart_init P e) = V e" "V (p_uart_putc P b e) = V e" "V (p_uart_flush P e) = V e"
  "V (snd (p_uart_have_rx P e)) = V e" "V (snd (p_uart_getchar P e)) = V e" "V (p_mdelay P n e) = V e"
  using coop by (simp_all add: cooperative_def)

lemma wp_uart_put_all:
  "(\<And>t. moved s (feed bs (D (ext s))) t \<Longrightarrow> Q () t) \<Longrightarrow> wp (uart_put_all P bs) Q s"
proof (induction bs arbitrary: s)
  case Nil
  have "feed [] x = x" for x :: sensor by (cases x) simp
  then have "moved s (feed [] (D (ext s))) s" by (simp add: moved_def)
  with Nil show ?case by simp
next
  case (Cons b bs)
  show ?case by (simp add: uart_putc_def, rule Cons.IH, rule Cons.prems) (simp add: moved_def)
qed

lemma wp_write_frame:
  assumes "\<And>t. moved s (feed (encode_frame ty p) (D (ext s))) t \<Longrightarrow> Q () t"
  shows "wp (write_frame P ty p) Q s"
proof -
  have id: "feed [] x = x" for x :: sensor by (cases x) simp
  have one: "wp (uart_write P bs) R u" if "\<And>t. moved u (feed bs (D (ext u))) t \<Longrightarrow> R () t" for bs R and u :: "('e, 'c) world_scheme"
    using that by (simp add: uart_write_def) (rule wp_uart_put_all, simp add: moved_def)
  show ?thesis
    unfolding write_frame_def wp_bind by (rule one) (auto intro!: one assms simp: moved_def encode_frame_def)
qed

text \<open>Bytes that will arrive.\<close>

lemma wp_read_waiting:
  assumes "outbox (D (ext s)) = []" "outbox (turn hm (D (ext s))) = bs @ rest" "length bs = len" "0 < len"
    and "lag (ext s) + w < READ_TIMEOUT_MS"
    and "\<And>t. moved s (drain len (turn hm (D (ext s)))) t \<Longrightarrow> Q (True, bs) t"
  shows "wp (uart_read_loop P len [] w) Q s"
  using assms
proof (induction "lag (ext s)" arbitrary: s w rule: less_induct)
  case less
  let ?u = "s\<lparr>ext := snd (p_uart_have_rx P (ext s))\<rparr>"
  let ?v = "s\<lparr>ext := p_mdelay P POLL_STEP_MS (ext ?u), waited := waited s + POLL_STEP_MS\<rparr>"
  have step: "wp (uart_read_loop P len [] w) Q s = wp (uart_read_loop P len [] (w + POLL_STEP_MS)) Q ?v"
    using less.prems by (simp add: uart_read_loop.simps [of P len "[]" w] mdelay_def)
  have "D (ext ?v) = turn hm (D (ext s)) \<or> D (ext ?v) = D (ext s) \<and> lag (ext ?v) < lag (ext s)"
    using attached uart_fields(5,6) [of "ext s"] unfolding sensor_attached_def
    by (metis (no_types, lifting) world.select_convs(1) world.surjective world.update_convs(1) world.update_convs(4))
  then show ?case
  proof
    assume v: "D (ext ?v) = turn hm (D (ext s))"
    show ?thesis unfolding step
    proof (rule wp_read_loop [of _ bs rest])
      show "outbox (D (ext ?v)) = bs @ rest" using less.prems(2) v by simp
      fix t
      assume "moved ?v (drain (length bs) (D (ext ?v))) t"
      with v less.prems(3) have "moved s (drain len (turn hm (D (ext s)))) t" by (simp add: moved_def)
      with less.prems(6) show "Q (True, [] @ bs) t" by simp
    qed (use less.prems in simp)
  next
    assume v: "D (ext ?v) = D (ext s) \<and> lag (ext ?v) < lag (ext s)"
    show ?thesis unfolding step
      by (rule less.hyps) (use v less.prems in \<open>simp_all add: moved_def\<close>)
  qed
qed

lemma wp_read_frame:
  assumes "outbox (D (ext s)) = []" "outbox (turn hm (D (ext s))) = encode_frame ty p"
    and "p \<noteq> []" "length p \<le> LINK_READING_MAX" "length p \<le> cap"
    and "\<And>t. moved s (drain (3 + length p) (turn hm (D (ext s)))) t \<Longrightarrow> Q (True, p) t"
  shows "wp (read_frame P ty cap) Q s"
proof (rule wp_read_frame_from [of s "turn hm (D (ext s))" ty p "[]"])
  show "outbox (turn hm (D (ext s))) = encode_frame ty p @ []" using assms(2) by simp
  show "wp (uart_read_loop P 3 [] 0) R s"
    if "\<And>t. moved s (drain 3 (turn hm (D (ext s)))) t \<Longrightarrow> R (True, frame_header ty (of_nat (length p))) t" for R
    by (rule wp_read_waiting [OF assms(1), of "frame_header ty (of_nat (length p))" p])
      (use assms(2) that in \<open>simp_all add: encode_frame_def\<close>)
qed (use assms in simp_all)

end

end
