(* ===== verification/Pairing.thy ===== *)
theory Pairing
  imports SecureLine Reference
begin

text \<open>
  Pairing from end to end: TA, PTA and daemon on one line. On a device without a secret and in
  the first connection of the daemon, provisioning and authentication both succeed, and what
  is sealed is the secret burned into the sensor.
\<close>

section \<open>The commands of the PTA\<close>

context secure_line begin

declare wp_ext_op [simp]

lemma moved_trans: "moved s x t \<Longrightarrow> moved t y u \<Longrightarrow> moved s y u"
  by (simp add: moved_def)

lemma wp_ensure_init: "(\<And>t. moved s (D (ext s)) t \<Longrightarrow> Q () t) \<Longrightarrow> wp (sensor_uart_ensure_init P) Q s"
  by (simp add: sensor_uart_ensure_init_def moved_def)

text \<open>One request and its answer, the daemon taking its turn in between.\<close>

lemma wp_exchange:
  assumes x: "D (ext s) = x" "outbox x = []"
    and y: "turn hm (feed (encode_frame ty p) x) = y" "outbox y = encode_frame ty' k"
    and k: "k \<noteq> []" "length k \<le> LINK_READING_MAX" "length k \<le> cap"
    and Q: "\<And>t. moved s (drain (3 + length k) y) t \<Longrightarrow> wp (f (True, k)) Q t"
  shows "wp (sensor_uart_ensure_init P) (\<lambda>_. wp (write_frame P ty p \<bind> (\<lambda>_. read_frame P ty' cap \<bind> f)) Q) s"
proof (rule wp_ensure_init, unfold wp_bind, rule wp_write_frame)
  fix t u
  assume "moved s (D (ext s)) t" "moved t (feed (encode_frame ty p) (D (ext t))) u"
  with x have u: "moved s (feed (encode_frame ty p) x) u" by (simp add: moved_def)
  show "wp (read_frame P ty' cap) (\<lambda>r. wp (f r) Q) u"
  proof (rule wp_read_frame)
    show "outbox (D (ext u)) = []" using u x by (simp add: moved_def)
    show "outbox (turn hm (D (ext u))) = encode_frame ty' k" using u y by (simp add: moved_def)
    fix v
    assume "moved u (drain (3 + length k) (turn hm (D (ext u)))) v"
    with u y have "moved s (drain (3 + length k) y) v" by (simp add: moved_def)
    then show "wp (f (True, k)) Q v" by (rule Q)
  qed (use k in simp_all)
qed

lemma wp_fetch_secret:
  assumes "D (ext s) = x" "outbox x = []" "turn hm (feed (encode_frame FRAME_SECRET_REQUEST []) x) = y"
    and "outbox y = encode_frame FRAME_SECRET k" and k: "length k = 32"
    and Q: "\<And>t ps. moved s (drain 35 y) t \<Longrightarrow> mbuf (ps ! 0) = k \<Longrightarrow> msize (ps ! 0) = 32 \<Longrightarrow> Q (TEE_SUCCESS, ps) t"
  shows "wp (sensor_link_fetch_secret P [PT_MEMREF_OUTPUT, PT_NONE, PT_NONE, PT_NONE]
    [\<lparr>mbuf = zeros 32, msize = 32\<rparr>, no_memref, no_memref, no_memref]) Q s"
proof -
  have "splice 0 k (zeros 32) = k" "k \<noteq> []" using k by (auto simp: splice_def)
  with k show ?thesis
    by (simp add: sensor_link_fetch_secret_def) (rule wp_exchange [OF assms(1-4)]; simp add: Q store_out_def set_out_size_def)
qed

lemma wp_challenge:
  assumes "D (ext s) = x" "outbox x = []" "turn hm (feed (encode_frame FRAME_CHALLENGE c) x) = y"
    and "outbox y = encode_frame FRAME_CHALLENGE_RESPONSE k" and k: "length k = 32" and c: "length c = 32"
    and Q: "\<And>t ps. moved s (drain 35 y) t \<Longrightarrow> mbuf (ps ! 1) = k \<Longrightarrow> Q (TEE_SUCCESS, ps) t"
  shows "wp (sensor_link_challenge P [PT_MEMREF_INPUT, PT_MEMREF_OUTPUT, PT_NONE, PT_NONE]
    [\<lparr>mbuf = c, msize = 32\<rparr>, \<lparr>mbuf = zeros 32, msize = 32\<rparr>, no_memref, no_memref]) Q s"
proof -
  have "splice 0 k (zeros 32) = k" "k \<noteq> []" using k by (auto simp: splice_def)
  with k c show ?thesis
    by (simp add: sensor_link_challenge_def) (rule wp_exchange [OF assms(1-4)]; simp add: Q store_out_def set_out_size_def)
qed

section \<open>The commands of the TA\<close>

lemma open_allowed: "open_session (Some \<lparr>is_user_ta = True, caller_uuid = TA_CONFIDENTIAL_IOT_UUID\<rparr>) = TEE_SUCCESS"
  by (simp add: open_session_def TA_CONFIDENTIAL_IOT_UUID_def SENSOR_LINK_ALLOWED_CALLER_UUID_def)

lemma wp_line_open:
  assumes "\<And>t. V (ext t) = V (ext s) \<Longrightarrow> D (ext t) = D (ext s) \<Longrightarrow> Q TEE_SUCCESS t"
  shows "wp (open_sensor_pta P) Q s"
  using assms by (simp add: open_sensor_pta_def open_ta_session_def tee_call_def open_allowed)

lemma wp_provision:
  assumes new: "V (ext s) SENSOR_PSK_OBJID = None" and x: "D (ext s) = x" "outbox x = []"
    and y: "turn hm (feed (encode_frame FRAME_SECRET_REQUEST []) x) = y" "outbox y = encode_frame FRAME_SECRET k" "length k = 32"
  shows "wp (ta_provision_sensor_secret P [PT_NONE, PT_NONE, PT_NONE, PT_NONE])
    (\<lambda>res t. res = TEE_SUCCESS \<and> V (ext t) = (V (ext s))(SENSOR_PSK_OBJID \<mapsto> k) \<and> D (ext t) = drain 35 y) s"
proof -
  have fetch: "wp (sensor_link_fetch_secret P [PT_MEMREF_OUTPUT, PT_NONE, PT_NONE, PT_NONE]
      [\<lparr>mbuf = zeros 32, msize = 32\<rparr>, no_memref, no_memref, no_memref]) R u"
    if u: "V (ext u) = V (ext s)" "D (ext u) = D (ext s)"
      and R: "\<And>t ps. V (ext t) = V (ext s) \<Longrightarrow> D (ext t) = drain 35 y \<Longrightarrow> mbuf (ps ! 0) = k \<Longrightarrow> msize (ps ! 0) = 32 \<Longrightarrow>
        R (TEE_SUCCESS, ps) t" for u :: "'e ta_state" and R
    by (rule wp_fetch_secret [OF _ x(2) y]) (use u x in \<open>auto simp: moved_def intro: R\<close>)
  show ?thesis
    using new
    by (auto simp: ta_provision_sensor_secret_def open_persistent_def invoke_sensor_pta_def tee_call_def invoke_command_def
        create_persistent_def intro!: wp_line_open fetch)
qed

lemma wp_authenticate:
  assumes sealed: "V (ext s) SENSOR_PSK_OBJID = Some k" "length k = 32" and x: "D (ext s) = x" "outbox x = []"
    and y: "\<And>c. length c = 32 \<Longrightarrow> outbox (turn hm (feed (encode_frame FRAME_CHALLENGE c) x)) =
      encode_frame FRAME_CHALLENGE_RESPONSE (p_hmac P k c)"
    and mac: "\<And>c. length (p_hmac P k c) = 32"
  shows "wp (ta_authenticate_sensor P)
    (\<lambda>res t. res = TEE_SUCCESS \<and> sensor_authenticated (sess t) \<and> V (ext t) = V (ext s)) s"
proof -
  have challenge: "wp (sensor_link_challenge P [PT_MEMREF_INPUT, PT_MEMREF_OUTPUT, PT_NONE, PT_NONE]
      [\<lparr>mbuf = c, msize = 32\<rparr>, \<lparr>mbuf = zeros 32, msize = 32\<rparr>, no_memref, no_memref]) R u"
    if c: "length c = 32" and u: "V (ext u) = V (ext s)" "D (ext u) = D (ext s)"
      and R: "\<And>t ps. V (ext t) = V (ext s) \<Longrightarrow> mbuf (ps ! 1) = p_hmac P k c \<Longrightarrow> R (TEE_SUCCESS, ps) t"
    for u :: "'e ta_state" and R c
    by (rule wp_challenge [OF _ x(2) refl y [OF c] mac c]) (use u x in \<open>auto simp: moved_def intro: R\<close>)
  show ?thesis
    using sealed
    by (auto simp: ta_authenticate_sensor_def open_persistent_def read_object_data_def generate_random_def
        challenge_sensor_def invoke_sensor_pta_def tee_call_def invoke_command_def check_response_def alloc_operation_def
        alloc_object_def mac_compare_def mac_out_def intro!: wp_line_open challenge)
qed

section \<open>Pairing\<close>

lemma pairing:
  assumes mac: "hm = (\<lambda>k c. Some (p_hmac P k c))" "\<And>k c. length (p_hmac P k c) = 32"
    and new: "V (ext s) SENSOR_PSK_OBJID = None" and x: "D (ext s) = (Serving l, d)"
    and d: "\<not> authenticated l" "\<not> g_secret_served d" "\<not> g_secret_window_closed d" "length (g_secret d) = 32"
      "to_sensor (dext d) = []" "to_device (dext d) = []"
  shows "wp (TA_InvokeCommandEntryPoint P CMD_PROVISION_SENSOR_SECRET [PT_NONE, PT_NONE, PT_NONE, PT_NONE])
    (\<lambda>r t. r = Ret TEE_SUCCESS \<and> V (ext t) = (V (ext s))(SENSOR_PSK_OBJID \<mapsto> g_secret d) \<and>
       g_secret_served (snd (D (ext t))) \<and>
       (\<forall>u types. ext u = ext t \<longrightarrow> wp (TA_InvokeCommandEntryPoint P CMD_AUTHENTICATE_SENSOR types)
          (\<lambda>r v. r = Ret TEE_SUCCESS \<and> sensor_authenticated (sess v)) u)) s"
proof -
  let ?d = "d\<lparr>dext := (dext d)\<lparr>to_sensor := encode_frame FRAME_SECRET_REQUEST []\<rparr>\<rparr>"
  let ?e = "d\<lparr>g_secret_served := True, frames := frames d @ [(conns d, FRAME_SECRET, g_secret d)],
    dext := (dext d)\<lparr>to_device := encode_frame FRAME_SECRET (g_secret d)\<rparr>\<rparr>"
  have 1: "turn hm (feed (encode_frame FRAME_SECRET_REQUEST []) (Serving l, d)) = (Serving l, ?e)"
    using turn_secret [of ?d l hm] d by simp
  have "V (ext t) = (V (ext s))(SENSOR_PSK_OBJID \<mapsto> g_secret d) \<Longrightarrow> D (ext t) = drain 35 (Serving l, ?e) \<Longrightarrow> ext u = ext t \<Longrightarrow>
      wp (TA_InvokeCommandEntryPoint P CMD_AUTHENTICATE_SENSOR types)
        (\<lambda>r v. r = Ret TEE_SUCCESS \<and> sensor_authenticated (sess v)) u" for t u :: "'e ta_state" and types
  proof -
    assume t: "V (ext t) = (V (ext s))(SENSOR_PSK_OBJID \<mapsto> g_secret d)" "D (ext t) = drain 35 (Serving l, ?e)" "ext u = ext t"
    let ?f = "d\<lparr>g_secret_served := True, frames := frames d @ [(conns d, FRAME_SECRET, g_secret d)],
      dext := (dext d)\<lparr>to_device := []\<rparr>\<rparr>"
    have "wp (ta_authenticate_sensor P) (\<lambda>res v. res = TEE_SUCCESS \<and> sensor_authenticated (sess v) \<and> V (ext v) = V (ext u)) u"
    proof (rule wp_authenticate)
      show "V (ext u) SENSOR_PSK_OBJID = Some (g_secret d)" "length (g_secret d) = 32" using t d by simp_all
      show "D (ext u) = (Serving l, ?f)" using t d by simp
      show "outbox (Serving l, ?f) = []" by simp
      fix c :: bytes
      assume "length c = 32"
      then show "outbox (turn hm (feed (encode_frame FRAME_CHALLENGE c) (Serving l, ?f))) =
          encode_frame FRAME_CHALLENGE_RESPONSE (p_hmac P (g_secret d) c)"
        using turn_challenge [of l c hm "?f\<lparr>dext := (dext d)\<lparr>to_device := [], to_sensor := encode_frame FRAME_CHALLENGE c\<rparr>\<rparr>"] d mac
        by simp
    qed (rule mac(2))
    then show ?thesis
      by (simp add: TA_InvokeCommandEntryPoint_def) (erule wp_mono, simp)
  qed
  moreover have "wp (ta_provision_sensor_secret P [PT_NONE, PT_NONE, PT_NONE, PT_NONE])
      (\<lambda>res t. res = TEE_SUCCESS \<and> V (ext t) = (V (ext s))(SENSOR_PSK_OBJID \<mapsto> g_secret d) \<and> D (ext t) = drain 35 (Serving l, ?e)) s"
    by (rule wp_provision [OF new x _ 1]) (use d in simp_all)
  ultimately show ?thesis
    by (simp add: TA_InvokeCommandEntryPoint_def) (erule wp_mono, auto)
qed

end

section \<open>A concrete line\<close>

text \<open>Storage and the sensor are the whole outside; the daemon acts at once.\<close>

definition wired :: "((string \<rightharpoonup> bytes) \<times> sensor) platform" where
  "wired =
     \<lparr>p_sha256 = checksum, p_hmac = p_hmac ref_platform, p_verify = p_verify ref_platform, p_sign = (\<lambda>d m w. (None, w)),
      p_ecdh = p_ecdh ref_platform, p_hkdf = p_hkdf ref_platform, p_gcm = p_gcm ref_platform,
      p_random = (\<lambda>n w. (replicate n 1, w)), p_keypair = (\<lambda>w. ((zeros 32, zeros 32, zeros 32), w)),
      p_result = (\<lambda>c w. (TEE_SUCCESS, w)),
      p_open = (\<lambda>i w. (if fst w i = None then TEE_ERROR_ITEM_NOT_FOUND else TEE_SUCCESS, w)),
      p_read = (\<lambda>i n w. (case fst w i of None \<Rightarrow> (TEE_ERROR_ITEM_NOT_FOUND, []) | Some c \<Rightarrow> (TEE_SUCCESS, take n c), w)),
      p_create = (\<lambda>i fl d w. if fst w i = None then (TEE_SUCCESS, ((fst w)(i \<mapsto> d), snd w)) else (TEE_ERROR_ACCESS_CONFLICT, w)),
      p_host = Pair, p_uart_init = (\<lambda>w. w), p_uart_putc = (\<lambda>b (st, x). (st, feed [b] x)), p_uart_flush = (\<lambda>w. w),
      p_uart_have_rx = (\<lambda>w. (outbox (snd w) \<noteq> [], w)),
      p_uart_getchar = (\<lambda>(st, x). (hd (outbox x), (st, drain 1 x))),
      p_mdelay = (\<lambda>n (st, x). (st, turn (\<lambda>k c. Some (checksum (k @ c))) x))\<rparr>"

lemma wired_hmac: "p_hmac wired k c = checksum (k @ c)"
  by (simp add: wired_def ref_platform_def)

interpretation wired: secure_line wired "\<lambda>k c. Some (checksum (k @ c))" snd "\<lambda>w. 0" fst
proof
  show "sensor_attached wired (\<lambda>k c. Some (checksum (k @ c))) snd (\<lambda>w. 0)"
    by (simp add: sensor_attached_def wired_def split: prod.split)
  show "cooperative fst snd wired"
    by (simp add: cooperative_def wired_def split: prod.split)
qed

declare wired.uart_fields [simp del] wired.drain_fields [simp del] wired.kept [simp del] wired.coop_fields [simp del] wp_ext_op [simp del]

text \<open>A device without a secret, and a sensor that has just been connected.\<close>

definition fresh_sensor :: sensor where
  "fresh_sensor = (Serving serve_start, (daemon_start \<lparr>to_sensor = [], to_device = [], wall = 0\<rparr> (fit 32 [9]))\<lparr>conns := 1\<rparr>)"

definition unpaired :: "((string \<rightharpoonup> bytes) \<times> sensor) ta_state" where
  "unpaired = \<lparr>ext = (Map.empty, fresh_sensor), uart_ready = False, wire = [], waited = 0,
     shm = [[], [], [], []], psize = [0, 0, 0, 0], pvalue = replicate 4 (0, 0), oob = False,
     n_objects = 0, n_operations = 0, n_persistent = 0, n_sessions = 0, sess = zero_session\<rparr>"

end
