(* ===== verification/Cadence.thy ===== *)
theory Cadence
  imports SecureLine
begin

text \<open>
  The pace of the readings: the daemon sends one every \<open>READING_INTERVAL_SEC\<close> seconds once it is
  authenticated, the device takes one each time the Host asks. A device that asks less often
  takes ever older readings, the rest waiting on the line, until the line is full and what the
  daemon sends is lost.
\<close>

section \<open>The daemon by the second\<close>

text \<open>
  The line holds \<open>cap\<close> bytes towards the device, in the receive FIFO of the PL011 and whatever is
  in front of it. What is sent on a full line overflows it and is lost, as the comments of
  \<open>serve\<close> say.
\<close>

definition clip :: "nat \<Rightarrow> sensor \<Rightarrow> sensor" where
  "clip cap = on_line (\<lambda>L. L\<lparr>to_device := take cap (to_device L)\<rparr>)"

text \<open>A second without traffic towards the sensor: \<open>select\<close> times out and the loop goes round.\<close>

definition second :: "nat \<Rightarrow> (bytes \<Rightarrow> bytes \<Rightarrow> bytes option) \<Rightarrow> sensor \<Rightarrow> sensor" where
  "second cap hm x = clip cap (turn hm (on_line (\<lambda>L. L\<lparr>wall := wall L + 1\<rparr>) x))"

lemma take_take_append [simp]: "take n (take n xs @ ys) = take n (xs @ ys)"
  by (simp add: min_def)

definition reading_sent :: "nat \<Rightarrow> bytes" where
  "reading_sent i = reading_payload (reading_value (of_nat i)) (ascii ''C'')"

definition readings_sent :: "nat \<Rightarrow> nat \<Rightarrow> bytes" where
  "readings_sent m n = concat (map (\<lambda>i. encode_frame FRAME_READING (reading_sent i)) [m..<n])"

lemma length_reading_sent [simp]: "length (reading_sent i) = 6"
  by (simp add: reading_sent_def reading_payload_def ascii_def)

lemma reading_sent_nonempty [simp]: "reading_sent i \<noteq> []"
  using length_reading_sent [of i] by (auto simp del: length_reading_sent)

lemma readings_sent_Suc: "m \<le> n \<Longrightarrow> readings_sent m (Suc n) = readings_sent m n @ encode_frame FRAME_READING (reading_sent n)"
  by (simp add: readings_sent_def)

lemma readings_sent_Cons: "m < n \<Longrightarrow> readings_sent m n = encode_frame FRAME_READING (reading_sent m) @ readings_sent (Suc m) n"
  by (simp add: readings_sent_def upt_conv_Cons)

lemma length_readings_sent: "length (readings_sent m n) = 9 * (n - m)"
  by (simp add: readings_sent_def length_concat comp_def encode_frame_def sum_list_triv)

text \<open>
  \<open>k\<close> seconds after the authentication at \<open>T\<close>, the device having taken \<open>m\<close> readings: of the others
  the line has kept the first \<open>cap\<close> bytes.
\<close>

definition pacing :: "nat \<Rightarrow> int \<Rightarrow> nat \<Rightarrow> nat \<Rightarrow> sensor \<Rightarrow> bool" where
  "pacing cap T k m x \<longleftrightarrow> m \<le> k div 2 \<and> (\<exists>d. x = (Serving \<lparr>tick = of_nat (k div 2), last_reading = T + 2 * int (k div 2), authenticated = True\<rparr>, d) \<and>
     dext d = \<lparr>to_sensor = [], to_device = take cap (readings_sent m (k div 2)), wall = T + int k\<rparr>)"

lemma pacing_second:
  assumes "pacing cap T k m x"
  shows "pacing cap T (Suc k) m (second cap hm x)"
proof -
  from assms obtain d where x: "x = (Serving \<lparr>tick = of_nat (k div 2), last_reading = T + 2 * int (k div 2), authenticated = True\<rparr>, d)"
    and d: "dext d = \<lparr>to_sensor = [], to_device = take cap (readings_sent m (k div 2)), wall = T + int k\<rparr>" and m: "m \<le> k div 2"
    by (auto simp: pacing_def)
  show ?thesis
  proof (cases "even k")
    case True
    then have "Suc k div 2 = k div 2" "k = 2 * (k div 2)" by simp_all
    moreover from this have "int k = 2 * int (k div 2)" by linarith
    ultimately show ?thesis
      using m by (simp add: pacing_def second_def clip_def x d turn_def serve_iter_def serve_tail_def)
  next
    case False
    then have k: "Suc k div 2 = Suc (k div 2)" "int k = 2 * int (k div 2) + 1" by presburger+
    have "length (reading_payload (reading_value (of_nat (k div 2))) (ascii ''C'')) < 65536"
      using length_reading_sent [of "k div 2"] by (simp add: reading_sent_def)
    with m k show ?thesis
      by (simp add: pacing_def second_def clip_def x d turn_def serve_iter_def serve_tail_def send_reading_def write_frame_line
          readings_sent_Suc reading_sent_def del: take_append)
  qed
qed

lemma pacing_seconds: "pacing cap T k m x \<Longrightarrow> pacing cap T (k + j) m ((second cap hm ^^ j) x)"
  by (induction j) (simp_all add: pacing_second)

text \<open>As long as everything fits, the oldest reading is there whole.\<close>

lemma pacing_taken:
  assumes "pacing cap T k m x" "m < k div 2" "9 * (k div 2 - m) \<le> cap"
  shows "outbox x = encode_frame FRAME_READING (reading_sent m) @ readings_sent (Suc m) (k div 2)" "pacing cap T k (Suc m) (drain 9 x)"
  using assms by (auto simp: pacing_def readings_sent_Cons [of m] length_readings_sent)

text \<open>
  The bytes that have piled up when a device that asks every \<open>i\<close> seconds asks for the n-th time.
\<close>

definition backlog :: "nat \<Rightarrow> nat \<Rightarrow> nat" where
  "backlog i n = 9 * ((i * n) div 2 - (n - 1))"

lemma backlog_Suc: "backlog i (Suc n) = 9 * ((i * Suc n) div 2 - n)"
  by (simp add: backlog_def)

lemma backlog_mono:
  assumes "2 \<le> i"
  shows "backlog i n \<le> backlog i (Suc n)"
proof -
  have "(i * n + 2) div 2 \<le> (i * Suc n) div 2" using assms by (intro div_le_mono) simp
  then have "(i * n) div 2 + 1 \<le> (i * Suc n) div 2" by simp
  then show ?thesis unfolding backlog_def by (intro mult_le_mono2) linarith
qed

text \<open>A device slower than the daemon makes any line overflow.\<close>

lemma backlog_overflows:
  assumes i: "3 \<le> i" and n: "2 * (cap div 9) \<le> n"
  shows "cap < backlog i (Suc n)"
proof -
  have "2 * (cap div 9 + Suc n) \<le> 3 * Suc n" using n by simp
  also have "\<dots> \<le> i * Suc n" using i by (rule mult_le_mono1)
  finally have "(2 * (cap div 9 + Suc n)) div 2 \<le> (i * Suc n) div 2" by (rule div_le_mono)
  then have "cap div 9 + 1 \<le> (i * Suc n) div 2 - n" by simp
  then have "9 * (cap div 9 + 1) \<le> backlog i (Suc n)" unfolding backlog_Suc by (rule mult_le_mono2)
  moreover have "cap < 9 * (cap div 9 + 1)" by (metis mult.commute Suc_eq_plus1 dividend_less_times_div zero_less_numeral mult_Suc_right add.commute)
  ultimately show ?thesis by simp
qed

section \<open>The device\<close>

text \<open>
  The readings a device has taken that asks for one every \<open>i\<close> seconds, over a line of \<open>cap\<close>
  bytes: in between the daemon runs, and nothing else happens on the line.
\<close>

inductive paced ::
    "'e platform \<Rightarrow> nat \<Rightarrow> (bytes \<Rightarrow> bytes \<Rightarrow> bytes option) \<Rightarrow> ('e \<Rightarrow> sensor) \<Rightarrow> nat \<Rightarrow> sensor \<Rightarrow> nat \<Rightarrow> bytes list \<Rightarrow>
     ('e, 'm) world_scheme \<Rightarrow> bool"
  for P :: "'e platform" and cap :: nat and hm :: "bytes \<Rightarrow> bytes \<Rightarrow> bytes option" and D :: "'e \<Rightarrow> sensor" and i :: nat and x :: sensor where
  start: "D (ext s) = x \<Longrightarrow> paced P cap hm D i x 0 [] s"
| round: "paced P cap hm D i x n vs s \<Longrightarrow> D e = (second cap hm ^^ i) (D (ext s)) \<Longrightarrow> length (mbuf (ps ! 0)) = LINK_READING_MAX \<Longrightarrow>
    run_state (sensor_link_read P [PT_MEMREF_OUTPUT, PT_NONE, PT_NONE, PT_NONE] (ps[0 := (ps ! 0)\<lparr>msize := LINK_READING_MAX\<rparr>]))
      (s\<lparr>ext := e\<rparr>) = ((res, qs), t) \<Longrightarrow> ps \<noteq> [] \<Longrightarrow>
    paced P cap hm D i x (Suc n) (vs @ (if res = TEE_SUCCESS then [take (msize (qs ! 0)) (mbuf (qs ! 0))] else [])) t"

text \<open>A sensor that has just been authenticated, at time 0.\<close>

definition paced_sensor :: sensor where
  "paced_sensor = (Serving \<lparr>tick = 0, last_reading = 0, authenticated = True\<rparr>,
     daemon_start \<lparr>to_sensor = [], to_device = [], wall = 0\<rparr> (replicate 32 9))"

context line_reader begin

lemma wp_link_read:
  assumes sent: "outbox (D (ext s)) = encode_frame FRAME_READING p @ rest" "p \<noteq> []" "length p \<le> 256"
    and ps: "ps \<noteq> []" "length (mbuf (ps ! 0)) = 256" "msize (ps ! 0) = 256"
    and Q: "\<And>t qs. moved s (drain (3 + length p) (D (ext s))) t \<Longrightarrow> take (msize (qs ! 0)) (mbuf (qs ! 0)) = p \<Longrightarrow> Q (TEE_SUCCESS, qs) t"
  shows "wp (sensor_link_read P [PT_MEMREF_OUTPUT, PT_NONE, PT_NONE, PT_NONE] ps) Q s"
proof -
  have init: "wp (sensor_uart_ensure_init P) R s" if "\<And>t. moved s (D (ext s)) t \<Longrightarrow> R () t" for R
    using that by (simp add: sensor_uart_ensure_init_def moved_def)
  have read: "wp (read_frame P FRAME_READING 256) R u"
    if u: "moved s (D (ext s)) u" and R: "\<And>t. moved s (drain (3 + length p) (D (ext s))) t \<Longrightarrow> R (True, p) t" for R u
    by (rule wp_read_ready [of _ _ p rest]) (use u sent R in \<open>simp_all add: moved_def\<close>)
  show ?thesis
    using ps sent(2,3)
    by (auto simp: sensor_link_read_def Let_def store_out_def set_out_size_def intro!: init read Q)
qed

text \<open>The readings taken are the oldest ones, and the rest is still on the line.\<close>

lemma paced_readings:
  assumes "paced P cap hm D i x n vs s" and x: "pacing cap T 0 0 x" and i: "2 \<le> i" and fits: "backlog i n \<le> cap"
  shows "vs = map reading_sent [0..<n] \<and> pacing cap T (i * n) n (D (ext s))"
  using assms(1) fits
proof induction
  case (round n vs s e ps res qs t)
  have IH: "vs = map reading_sent [0..<n]" "pacing cap T (i * n) n (D (ext s))"
    using round.IH round.prems backlog_mono [OF i, of n] by simp_all
  have room: "n < (i * Suc n) div 2"
  proof -
    have "2 * Suc n \<le> i * Suc n" using i by (rule mult_le_mono1)
    then show ?thesis by simp
  qed
  have e: "pacing cap T (i * Suc n) n (D e)"
    using pacing_seconds [OF IH(2), of i hm] round.hyps(2) by (simp add: add.commute)
  note taken = pacing_taken [OF e room round.prems [unfolded backlog_Suc]]
  let ?s = "s\<lparr>ext := e\<rparr>"
  have "wp (sensor_link_read P [PT_MEMREF_OUTPUT, PT_NONE, PT_NONE, PT_NONE] (ps[0 := (ps ! 0)\<lparr>msize := LINK_READING_MAX\<rparr>]))
      (\<lambda>r t. fst r = TEE_SUCCESS \<and> take (msize (snd r ! 0)) (mbuf (snd r ! 0)) = reading_sent n \<and> D (ext t) = drain 9 (D e)) ?s"
    by (rule wp_link_read [of _ "reading_sent n" "readings_sent (Suc n) ((i * Suc n) div 2)"])
      (use taken(1) round.hyps(3,5) length_reading_sent [of n] in \<open>auto simp: moved_def nth_list_update\<close>)
  from wp_run [OF this round.hyps(4)] taken(2) IH(1) show ?case by simp
qed (use x in simp)

end

section \<open>A silent sensor\<close>

lemma silent_loop:
  assumes "\<forall>e. \<not> fst (p_uart_have_rx P e)" "length got < len" "w \<le> READ_TIMEOUT_MS"
  shows "wp (uart_read_loop P len got w) (\<lambda>r t. r = (False, got) \<and> waited t + w = waited s + READ_TIMEOUT_MS) s"
  using assms(3)
proof (induction "READ_TIMEOUT_MS - w" arbitrary: w s rule: less_induct)
  case less
  show ?case
  proof (cases "w = READ_TIMEOUT_MS")
    case True
    then show ?thesis using assms(1,2) by (simp add: uart_read_loop.simps [of P len got] wp_ext_op)
  next
    case False
    with less.prems have w: "w < READ_TIMEOUT_MS" by simp
    let ?u = "s\<lparr>ext := p_mdelay P POLL_STEP_MS (snd (p_uart_have_rx P (ext s))), waited := waited s + POLL_STEP_MS\<rparr>"
    have "wp (uart_read_loop P len got (w + POLL_STEP_MS))
        (\<lambda>r t. r = (False, got) \<and> waited t + (w + POLL_STEP_MS) = waited ?u + READ_TIMEOUT_MS) ?u"
      by (rule less.hyps) (use w in simp_all)
    then show ?thesis
      using w assms(1,2) by (simp add: uart_read_loop.simps [of P len got w] mdelay_def wp_ext_op add.commute)
  qed
qed

lemma silent_frame:
  assumes "\<forall>e. \<not> fst (p_uart_have_rx P e)"
  shows "wp (read_frame P ty cap) (\<lambda>r t. r = (False, []) \<and> waited t = waited s + READ_TIMEOUT_MS) s"
proof -
  have "wp (uart_read P 3) (\<lambda>r t. r = (False, []) \<and> waited t + 0 = waited s + READ_TIMEOUT_MS) s"
    unfolding uart_read_def by (rule silent_loop [OF assms]) simp_all
  then show ?thesis unfolding read_frame_def wp_bind FRAME_HDR_SIZE_def by (rule wp_mono) auto
qed

text \<open>The parameters with which each command talks to the sensor.\<close>

definition link_call :: "nat \<Rightarrow> ptype list \<Rightarrow> memref list \<Rightarrow> bool" where
  "link_call cmd types ps \<longleftrightarrow>
     cmd = PTA_CMD_CHALLENGE \<and> types = [PT_MEMREF_INPUT, PT_MEMREF_OUTPUT, PT_NONE, PT_NONE] \<and>
       msize (ps ! 0) = CHALLENGE_SIZE \<and> HMAC_SIZE \<le> msize (ps ! 1) \<or>
     cmd = PTA_CMD_READ \<and> types = [PT_MEMREF_OUTPUT, PT_NONE, PT_NONE, PT_NONE] \<and> LINK_READING_MAX \<le> msize (ps ! 0) \<or>
     cmd = PTA_CMD_FETCH_SECRET \<and> types = [PT_MEMREF_OUTPUT, PT_NONE, PT_NONE, PT_NONE] \<and> LINK_SECRET_SIZE \<le> msize (ps ! 0)"

lemma silent_command:
  assumes silent: "\<forall>e. \<not> fst (p_uart_have_rx P e)" and call: "link_call cmd types ps"
  shows "wp (invoke_command P cmd types ps)
    (\<lambda>r t. fst r = TEE_ERROR_COMMUNICATION \<and> waited t = waited s + READ_TIMEOUT_MS) s"
proof -
  have init: "wp (sensor_uart_ensure_init P) R u" if "\<And>t. waited t = waited u \<Longrightarrow> R () t" for R and u :: "('a, 'b) world_scheme"
    using that by (simp add: sensor_uart_ensure_init_def wp_ext_op)
  have emit: "wp (write_frame P ty p) R u" if "\<And>t. waited t = waited u \<Longrightarrow> R () t" for ty p R and u :: "('a, 'b) world_scheme"
    by (rule wp_runI) (auto dest!: write_frame_run intro: that)
  have read: "wp (read_frame P ty cap) R u" if "\<And>t. waited t = waited u + 2000 \<Longrightarrow> R (False, []) t"
    for ty cap R and u :: "('a, 'b) world_scheme"
    by (rule wp_mono [OF silent_frame [OF silent]]) (use that in auto)
  show ?thesis
    using call
    by (auto simp: link_call_def invoke_command_def sensor_link_challenge_def sensor_link_read_def sensor_link_fetch_secret_def
        Let_def intro!: init emit read)
qed

end
