(* ===== verification/HelloTa.thy ===== *)
theory HelloTa
  imports Platform
begin

text \<open>
  The sample of OP-TEE that is built beside the system (hello_world/ta/hello_world_ta.c and
  hello_world/host/main.c): a TA that counts a value up or down, modulo 2 to the 32, and the
  Host program that calls it once. The client library is the record \<open>hello_client\<close>; messages to
  standard error and to the log of the TEE are not modelled.
\<close>

section \<open>The trusted application\<close>

definition TA_HELLO_WORLD_CMD_INC_VALUE :: nat where [simp]: "TA_HELLO_WORLD_CMD_INC_VALUE = 0"
definition TA_HELLO_WORLD_CMD_DEC_VALUE :: nat where [simp]: "TA_HELLO_WORLD_CMD_DEC_VALUE = 1"

text \<open>The parameters of a call are four pairs of the fields a and b of a value.\<close>

type_synonym hello_params = "(u32 \<times> u32) list"

definition hello_open :: "ptype list \<Rightarrow> TEE_Result" where
  "hello_open types =
     (if types \<noteq> [PT_NONE, PT_NONE, PT_NONE, PT_NONE] then TEE_ERROR_BAD_PARAMETERS else TEE_SUCCESS)"

definition inc_value :: "ptype list \<Rightarrow> hello_params \<Rightarrow> TEE_Result \<times> hello_params" where
  "inc_value types params =
     (if types \<noteq> [PT_VALUE_INOUT, PT_NONE, PT_NONE, PT_NONE] then (TEE_ERROR_BAD_PARAMETERS, params)
      else (TEE_SUCCESS, params[0 := (fst (params ! 0) + 1, snd (params ! 0))]))"

definition dec_value :: "ptype list \<Rightarrow> hello_params \<Rightarrow> TEE_Result \<times> hello_params" where
  "dec_value types params =
     (if types \<noteq> [PT_VALUE_INOUT, PT_NONE, PT_NONE, PT_NONE] then (TEE_ERROR_BAD_PARAMETERS, params)
      else (TEE_SUCCESS, params[0 := (fst (params ! 0) - 1, snd (params ! 0))]))"

definition hello_invoke :: "nat \<Rightarrow> ptype list \<Rightarrow> hello_params \<Rightarrow> TEE_Result \<times> hello_params" where
  "hello_invoke cmd_id types params =
     (if cmd_id = TA_HELLO_WORLD_CMD_INC_VALUE then inc_value types params
      else if cmd_id = TA_HELLO_WORLD_CMD_DEC_VALUE then dec_value types params
      else (TEE_ERROR_BAD_PARAMETERS, params))"

text \<open>Counting wraps around at both ends, so each command undoes the other for every value.\<close>

lemma dec_undoes_inc:
  assumes "params \<noteq> []" "hello_invoke TA_HELLO_WORLD_CMD_INC_VALUE types params = (TEE_SUCCESS, ps)"
  shows "hello_invoke TA_HELLO_WORLD_CMD_DEC_VALUE types ps = (TEE_SUCCESS, params)"
  using assms by (cases params) (auto simp: hello_invoke_def inc_value_def dec_value_def split: if_splits)

lemma inc_undoes_dec:
  assumes "params \<noteq> []" "hello_invoke TA_HELLO_WORLD_CMD_DEC_VALUE types params = (TEE_SUCCESS, ps)"
  shows "hello_invoke TA_HELLO_WORLD_CMD_INC_VALUE types ps = (TEE_SUCCESS, params)"
  using assms by (cases params) (auto simp: hello_invoke_def inc_value_def dec_value_def split: if_splits)

lemma inc_value_wraps:
  "inc_value [PT_VALUE_INOUT, PT_NONE, PT_NONE, PT_NONE] ((0xffffffff, b) # ps) = (TEE_SUCCESS, (0, b) # ps)"
  by (simp add: inc_value_def)

text \<open>A call that fails changes no parameter, and no call changes the number of them.\<close>

lemma hello_invoke_failed:
  assumes "hello_invoke cmd types params = (res, ps)" "res \<noteq> TEE_SUCCESS"
  shows "ps = params"
  using assms by (auto simp: hello_invoke_def inc_value_def dec_value_def split: if_splits)

section \<open>The Host program\<close>

text \<open>The results of the client library, and what the process printed.\<close>

record 'w hello_client =
  h_init :: "'w \<Rightarrow> TEE_Result \<times> 'w"
  h_open :: "'w \<Rightarrow> TEE_Result \<times> 'w"
  h_invoke :: "nat \<Rightarrow> ptype list \<Rightarrow> hello_params \<Rightarrow> 'w \<Rightarrow> (TEE_Result \<times> hello_params) \<times> 'w"
  h_close :: "'w \<Rightarrow> 'w"
  h_fini :: "'w \<Rightarrow> 'w"

record 'w hello_host =
  hello_world :: 'w
  printed :: "bytes list"

definition hello_call :: "('w \<Rightarrow> 'a \<times> 'w) \<Rightarrow> ('w hello_host, 'a) state" where
  "hello_call f = State (\<lambda>s. case f (hello_world s) of (a, w) \<Rightarrow> (a, s\<lparr>hello_world := w\<rparr>))"

definition hello_print :: "bytes \<Rightarrow> ('w hello_host, unit) state" where
  "hello_print line = modify (\<lambda>s. s\<lparr>printed := printed s @ [line]\<rparr>)"

text \<open>\<open>errx\<close> ends the process with status 1 and closes nothing.\<close>

definition hello_main :: "'w hello_client \<Rightarrow> ('w hello_host, int) state" where
  "hello_main H = do {
     res \<leftarrow> hello_call (h_init H);
     if res \<noteq> TEE_SUCCESS then State_Monad.return 1
     else do {
       res \<leftarrow> hello_call (h_open H);
       if res \<noteq> TEE_SUCCESS then State_Monad.return 1
       else do {
         let params = [(42, 0), (0, 0), (0, 0), (0, 0)];
         hello_print (ascii ''Invoking TA to increment '' @ dec_int (sint (fst (params ! 0))) @ [10]);
         (res, params) \<leftarrow> hello_call (h_invoke H TA_HELLO_WORLD_CMD_INC_VALUE
            [PT_VALUE_INOUT, PT_NONE, PT_NONE, PT_NONE] params);
         if res \<noteq> TEE_SUCCESS then State_Monad.return 1
         else do {
           hello_print (ascii ''TA incremented value to '' @ dec_int (sint (fst (params ! 0))) @ [10]);
           hello_call (\<lambda>w. ((), h_close H w));
           hello_call (\<lambda>w. ((), h_fini H w));
           State_Monad.return 0 } } } }"

text \<open>
  Together: when the client library delivers the call to the TA, the program prints 42 and
  then 43, closes its session and ends with status 0, unless the session could not be had.
\<close>

definition hello_served :: "'w hello_client \<Rightarrow> bool" where
  "hello_served H \<longleftrightarrow> (\<forall>cmd types ps w. fst (h_invoke H cmd types ps w) = hello_invoke cmd types ps)"

lemma hello_call_run:
  "run_state (hello_call f) s = (fst (f (hello_world s)), s\<lparr>hello_world := snd (f (hello_world s))\<rparr>)"
  by (simp add: hello_call_def case_prod_beta)

lemma hello_main_prints:
  assumes "hello_served H"
    and "fst (h_init H (hello_world s)) = TEE_SUCCESS"
    and "fst (h_open H (snd (h_init H (hello_world s)))) = TEE_SUCCESS"
  shows "\<exists>w. run_state (hello_main H) s =
    (0, \<lparr>hello_world = h_fini H (h_close H w),
         printed = printed s @ [ascii ''Invoking TA to increment 42'' @ [10], ascii ''TA incremented value to 43'' @ [10]]\<rparr>)"
proof -
  have inc: "fst (h_invoke H 0 [PT_VALUE_INOUT, PT_NONE, PT_NONE, PT_NONE] [(42, 0), (0, 0), (0, 0), (0, 0)] w)
      = (TEE_SUCCESS, [(43, 0), (0, 0), (0, 0), (0, 0)])" for w
    using assms(1) by (simp add: hello_served_def hello_invoke_def inc_value_def)
  have digits: "dec_int 42 = ascii ''42''" "dec_int 43 = ascii ''43''" by code_simp+
  show ?thesis
    using assms(2,3)
    by (cases s) (auto simp: hello_main_def hello_call_run hello_print_def inc digits case_prod_beta ascii_append [symmetric])
qed

lemma hello_main_fails:
  assumes "run_state (hello_main H) s = (rc, t)" "rc \<noteq> 0"
  shows "rc = 1 \<and> length (printed t) \<le> length (printed s) + 1"
  using assms
  by (auto simp: hello_main_def hello_call_run hello_print_def case_prod_beta split: if_splits)

text \<open>A client library over the TA itself, counting the calls of open and close that balance.\<close>

definition hello_direct :: "nat hello_client" where
  "hello_direct = \<lparr>h_init = Pair TEE_SUCCESS, h_open = (\<lambda>n. (hello_open [PT_NONE, PT_NONE, PT_NONE, PT_NONE], Suc n)),
     h_invoke = (\<lambda>cmd types ps n. (hello_invoke cmd types ps, n)), h_close = (\<lambda>n. n - 1), h_fini = (\<lambda>n. n)\<rparr>"

lemma hello_direct_run:
  "fst (run_state (hello_main hello_direct) \<lparr>hello_world = 0, printed = []\<rparr>) = 0"
proof -
  have "hello_served hello_direct" by (simp add: hello_served_def hello_direct_def)
  from hello_main_prints [OF this, of "\<lparr>hello_world = 0, printed = []\<rparr>"] show ?thesis
    by (auto simp: hello_direct_def hello_open_def)
qed

end
