(* ===== verification/Spec2Isabelle.thy ===== *)
theory Spec2Isabelle
  imports WithServer Attacks DaemonRuns ProbeTa DaemonMain DeadSession HostConfig Pairing Cadence HelloTa
begin

text \<open>
  Verification of the C code of an emulated confidential-IoT edge device
  (project/optee_examples/confidential_iot, project/optee_os_ext, project/optee_examples/ciot_probe_ta)
  and of the part of the management server it talks to (CC_Server/server, Python).

  The program. Five processes take part in one flow of data:
  \<^item> the Sensor Module (sensor_module/sensor_daemon.c) measures, holds a secret of 32 bytes and
    answers challenges under it;
  \<^item> the sensor_link pseudo-TA (optee_os_ext/core/pta/sensor_link.c), in the secure kernel, is the
    only code that can reach the secure UART to the Sensor Module, and admits one TA;
  \<^item> the confidential_iot trusted application (edge_device/ta/trusted_app.c) authenticates the sensor
    and the management server, keeps the session key and encrypts the readings;
  \<^item> the untrusted Host (edge_device/host, attestation) drives the TA, has the fTPM quote the
    transcript of a session, and carries messages to the server;
  \<^item> the management server (attestation.py, device_registry.py, device_link/attested_network.py)
    challenges the device, verifies quote and TA signature against what is enrolled, derives the
    session key, and takes the readings.
  A prober TA (ciot_probe_ta) is the fixture of the tests for storage isolation.

  How code is modelled. A C function is a definition of the same name in the state monad of the
  library; its early returns and \<open>goto\<close> labels are branches, its \<open>TEE_Result\<close> or int is
  the value, and a panic of the TEE is the value \<open>Panicked\<close>. Machine integers that can wrap are
  words. Buffers are lists of bytes of the declared size. A long function is composed of
  parts in the order of its code; PROJECT.json gives the lines of each.

  Theories.
  \<^item> Prelude: bytes, integers, decimal text, weakest preconditions, and the locale
    \<open>effect_order\<close>, by which a relation of states that single calls respect carries over to
    whole commands. It is interpreted on thirteen relations of the model: sealed objects only grow,
    only the link is touched, only lower layers act, and so on.
  \<^item> Platform: everything outside the repository that secure code calls, as the record
    \<open>platform\<close>; \<open>tee_world\<close> is the state a TA runs in, with the buffers shared with the Host,
    which may rewrite them before every access. Ghost fields count open handles and record
    accesses outside a buffer.
  \<^item> Protocol and Link: constants, message pre-images and wire formats both ends share.
  \<^item> SensorLinkPta: sensor_link.c, with its polling reads, framing, commands and caller check.
  \<^item> TaSession, TaIdentity, TaHandshake, TaData, TaDispatch: trusted_app.c in the order of its
    sections. TaDispatch states the contract of a command as the locale \<open>ta_command\<close>,
    interpreted on each of the six commands and on the entry point, then the abstract
    session machine \<open>abs_step\<close> and the histories \<open>ta_hist\<close>: any commands with any parameters, while
    other sessions of the TA seal objects.
  \<^item> SensorDaemon and DaemonMain: sensor_daemon.c, from its arguments through the accept loop, with
    runs \<open>daemon_reach\<close> as a step relation.
  \<^item> HostPlatform: what the Host calls and the repository does not contain, as the record
    \<open>host_env\<close>, and the ghost log of what it exchanges with the outside. HostNet is net.c,
    Attestation is attestation.c, HostEdge is edge_device.c, HostMain is main.c with its runs
    \<open>main_reach\<close>; HostBounds holds the sizes of its buffers.
  \<^item> HostConfig: the configuration file of edge_device.c read line by line, as a reference
    that the loop over \<open>fgets\<close> is equal to.
  \<^item> HostEffect: the locale \<open>host_effect\<close>, by which a relation that the calls of the Host into the
    client library respect holds along every operation of the Host. HostTa closes the gap between
    the two worlds: the locale \<open>ta_service\<close> is what a client needs of the TA (a message moves its
    counter, a key may restart it, nothing else does), the locale \<open>ta_host\<close> is a Host whose client
    library runs the entry points of the model of the TA (\<open>runs_ta\<close>), and the second gives the first
    as a sublocale. DeadSession adds the contract of a TA that has panicked, \<open>target_dead_law\<close>, as
    the locale \<open>dead_session\<close>, again given by \<open>ta_host\<close>. HostTaRuns interprets \<open>ta_host\<close>, and with it all
    of these, on the Host over the model of the TA.
  \<^item> SecureLine: the locale \<open>line_reader\<close> is the receiving end of the UART (\<open>uart_drains\<close>: what is on the
    line is taken oldest byte first), the locale \<open>secure_line\<close> a sensor that answers on the other end: the
    bytes of the PTA reach the handlers of the daemon and its bytes come back (\<open>sensor_attached\<close>,
    \<open>cooperative\<close>); it gives the first as a sublocale. Pairing is provisioning and authentication across
    TA, PTA and daemon, one frame at a time, and interprets both locales on a line built from the
    daemon's handlers. Cadence is the pace at which readings are sent and taken over a line of bounded
    capacity that loses what it cannot hold, and a PTA whose sensor is silent.
  \<^item> ProbeTa: probe_ta.c. HelloTa: the sample hello_world, the TA and its Host program.
  \<^item> ServerBase: Python values and exceptions, the record \<open>server_env\<close> of what the server calls outside the
    repository, and device_registry.py. Verifier: attestation.py, one definition per function or per
    stretch of \<open>verify_and_derive\<close>; \<open>response_proves\<close> is what its checks amount to. ServerLink: one line and one
    connection of attested_network.py; \<open>_on_data\<close> is cut where other threads can run.
  \<^item> Interleaving: the accesses of all threads to the sessions as a step relation \<open>server_run\<close>, and that every handler
    is made of them. ServerTypes: what every record of the server's state satisfies.
  \<^item> Quote: the TPM structures between the attestation report and the parser. Agreement: TA and verifier
    with an honest Host between them, under one cryptography (\<open>common_crypto\<close>). ServerFaults: refused
    messages, malformed quotes, strangers, a session replaced under a message. StaleReply: the Host
    over a connection with answers it never read.
  \<^item> WithServer: the properties of the server and of device and server together.
  \<^item> Reference, Runs, Attacks, DaemonRuns, HostRuns, HostTaRuns, ServerRuns: concrete surroundings and runs,
    computed in the kernel, at which the theorems are applied. They model no code.

  What is shown. C1 to C5 and C7 to C14: the TA refines the abstract session, its counters never
  repeat under a key, data leaves only through its gate, its states are well formed, its memory
  accesses stay in bounds on every path, the handshake, the identity and the pairing do what they
  promise on success and failure. C15 and C16: the daemon serves its secret once and readings
  only after a challenge. C18 and C19: the pseudo-TA is confined and its framing round trips. C28 to
  C30: what the code does less than it says. C28 and C30 are runs on a lawful surrounding, C28 with
  a quiet Host and C30 with one that changes a buffer during the command; C29 holds on every
  platform, with a Host that writes to one buffer. C31 to
  C33 and C39: the Host. C38: the prober. Components together: the counters the server
  receives in a run of the Host on the TA increase (C6), an unpaired device with a fresh sensor ends paired
  and authenticated (C17), a silent sensor cannot hold a command (C21), readings fall behind
  the sensor until the line overflows, whatever its capacity (C24), and a TA that has panicked is never replaced (C34). In WithServer: who
  gets a session (C20), both ends hold one key as long as the Host leaves the shared buffers alone
  while a command runs (C22, which C30 shows to fail otherwise), an honest device is admitted
  (C23, under the same condition), no message is counted twice in any interleaving of threads (C25), except across a new
  attestation (C26), a reading arrives as the sample it is (C27, under the same condition), quotes round trip (C35), a session cannot be
  renewed over the connection it used (C36), the device is not told of refused data, for any reason of refusal (C37), and the
  state of the server is well typed (C40). Further theorems without a number stand beside them: formats that
  fit and round trip, lines, the start of the daemon, what a unit with a quotation mark does.

  Assumptions. Each is a predicate over a platform record with the documented behaviour of code
  outside the repository: \<open>platform_laws\<close> (secure storage, sizes of outputs, verification that
  writes nothing), \<open>b64_laws\<close>, \<open>teec_laws\<close> (base64 and the client API), \<open>recv_queue\<close> (a TCP stream),
  \<open>working_storage\<close>, \<open>undisturbed\<close> (storage of the prober), the length of a name
  \<open>mkstemp\<close> fills in, \<open>runs_ta\<close> and \<open>target_dead_law\<close> (the client library delivers a command to the TA
  and hands back what it left in the parameters; after a panic it answers TARGET_DEAD), \<open>sensor_attached\<close> and
  \<open>cooperative\<close> (C17 only: the line carries one frame at a time both ways, storage and randomness work), and
  \<open>uart_drains\<close> (C24: the UART hands out what it holds in order; how much it holds is a parameter).
  \<open>quiet_host\<close> (the Host writes to no shared buffer while a command runs) is a hypothesis of C12, C22, C23
  and C27, and what C28 grants the Host; the other theorems about the TA are for a Host that may rewrite the
  buffers before every read, and say what is more with a quiet one as a clause of their conclusion. For the server:
  \<open>common_crypto\<close> (the libraries of both sides compute the same hash, key derivation, cipher and base64, ECDH
  gives both ends one secret, and what a generated key signs is verified under its point),
  \<open>server_sizes\<close>, \<open>json_laws\<close> (the parser on one text) and \<open>stream_kept\<close> (only \<open>recv\<close> takes bytes off a
  connection). \<open>enrolled\<close> and \<open>honest_response\<close> say what a device and its Host did right. The witnesses show
  them on Reference, HostRuns, HostTaRuns, Pairing and ServerRuns. No cryptographic
  hardness is assumed: a MAC, a signature or a cipher is a function the code applies.

  Bounds and termination. No model uses fuel. Loops are recursions with a measure: bytes left
  to send, room left to receive, milliseconds left to wait, bytes of a file left to read; C21 turns
  the last but one into a bound on the time a command of the PTA waits. The two
  loops that are not meant to end, the accept loop of the daemon and the push loop of the Host,
  are step relations; theorems about them hold after any number of steps.

  Not modelled. The build of the Host without a TEE client library and the self-registration under
  \<open>#if 0\<close> (not compiled); messages to standard error and the output of the daemon; wiping of
  local buffers; the registration macros and memory map of the pseudo-TA; the rogue TA, whose
  entry points are empty; the test drivers under tests/host; of the
  management server its HTTP side, accounts, processing and store, the files of the registry and its
  log, scripts and patches. Python text is bytes: what differs outside ASCII, and the limit on
  the digits of an int, is not modelled. An open session of the TA runs one
  command at a time, as OP-TEE serialises them; commands of other sessions interleave at calls.
\<close>

section \<open>The session\<close>

text \<open>
  C1. Refinement. Whatever the Host and other sessions did before, a command of the TA that
  returns is a step of the abstract session machine: keys are established only by a
  successful handshake on a pending keypair, and a message leaves only from an authenticated
  session with an established key, advancing its counter by one.
\<close>

theorem session_refines_abstract:
  assumes "platform_laws V P" "ta_hist V P s e msgs" "cmd_ready s"
    and "run_state (TA_InvokeCommandEntryPoint P c types) s = (Ret res, t)"
  shows "abs_step c res (abs_of (sess s)) (abs_of (sess t))"
  using wp_run [OF wp_dispatch_refines [OF assms(1) ta_hist_inv [OF assms(1,2)] assms(3)] assms(4)] by blast

theorem session_refines_abstract_witness:
  "abs_step CMD_READ_AND_PROTECT TEE_SUCCESS (abs_of session3) (abs_of (sess (protect_end session3)))"
  using session_refines_abstract [OF ref_laws ref_protect_hist ref_starts_ready(4) protect_run3(2)]
  by (simp add: protect_start_def)



text \<open>
  C3. The data gate. A protected message is produced only when the sensor is authenticated, a
  server has been authenticated and pinned, and the counter can grow; the plain text is the
  rendering of the one READING frame this run took off the link, and the output is its AES-GCM encryption
  under the session key with the new counter as additional data.
\<close>

theorem protect_gate:
  assumes "platform_laws V P" "ta_hist V P s e msgs" "cmd_ready s"
    and "run_state (ta_read_and_protect P types) s = (TEE_SUCCESS, t)"
  shows "sensor_authenticated (sess s) \<and> session_key_valid (sess s) \<and>
    V (ext s) SENSOR_PSK_OBJID \<noteq> None \<and> V (ext s) SERVER_PUBKEY_OBJID \<noteq> None \<and>
    send_seq (sess s) < 0xffffffff \<and> send_seq (sess t) = send_seq (sess s) + 1 \<and>
    session_key (sess t) = session_key (sess s) \<and> reading_stored s t \<and> message_ok P s t"
proof -
  have inv: "ta_inv V s" by (rule ta_hist_inv [OF assms(1,2)])
  have "protect_post V P s TEE_SUCCESS t"
    by (rule wp_run [OF wp_ta_read_and_protect [OF assms(1) inv assms(3)] assms(4)])
  with inv show ?thesis
    by (auto simp: protect_post_def ta_inv_def Let_def)
qed

theorem protect_gate_witness:
  "sensor_authenticated session3 \<and> send_seq (sess (protect_end session3)) = 1 \<and>
   reading_stored (protect_start session3) (protect_end session3) \<and>
   message_ok ref_platform (protect_start session3) (protect_end session3)"
  using protect_gate [OF ref_laws ref_protect_hist ref_starts_ready(4) protect_run3(1)]
  by (simp add: protect_start_def session3_fields)

text \<open>
  C4. Every state a session can reach is well formed: buffers have their sizes, a pending
  keypair and a valid session key exclude each other, the counter fits 32 bits, the TA holds
  exactly the handles its session names, and the flags are backed by sealed objects.
\<close>

theorem reachable_sessions_well_formed:
  assumes "platform_laws V P" "ta_hist V P s e msgs"
  shows "length (session_key (sess s)) = 32 \<and> length (reading (sess s)) = 256 \<and> reading_len (sess s) < 256 \<and>
    send_seq (sess s) \<le> 0xffffffff \<and> (ecdh_keypair (sess s) \<noteq> None \<longrightarrow> \<not> session_key_valid (sess s)) \<and>
    n_objects s = (if ecdh_keypair (sess s) \<noteq> None then 1 else 0) \<and> n_operations s = 0 \<and> n_persistent s = 0 \<and>
    n_sessions s = (if sensor_pta_open (sess s) then 1 else 0) \<and>
    (session_key_valid (sess s) \<longrightarrow> V (ext s) SERVER_PUBKEY_OBJID \<noteq> None) \<and>
    (sensor_authenticated (sess s) \<longrightarrow> V (ext s) SENSOR_PSK_OBJID \<noteq> None)"
  using ta_hist_inv [OF assms]
  by (auto simp: ta_inv_def session_wf_def key_handles_def pta_handles_def)

theorem reachable_sessions_well_formed_witness:
  "n_objects (protect_start session3) = 0 \<and> n_sessions (protect_start session3) = 1"
  using reachable_sessions_well_formed [OF ref_laws ref_protect_hist]
  by (simp add: protect_start_def session3_def session1_def zero_session_def)

text \<open>
  C5. No command, whatever its number, types and outcome, panics included, touches memory
  outside the buffers it was given or loses or changes a sealed object.
\<close>

theorem commands_confined:
  assumes "platform_laws V P" "ta_hist V P s e msgs" "cmd_ready s"
    and "run_state (TA_InvokeCommandEntryPoint P c types) s = (r, t)"
  shows "\<not> oob t \<and> V (ext s) \<subseteq>\<^sub>m V (ext t)"
  using dispatch.run_in_bounds [OF assms(1) ta_hist_inv [OF assms(1,2)] assms(3,4)]
    dispatch.run_sealed [OF assms(1) ta_hist_inv [OF assms(1,2)] assms(3,4)] by simp

theorem commands_confined_witness:
  "\<not> oob handshake_end \<and> base_store \<subseteq>\<^sub>m sealed_store"
  using commands_confined [OF ref_laws ref_handshake_hist ref_starts_ready(3) dispatch_runs(3)]
  by (simp add: handshake_run handshake_start_def)

text \<open>A command that returns, with success or an error, holds no handle it opened, except the ones its session keeps.\<close>

theorem commands_balanced:
  assumes "platform_laws V P" "ta_hist V P s e msgs" "cmd_ready s"
    and "run_state (TA_InvokeCommandEntryPoint P c types) s = (Ret res, t)"
  shows "n_operations t = 0 \<and> n_persistent t = 0 \<and> n_objects t = key_handles (sess t) \<and> n_sessions t = pta_handles (sess t)"
  using dispatch.run_balanced [OF assms(1) ta_hist_inv [OF assms(1,2)] assms(3,4)] by simp

theorem commands_balanced_witness:
  "n_operations evidence_end = 0 \<and> n_objects evidence_end = key_handles session2"
  using commands_balanced [OF ref_laws ref_evidence_hist ref_starts_ready(2) dispatch_runs(2)]
  by (simp add: evidence_run)

section \<open>The handshake\<close>

text \<open>
  C7. A handshake that succeeds has verified the server's signature over the transcript of
  this device's pending point, leaves a server key sealed, and installs the HKDF output over
  the ECDH secret of the pending keypair, which is consumed; the counter restarts.
\<close>

theorem handshake_establishes_key:
  assumes "platform_laws V P" "ta_hist V P s e msgs" "cmd_ready s"
    and "run_state (ta_handshake_complete P types) s = (Ret TEE_SUCCESS, t)"
  shows "handshake_ok V P s t"
  using wp_run [OF wp_ta_handshake_complete [OF assms(1) ta_hist_inv [OF assms(1,2)] assms(3)] assms(4)]
  by (simp add: handshake_post_def)

theorem handshake_establishes_key_witness:
  "handshake_ok store ref_platform handshake_start handshake_end"
  by (rule handshake_establishes_key [OF ref_laws ref_handshake_hist ref_starts_ready(3) handshake_run(1)])

text \<open>
  C8. A handshake that fails never leaves a usable key: the session key and its counter are
  untouched, and where a keypair was pending no key is valid afterwards.
\<close>

theorem handshake_failure_leaves_no_key:
  assumes "platform_laws V P" "ta_hist V P s e msgs" "cmd_ready s"
    and "run_state (ta_handshake_complete P types) s = (Ret res, t)" "res \<noteq> TEE_SUCCESS"
  shows "session_key (sess t) = session_key (sess s) \<and> send_seq (sess t) = send_seq (sess s) \<and>
    session_key_valid (sess t) = session_key_valid (sess s) \<and>
    (ecdh_keypair (sess s) \<noteq> None \<longrightarrow> \<not> session_key_valid (sess t)) \<and>
    (ecdh_keypair (sess t) \<noteq> None \<longrightarrow> ecdh_keypair (sess t) = ecdh_keypair (sess s))"
proof -
  have inv: "ta_inv V s" by (rule ta_hist_inv [OF assms(1,2)])
  have "sess t = sess s \<or> sess t = (sess s)\<lparr>ecdh_keypair := None\<rparr>"
    using wp_run [OF wp_ta_handshake_complete [OF assms(1) inv assms(3)] assms(4)] assms(5)
    by (simp add: handshake_post_def)
  with inv show ?thesis
    by (auto simp: ta_inv_def session_wf_def)
qed

theorem handshake_failure_leaves_no_key_witness:
  "\<exists>t. run_state (ta_handshake_complete ref_platform []) handshake_start = (Ret TEE_ERROR_BAD_PARAMETERS, t) \<and>
     \<not> session_key_valid (sess t)"
proof -
  have run: "run_state (ta_handshake_complete ref_platform []) handshake_start =
      (Ret TEE_ERROR_BAD_PARAMETERS, handshake_start)"
    by (simp add: ta_handshake_complete_def)
  show ?thesis
    using run handshake_failure_leaves_no_key [OF ref_laws ref_handshake_hist ref_starts_ready(3) run]
    by (simp add: handshake_start_def session2_def)
qed

text \<open>
  C9. Once a server key is sealed it is the only one that can complete a handshake: the
  signature over the transcript was verified under it, and it stays sealed unchanged.
\<close>

theorem pinned_server_only:
  assumes "platform_laws V P" "ta_hist V P s e msgs" "cmd_ready s"
    and "run_state (ta_handshake_complete P types) s = (Ret TEE_SUCCESS, t)"
    and "V (ext s) SERVER_PUBKEY_OBJID = Some k"
  shows "V (ext t) SERVER_PUBKEY_OBJID = Some k \<and>
    (\<exists>key nonce pub sig. ecdh_keypair (sess s) = Some key \<and>
      p_verify P (take 32 (drop 1 (take 65 k))) (drop 32 (drop 1 (take 65 k)))
        (p_sha256 P (server_identity_preimage nonce pub (device_point key))) sig)"
proof -
  have post: "handshake_post V P s (Ret TEE_SUCCESS) t"
    by (rule wp_run [OF wp_ta_handshake_complete [OF assms(1) ta_hist_inv [OF assms(1,2)] assms(3)] assms(4)])
  then have "V (ext s) \<subseteq>\<^sub>m V (ext t)" by (simp add: handshake_post_def tidy_def)
  with assms(5) have keep: "V (ext t) SERVER_PUBKEY_OBJID = Some k" by (rule map_le_Some [rotated])
  from post have "handshake_ok V P s t" by (simp add: handshake_post_def)
  with assms(5) obtain key nonce pub where key: "ecdh_keypair (sess s) = Some key"
    and v: "verified P (p_sha256 P (server_identity_preimage nonce pub (device_point key))) (Some (take 65 k)) s"
    unfolding handshake_ok_def by auto
  from v obtain sig where "p_verify P (take 32 (drop 1 (take 65 k))) (drop 32 (drop 1 (take 65 k)))
      (p_sha256 P (server_identity_preimage nonce pub (device_point key))) sig"
    by (rule verified_pinned)
  with keep key show ?thesis by blast
qed

theorem pinned_server_only_witness:
  "\<exists>t. run_state (ta_handshake_complete ref_platform handshake_types) repeat_start = (Ret TEE_SUCCESS, t) \<and>
     store (ext t) SERVER_PUBKEY_OBJID = Some server_point"
proof -
  obtain t where t: "run_state (ta_handshake_complete ref_platform handshake_types) repeat_start = (Ret TEE_SUCCESS, t)"
    using repeat_run_ok by (metis fst_conv prod.exhaust)
  with pinned_server_only [OF ref_laws ref_repeat_hist ref_starts_ready(7) t, of server_point] show ?thesis
    by (simp add: repeat_start_def sealed_store_def)
qed

text \<open>
  C10. Evidence is about one key: the published point is that of the pending keypair, and
  the digest and the identity signature are over the same nonce, server point and device
  point, whatever the Host does to the buffers meanwhile; an older session key is dropped.
\<close>

theorem evidence_binds_pending_key:
  assumes "platform_laws V P" "ta_hist V P s e msgs" "cmd_ready s"
    and "run_state (ta_generate_attestation_evidence P types) s = (Ret TEE_SUCCESS, t)"
  shows "evidence_of_copies V P s t \<and> ecdh_keypair (sess t) \<noteq> None \<and> \<not> session_key_valid (sess t)"
proof -
  have "evidence_of_copies V P s t"
    using wp_run [OF wp_ta_generate_attestation_evidence [OF assms(1) ta_hist_inv [OF assms(1,2)] assms(3)] assms(4)]
    by (simp add: evidence_post_def)
  then show ?thesis
    by (auto simp: evidence_of_copies_def evidence_ok_def)
qed

theorem evidence_binds_pending_key_witness:
  "evidence_of_copies store ref_platform evidence_start evidence_end"
  using evidence_binds_pending_key [OF ref_laws ref_evidence_hist ref_starts_ready(2) evidence_run(1)] by blast

section \<open>Identity and secrets\<close>

text \<open>
  C11. Identity generation that succeeds has a well-formed identity sealed that is bound to
  the device id of the request, and returns its public point.
\<close>

theorem identity_is_provisioned:
  assumes "platform_laws V P" "cmd_ready s"
    and "run_state (ta_generate_ta_identity P types) s = (TEE_SUCCESS, t)"
  shows "\<exists>device_id. length device_id = psize s ! 0 \<and> (quiet_host P \<longrightarrow> device_id = shm s ! 0) \<and>
    identity_provisioned V (psize s ! 0) device_id t"
  using wp_run [OF wp_ta_generate_ta_identity [OF assms(1,2)] assms(3)]
  by (auto simp: identity_post_def)

theorem identity_is_provisioned_witness:
  "\<exists>t c. run_state (ta_generate_ta_identity ref_platform mint_types) mint_start = (TEE_SUCCESS, t) \<and>
     store (ext t) TA_IDENTITY_OBJID = Some c \<and> blob_id (take 160 c) = ascii ''edge-1''"
proof -
  obtain t where t: "run_state (ta_generate_ta_identity ref_platform mint_types) mint_start = (TEE_SUCCESS, t)"
    using mint_run_ok by (metis fst_conv prod.exhaust)
  with identity_is_provisioned [OF ref_laws ref_starts_ready(5) t] ref_quiet show ?thesis
    by (auto simp: identity_provisioned_def mint_start_def ref_state_def)
qed

text \<open>
  C12. A sealed identity is never bound to another device: with a quiet Host, a request for a
  device id other than the sealed one fails and leaves the sealed blob as it is.
\<close>

theorem identity_never_rebinds:
  assumes "platform_laws V P" "cmd_ready s" "quiet_host P"
    and "V (ext s) TA_IDENTITY_OBJID = Some c" "blob_id (take 160 c) \<noteq> shm s ! 0"
    and "run_state (ta_generate_ta_identity P types) s = (res, t)"
  shows "res \<noteq> TEE_SUCCESS \<and> V (ext t) TA_IDENTITY_OBJID = Some c"
proof -
  obtain device_id where id: "device_id = shm s ! 0" and post: "identity_post V (psize s ! 0) device_id s res t"
    using wp_run [OF wp_ta_generate_ta_identity [OF assms(1,2)] assms(6)] assms(3) by blast
  have "V (ext s) \<subseteq>\<^sub>m V (ext t)"
    using post by (simp add: identity_post_def tidy_def)
  with assms(4) have c: "V (ext t) TA_IDENTITY_OBJID = Some c" by (rule map_le_Some [rotated])
  with post id assms(5) show ?thesis
    by (auto simp: identity_post_def identity_provisioned_def)
qed

theorem identity_never_rebinds_witness:
  "\<exists>res t. run_state (ta_generate_ta_identity ref_platform mint_types) rebind_start = (res, t) \<and>
     res \<noteq> TEE_SUCCESS \<and> store (ext t) TA_IDENTITY_OBJID = Some ref_identity"
proof -
  obtain res t where run: "run_state (ta_generate_ta_identity ref_platform mint_types) rebind_start = (res, t)"
    by (metis prod.exhaust)
  have id: "blob_id (take 160 ref_identity) \<noteq> shm rebind_start ! 0"
    using ref_identity_facts by (simp add: blob_id_def rebind_start_def ref_state_def ascii_def)
  show ?thesis
    using run identity_never_rebinds [OF ref_laws rebind_ready ref_quiet _ id run]
    by (simp add: rebind_start_def base_store_def)
qed

text \<open>
  C13. Provisioning is silent once a secret is sealed: no byte goes to the sensor and the
  sealed secret stays; only an unprovisioned device asks, once, and then success means that a
  32-byte SECRET frame came back and a secret is sealed.
\<close>

theorem provisioning_asks_once:
  assumes "platform_laws V P" "ta_hist V P s e msgs"
    and "run_state (ta_provision_sensor_secret P types) s = (res, t)"
  shows "(V (ext s) SENSOR_PSK_OBJID \<noteq> None \<longrightarrow> wire t = wire s \<and>
      V (ext t) SENSOR_PSK_OBJID = V (ext s) SENSOR_PSK_OBJID) \<and>
    (res = TEE_SUCCESS \<longrightarrow> V (ext t) SENSOR_PSK_OBJID \<noteq> None) \<and>
    (res = TEE_SUCCESS \<and> V (ext s) SENSOR_PSK_OBJID = None \<longrightarrow>
      (\<exists>k. length k = 32 \<and> wire t = wire s @ sent (encode_frame FRAME_SECRET_REQUEST []) @
         received (encode_frame FRAME_SECRET k)))"
proof -
  have post: "provision_post V P s res t"
    by (rule wp_run [OF wp_ta_provision_sensor_secret [OF assms(1) ta_hist_inv [OF assms(1,2)]] assms(3)])
  then have "V (ext s) \<subseteq>\<^sub>m V (ext t)"
    by (simp add: provision_post_def data_frame_def)
  with post show ?thesis
    by (auto simp: provision_post_def dest: map_le_Some)
qed

theorem provisioning_asks_once_witness:
  "\<exists>t. run_state (ta_provision_sensor_secret ref_platform provision_types) provision_start = (TEE_SUCCESS, t) \<and>
     store (ext t) SENSOR_PSK_OBJID \<noteq> None \<and>
     (\<exists>k. wire t = sent (encode_frame FRAME_SECRET_REQUEST []) @ received (encode_frame FRAME_SECRET k))"
proof -
  obtain t where t: "run_state (ta_provision_sensor_secret ref_platform provision_types) provision_start = (TEE_SUCCESS, t)"
    using provision_run_ok by (metis fst_conv prod.exhaust)
  with provisioning_asks_once [OF ref_laws ref_provision_hist t] show ?thesis
    by (auto simp: provision_start_def ref_state_def)
qed

text \<open>
  C14. Sensor authentication succeeds exactly when it leaves the flag set, and then, in this
  run, the 32 bytes the TEE's generator returned when this run drew from it went out on the link as
  the challenge, and one response frame came back that holds their HMAC under the sealed secret;
  every other outcome clears the flag.
\<close>

theorem sensor_authenticated_iff_answered:
  assumes "platform_laws V P" "ta_hist V P s e msgs"
    and "run_state (ta_authenticate_sensor P) s = (res, t)"
  shows "(sensor_authenticated (sess t) \<longleftrightarrow> res = TEE_SUCCESS) \<and> (res = TEE_SUCCESS \<longrightarrow> authentic V P s t)"
  using wp_run [OF wp_ta_authenticate_sensor [OF assms(1) ta_hist_inv [OF assms(1,2)]] assms(3)]
  by (auto simp: auth_post_def data_frame_def)

theorem sensor_authenticated_iff_answered_witness:
  "sensor_authenticated session1 \<and> authentic store ref_platform auth_start auth_end"
  using sensor_authenticated_iff_answered [OF ref_laws ref_auth_hist auth_run(1)] by (simp add: auth_run)

section \<open>The Sensor Module\<close>

text \<open>
  C15. The daemon hands out its secret at most once in its life, whatever its peers send: to
  the first connection, before a challenge was answered on it, and it is the secret it loaded.
\<close>

theorem daemon_serves_one_secret:
  assumes "daemon_reach H k pc s"
  shows "length (filter is_secret (frames s)) \<le> 1 \<and>
    (\<forall>i < length (frames s). is_secret (frames s ! i) \<longrightarrow>
       frames s ! i = (1, FRAME_SECRET, k) \<and> \<not> answered 1 (take i (frames s)))"
proof -
  have log: "log_ok k (frames s)" by (rule daemon_reach_log [OF assms])
  have "frames s ! i = (1, FRAME_SECRET, k) \<and> \<not> answered 1 (take i (frames s))"
    if "i < length (frames s)" "is_secret (frames s ! i)" for i
  proof -
    obtain c ty p where x: "frames s ! i = (c, ty, p)" by (cases "frames s ! i")
    from log that have "entry_ok k (take i (frames s)) (c, ty, p)"
      by (simp add: log_ok_def x [symmetric])
    with that(2) show ?thesis by (simp add: x entry_ok_def)
  qed
  with log_ok_one_secret [OF log] show ?thesis by blast
qed

theorem daemon_serves_one_secret_witness:
  "\<exists>s :: bytes daemon. \<exists>pc. daemon_reach ref_os [7] pc s \<and> frames s = [(1, FRAME_SECRET, [7])] \<and>
     length (filter is_secret (frames s)) \<le> 1"
proof -
  note r = ref_serves_secret [of "[7]" "[]"]
  show ?thesis
    using r daemon_serves_one_secret [OF r] by (auto simp: serving_def)
qed

text \<open>C16. No reading is sent on a connection before a challenge was answered on that connection.\<close>

theorem daemon_readings_after_challenge:
  assumes "daemon_reach H k pc s" "i < length (frames s)" "frames s ! i = (c, FRAME_READING, p)"
  shows "\<exists>j < i. \<exists>r. frames s ! j = (c, FRAME_CHALLENGE_RESPONSE, r)"
proof -
  have "entry_ok k (take i (frames s)) (frames s ! i)"
    using daemon_reach_log [OF assms(1)] assms(2) by (simp add: log_ok_def)
  then have "answered c (take i (frames s))"
    by (simp add: assms(3) entry_ok_def)
  then obtain q where q: "q \<in> set (take i (frames s))" "fst q = c" "fst (snd q) = FRAME_CHALLENGE_RESPONSE"
    by (auto simp: answered_def)
  then obtain j where "j < i" "frames s ! j = q"
    by (auto simp: in_set_conv_nth)
  with q show ?thesis
    by (intro exI [of _ j]) (cases q, auto)
qed

theorem daemon_readings_after_challenge_witness:
  "\<exists>s :: bytes daemon. \<exists>pc. daemon_reach ref_os [7] pc s \<and> frames s ! 3 = reading_frame1 \<and>
     (\<exists>j < 3. \<exists>r. frames s ! j = (1, FRAME_CHALLENGE_RESPONSE, r))"
proof -
  have c: "length (zeros 32) = 32" by simp
  obtain l where r: "daemon_reach ref_os [7] (Serving l)
      (serving [7] [] [response_frame [7] (zeros 32), response_frame [7] (zeros 32), reading_frame1])"
    using ref_sends_reading [OF c] by blast
  have "\<exists>j < 3. \<exists>ra. frames (serving [7] [] [response_frame [7] (zeros 32), response_frame [7] (zeros 32), reading_frame1]) ! j =
      (1, FRAME_CHALLENGE_RESPONSE, ra)"
    by (rule daemon_readings_after_challenge [OF r, of 3 1 "reading_payload 20 (ascii ''C'')"])
      (simp_all add: serving_def reading_frame1_def)
  with r show ?thesis
    by (intro exI) (auto simp: serving_def)
qed

text \<open>
  A challenge that is answered is answered with the HMAC under the loaded secret of the
  32 bytes read; a failure leaves the secret and its latch as they were.
\<close>

theorem challenge_answered_with_mac:
  assumes "run_state (handle_challenge H len) s = (rc, t)"
  shows "if rc = 0
    then \<exists>c r. length c = 32 \<and> os_hmac H (g_secret s) c = Some r \<and> length r = 32 \<and>
      frames t = frames s @ [(conns s, FRAME_CHALLENGE_RESPONSE, r)] \<and> g_secret t = g_secret s
    else g_secret t = g_secret s \<and> g_secret_served t = g_secret_served s"
proof (cases "rc = 0")
  case True
  with handle_challenge_run [OF assms] show ?thesis by auto
next
  case False
  with handle_challenge_simps [OF assms] show ?thesis by simp
qed

theorem challenge_answered_with_mac_witness:
  "\<exists>r. os_hmac ref_os [7] (zeros 32) = Some r \<and> length r = 32"
proof -
  have run: "run_state (handle_challenge ref_os 32) (serving [7] (zeros 32) []) =
      (0, (serving [7] (zeros 32) [])\<lparr>dext := [], frames := frames (serving [7] (zeros 32) []) @
        [(1, FRAME_CHALLENGE_RESPONSE, checksum ([7] @ zeros 32))]\<rparr>)"
    by (subst ref_handle_challenge [where c = "zeros 32" and rest = "[]"]) (simp_all add: serving_def)
  show ?thesis
    using challenge_answered_with_mac [OF run] by auto
qed

section \<open>The secure link\<close>

text \<open>
  C18. Whatever the sensor sends and whoever calls it, a PTA command stays inside the buffers
  it was given, changes nothing of its caller, and sleeps for at most four seconds.
\<close>

theorem pta_confined:
  assumes "list_all memref_ok ps" "run_state (invoke_command P c types ps) s = ((res, qs), t)"
  shows "inside ps qs \<and> world.more t = world.more s \<and> waited t \<le> waited s + 4000"
  using assms(2) sensor_link_challenge_spec [OF _ assms(1)] sensor_link_read_spec [OF _ assms(1)]
    sensor_link_fetch_secret_spec [OF _ assms(1)]
  by (fastforce simp: invoke_command_def split: if_splits)

theorem pta_confined_witness:
  "\<exists>qs t. run_state (invoke_command ref_platform PTA_CMD_READ [PT_MEMREF_OUTPUT, PT_NONE, PT_NONE, PT_NONE]
      [\<lparr>mbuf = zeros 256, msize = 256\<rparr>]) (protect_start session3) = ((TEE_SUCCESS, qs), t) \<and>
    inside [\<lparr>mbuf = zeros 256, msize = 256\<rparr>] qs"
proof -
  have run: "\<exists>qs t. run_state (invoke_command ref_platform PTA_CMD_READ [PT_MEMREF_OUTPUT, PT_NONE, PT_NONE, PT_NONE]
      [\<lparr>mbuf = zeros 256, msize = 256\<rparr>]) (protect_start session3) = ((TEE_SUCCESS, qs), t)"
    by (simp add: invoke_command_def sensor_link_read_def ref_platform_def protect_start_def ref_state_def
      reading_frame_def reading_payload_def)
  have ok: "list_all memref_ok [\<lparr>mbuf = zeros 256, msize = 256\<rparr>]" by (simp add: memref_ok_def)
  from run pta_confined [OF ok] show ?thesis by blast
qed

text \<open>
  C19. What one side writes as a frame the other reads as that frame: with the sent bytes
  queued, a read of the same type returns exactly the payload and leaves the rest.
\<close>

theorem link_frame_round_trip:
  assumes "run_state (write_frame P ty p) s = (u, s')" "length p \<le> cap" "length p \<le> 256"
    and "uart_queue Q rx" "sent (rx (ext r)) = drop (length (wire s)) (wire s') @ sent rest"
  shows "\<exists>r'. run_state (read_frame Q ty cap) r = ((True, p), r') \<and> rx (ext r') = rest"
proof -
  have "sent (rx (ext r)) = sent (encode_frame ty p @ rest)"
    using write_frame_run [OF assms(1)] assms(5) by simp
  moreover have "inj Sent" by (simp add: inj_def)
  ultimately have "rx (ext r) = encode_frame ty p @ rest"
    by (simp only: inj_map_eq_map)
  from read_frame_queued [OF assms(4) this] assms(2,3) show ?thesis by auto
qed

theorem link_frame_round_trip_witness:
  "\<exists>r'. run_state (read_frame ref_platform FRAME_SECRET 32)
      (provision_start\<lparr>ext := \<lparr>store = Map.empty, ctr = 0, rx = encode_frame FRAME_SECRET (zeros 32)\<rparr>\<rparr>) = ((True, zeros 32), r')"
proof -
  let ?r = "provision_start\<lparr>ext := \<lparr>store = Map.empty, ctr = 0, rx = encode_frame FRAME_SECRET (zeros 32)\<rparr>\<rparr>"
  have w: "run_state (write_frame ref_platform FRAME_SECRET (zeros 32)) provision_start =
      ((), provision_start\<lparr>wire := wire provision_start @ sent (encode_frame FRAME_SECRET (zeros 32))\<rparr>)"
    by (simp add: ref_platform_def)
  have q: "uart_queue ref_platform rx" by (simp add: ref_platform_def ref_uart)
  from link_frame_round_trip [OF w _ _ q, of 32 ?r "[]"] show ?thesis by auto
qed

text \<open>
  A frame of an unexpected type desynchronises the link: the read fails but has consumed
  the header only, so the payload is taken for the next header.
\<close>

theorem unexpected_frame_desyncs:
  assumes "uart_queue P rx" "rx (ext s) = encode_frame ty' p @ rest" "ty' \<noteq> ty"
  shows "\<exists>t. run_state (read_frame P ty cap) s = ((False, []), t) \<and> rx (ext t) = p @ rest"
  using read_frame_wrong_type [OF assms] by blast

theorem unexpected_frame_desyncs_witness:
  "\<exists>t. run_state (read_frame ref_platform FRAME_CHALLENGE_RESPONSE 32) (protect_start session3) = ((False, []), t) \<and>
     rx (ext t) = reading_payload 21 (ascii ''C'')"
proof -
  have q: "uart_queue ref_platform rx" by (simp add: ref_platform_def ref_uart)
  from unexpected_frame_desyncs [OF q, of "protect_start session3" FRAME_READING "reading_payload 21 (ascii ''C'')" "[]"
      FRAME_CHALLENGE_RESPONSE 32]
  show ?thesis
    by (simp add: protect_start_def ref_state_def reading_frame_def frame_types)
qed

text \<open>The PTA opens a session for exactly one caller: a user TA with the UUID of the confidential_iot TA.\<close>

theorem pta_admits_only_the_ta:
  "open_session caller = TEE_SUCCESS \<longleftrightarrow>
     (\<exists>s. caller = Some s \<and> is_user_ta s \<and> caller_uuid s = TA_CONFIDENTIAL_IOT_UUID)"
  by (auto simp: open_session_def TA_CONFIDENTIAL_IOT_UUID_def SENSOR_LINK_ALLOWED_CALLER_UUID_def split: option.split)

section \<open>Formats\<close>

text \<open>
  Formatting a reading never overflows: for every 32-bit value and every unit the parser
  accepts the text has at most 77 bytes, is stored whole, and the overflow branch is dead.
\<close>

theorem reading_text_fits:
  assumes "length u \<le> READING_UNIT_MAX" "length (reading (sess s)) = READING_MAX"
    and "run_state (format_reading (sint (v :: u32)) u) s = (res, t)"
  shows "res = TEE_SUCCESS \<and> reading_len (sess t) = length (reading_json (sint v) u) \<and> reading_len (sess t) \<le> 77 \<and>
    take (reading_len (sess t)) (reading (sess t)) = reading_json (sint v) u"
proof (rule wp_run [OF wp_format_reading assms(3)])
  show "length (reading (sess s)) = 256" "length u \<le> 32" using assms by simp_all
  then have "length (reading_json (sint v) u) \<le> 77" by (intro length_reading_json)
  then show "TEE_SUCCESS = TEE_SUCCESS \<and>
      reading_len (sess (s\<lparr>sess := (sess s)\<lparr>reading := rd, reading_len := length (reading_json (sint v) u)\<rparr>\<rparr>)) =
      length (reading_json (sint v) u) \<and>
      reading_len (sess (s\<lparr>sess := (sess s)\<lparr>reading := rd, reading_len := length (reading_json (sint v) u)\<rparr>\<rparr>)) \<le> 77 \<and>
      take (reading_len (sess (s\<lparr>sess := (sess s)\<lparr>reading := rd, reading_len := length (reading_json (sint v) u)\<rparr>\<rparr>)))
        (reading (sess (s\<lparr>sess := (sess s)\<lparr>reading := rd, reading_len := length (reading_json (sint v) u)\<rparr>\<rparr>))) =
      reading_json (sint v) u"
    if "take (length (reading_json (sint v) u)) rd = reading_json (sint v) u" for rd
    using that by simp
qed

theorem reading_text_fits_witness:
  "fst (run_state (format_reading (sint (- 1 :: u32)) (zeros 32)) (protect_start session3)) = TEE_SUCCESS"
proof -
  have u: "length (zeros 32) \<le> READING_UNIT_MAX" by simp
  have r: "length (reading (sess (protect_start session3))) = READING_MAX"
    by (simp add: protect_start_def session3_fields)
  from reading_text_fits [OF u r, of "- 1"] show ?thesis by (metis prod.exhaust_sel)
qed

text \<open>
  What the Sensor Module encodes as a reading the trusted application decodes: the length
  byte, the value as a signed 32-bit number and the unit come back, and conversely a payload
  the TA accepts is such an encoding.
\<close>

theorem reading_payload_round_trip:
  assumes "length u \<le> READING_UNIT_MAX"
  shows "unat (reading_payload v u ! READING_VALUE_SIZE) = length u \<and>
    length (reading_payload v u) = READING_VALUE_SIZE + 1 + length u \<and>
    from_be32 (take 4 (reading_payload v u)) = v \<and>
    sub (READING_VALUE_SIZE + 1) (length u) (reading_payload v u) = u \<and>
    (\<forall>p. length p = READING_VALUE_SIZE + 1 + unat (p ! READING_VALUE_SIZE) \<longrightarrow>
       p = reading_payload (from_be32 p) (drop (READING_VALUE_SIZE + 1) p))"
proof -
  have u: "length u \<le> 255" using assms by simp
  have "from_be32 (take 4 (reading_payload v u)) = v"
    using from_be32_be32 [of v "[]"] by (simp add: reading_payload_def)
  with reading_payload_fields [OF u, of v] reading_payload_parse show ?thesis
    by (simp add: sub_def)
qed

theorem reading_payload_round_trip_witness:
  "from_be32 (take 4 (reading_payload (reading_value 3) (ascii ''C''))) = 23"
  using reading_payload_round_trip [of "ascii ''C''" "reading_value 3"] by (simp add: reading_value_def)

text \<open>
  The two signatures of the protocol can never be confused: no message the server signs is
  one the TA signs, whatever the fields.
\<close>

theorem signed_messages_separate:
  "server_identity_preimage n s d \<noteq> ta_identity_preimage i n' s' d'"
  using labels_separate by (simp add: server_identity_preimage_def ta_identity_preimage_def)

text \<open>With nonces and points of the sizes the protocol fixes, both signed messages determine all their fields.\<close>

theorem signed_messages_injective:
  assumes "length n = length n'" "length s = 65" "length s' = 65" "length d = 65" "length d' = 65"
  shows "(server_identity_preimage n s d = server_identity_preimage n' s' d' \<longleftrightarrow> n = n' \<and> s = s' \<and> d = d') \<and>
    (ta_identity_preimage i n s d = ta_identity_preimage i' n' s' d' \<longleftrightarrow> i = i' \<and> n = n' \<and> s = s' \<and> d = d')"
  using server_identity_preimage_inj [of n s d n' s' d'] ta_identity_preimage_inj [of i n s d i' n' s' d'] assms
  by auto

theorem signed_messages_injective_witness:
  "server_identity_preimage (zeros 32) (zeros 65) (zeros 65) \<noteq>
   server_identity_preimage (replicate 32 1) (zeros 65) (zeros 65)"
  using signed_messages_injective [of "zeros 32" "replicate 32 1" "zeros 65" "zeros 65" "zeros 65" "zeros 65"]
  by simp

text \<open>
  The identity message is not unambiguous when the nonce length varies, as the command
  lets it (1 to 64 bytes): two different requests of accepted sizes give the same message.
\<close>

theorem identity_message_ambiguous:
  "\<exists>i n s d i' n' s' d'. ta_identity_preimage i n s d = ta_identity_preimage i' n' s' d' \<and>
     0 < length n \<and> length n < length n' \<and> length n' \<le> NONCE_MAX \<and>
     length s = 65 \<and> length d = 65 \<and> length s' = 65 \<and> length d' = 65 \<and> hd s = 4 \<and> hd d = 4 \<and> hd s' = 4 \<and> hd d' = 4 \<and>
     0 < length i \<and> length i \<le> DEVICE_ID_MAX \<and> 0 < length i' \<and> length i' \<le> DEVICE_ID_MAX"
proof -
  let ?n = "[1 :: u8]" and ?p = "replicate 65 (4 :: u8)"
  have "?p @ ?p @ [4, 4] = 4 # ?p @ ?p @ [4]"
    by (simp only: replicate_app_Cons_same append_Cons append_Nil append_assoc)
  then have eq: "ta_identity_preimage [4, 4] ?n ?p ?p = ta_identity_preimage [4] [1, 4] ?p ?p"
    by (simp only: ta_identity_preimage_def append_Cons append_Nil)
  have "hd ?p = 4" by (simp add: hd_replicate)
  with eq show ?thesis
    by (intro exI [of _ "[4, 4]"] exI [of _ ?n] exI [of _ ?p] exI [of _ "[4]"] exI [of _ "[1, 4]"])
      (intro conjI, assumption, simp_all)
qed

text \<open>
  The identity blob the TA fills field by field has the documented layout, passes the
  checks of the reader, and gives every field back.
\<close>

theorem identity_blob_round_trip:
  assumes "length d = 32" "length x = 32" "length y = 32" "0 < length i" "length i \<le> DEVICE_ID_MAX"
  shows "fill_blob d x y (length i) i = identity_blob d x y i \<and> blob_wf (identity_blob d x y i) \<and>
    blob_d (identity_blob d x y i) = d \<and> blob_id (identity_blob d x y i) = i \<and>
    ta_identity_blob_to_sec1 (identity_blob d x y i) = 0x04 # x @ y \<and>
    \<not> id_mismatch (identity_blob d x y i) (length i) i"
  using identity_blob_fields [OF assms] fill_blob_layout [OF assms(1-3)] assms(5)
  by (auto simp: ta_identity_blob_to_sec1_def id_mismatch_def blob_id_def)

theorem identity_blob_round_trip_witness:
  "blob_id (identity_blob (zeros 32) (zeros 32) (zeros 32) (ascii ''edge-1'')) = ascii ''edge-1''"
  using identity_blob_round_trip [of "zeros 32" "zeros 32" "zeros 32" "ascii ''edge-1''"] by simp

section \<open>What the code leaves open\<close>

text \<open>
  C28. On first use the pinned key need not be the verified one. When another session of the
  TA seals its server between this command's lookup and its own write, the write is refused
  and the command still succeeds with a valid session key, although the key now sealed is not
  the one presented and rejects the signature. No dishonest Host is needed.
\<close>

theorem server_pin_race:
  "\<exists>(P :: store_state platform) types s t k. platform_laws store P \<and> quiet_host P \<and> ta_inv store s \<and> cmd_ready s \<and>
     run_state (ta_handshake_complete P types) s = (Ret TEE_SUCCESS, t) \<and> session_key_valid (sess t) \<and>
     store (ext s) SERVER_PUBKEY_OBJID = None \<and> store (ext t) SERVER_PUBKEY_OBJID = Some k \<and> k \<noteq> shm s ! 2 \<and>
     (\<forall>digest. \<not> p_verify P (take 32 (drop 1 k)) (drop 33 k) digest (shm s ! 3))"
proof -
  have other: "rival_point \<noteq> server_point" "store (ext handshake_start) SERVER_PUBKEY_OBJID = None"
    "shm handshake_start ! 2 = server_point" "shm handshake_start ! 3 = server_sig"
    by (simp_all add: rival_point_def server_point_def handshake_start_def base_store_def)
      (simp_all add: ref_state_def)
  show ?thesis
    using other race_rejects
    by (intro exI [of _ race_platform] exI [of _ handshake_types] exI [of _ handshake_start] exI [of _ race_end]
      exI [of _ rival_point] conjI race_laws race_quiet race_run attack_starts ref_starts_ready allI) simp_all
qed

text \<open>
  C29. The nonce of a message is the Host's choice. It is drawn into the Host's own output
  buffer and read back from there when the cipher starts. On any platform, whatever its
  generator draws, a Host that writes 12 bytes of its choice at the start of buffer 0
  whenever the TA reads shared memory has every message encrypted under exactly those bytes:
  two messages under one session key can be made to share their nonce.
\<close>

theorem host_chooses_nonce:
  assumes "platform_laws V P" "ta_inv V s" "cmd_ready s" and iv: "length iv = 12"
    and run: "run_state (ta_read_and_protect (with_host P (force_nonce iv)) types) s = (TEE_SUCCESS, t)"
  shows "\<exists>ct tag. p_gcm P (session_key (sess s)) iv (seq_aad (send_seq (sess t)))
      (take (reading_len (sess t)) (reading (sess t))) = (ct, tag) \<and>
    take 12 (shm t ! 0) = iv \<and> take (length ct + 16) (shm t ! 1) = ct @ tag"
proof -
  have laws: "platform_laws V (with_host P (force_nonce iv))"
    by (rule with_host_laws [OF assms(1) force_nonce_sizes])
  have "protect_post V (with_host P (force_nonce iv)) s TEE_SUCCESS t"
    by (rule wp_run [OF wp_ta_read_and_protect [OF laws assms(2,3)] run])
  then have "message_ok (with_host P (force_nonce iv)) s t"
    by (auto simp: protect_post_def Let_def)
  then obtain iv' ct tag where m: "p_gcm P (session_key (sess s)) iv' (seq_aad (send_seq (sess t)))
      (take (reading_len (sess t)) (reading (sess t))) = (ct, tag)" "take 12 (shm t ! 0) = iv'"
      "take (length ct + 16) (shm t ! 1) = ct @ tag"
    and used: "nonce_of (with_host P (force_nonce iv)) s iv'"
    unfolding message_ok_def by (auto simp: with_host_def)
  have "iv' = iv"
    by (rule forced_nonce [OF assms(1) iv cmd_ready_D(1) [OF assms(3)] used])
  with m show ?thesis by blast
qed

theorem host_chooses_nonce_witness:
  "take 12 (shm (nonce_end (replicate 12 7)) ! 0) = replicate 12 7 \<and>
   run_state (ta_read_and_protect (nonce_platform (replicate 12 7)) protect_types) (protect_start session3) =
     (TEE_SUCCESS, nonce_end (replicate 12 7))"
  using host_chooses_nonce [OF ref_laws attack_starts(2) ref_starts_ready(4) length_replicate
      nonce_run(1) [OF length_replicate, unfolded nonce_platform_def], of 7]
    nonce_run(1) [of "replicate 12 7"]
  by auto

text \<open>
  C30. The point the server signed need not be the point the key is agreed with. The handshake
  reads shared buffer 0 once for the digest and again for the key agreement. Here the server
  has signed one transcript only, the one over the point that is in the buffer when the command
  starts: no other message verifies under any key or signature. A Host that puts a point of its
  own into the buffer after the first read completes the handshake with the key that point
  gives, which is not a key the signed point gives under any salt. With a quiet Host the key is always the
  one the point in the buffer gives (\<open>handshake_key\<close> of Agreement).
\<close>

theorem handshake_point_swap:
  "\<exists>(P :: store_state platform) types s t key nonce pub evil z z'. platform_laws store P \<and> ta_inv store s \<and> cmd_ready s \<and>
     ecdh_keypair (sess s) = Some key \<and> shm s ! 0 = pub \<and> shm s ! 1 = nonce \<and>
     signed_only P (server_identity_preimage nonce pub (device_point key)) \<and>
     run_state (ta_handshake_complete P types) s = (Ret TEE_SUCCESS, t) \<and> session_key_valid (sess t) \<and>
     p_ecdh P (ec_d key) (take 32 (drop 1 evil)) (drop 33 evil) = Some z \<and>
     p_ecdh P (ec_d key) (take 32 (drop 1 pub)) (drop 33 pub) = Some z' \<and>
     session_key (sess t) = p_hkdf P z nonce HKDF_INFO 32 \<and>
     (\<forall>salt. session_key (sess t) \<noteq> p_hkdf P z' salt HKDF_INFO 32)"
proof -
  have s: "ecdh_keypair (sess swap_start) = Some ref_key" "shm swap_start ! 0 = server_point"
    "shm swap_start ! 1 = ref_nonce"
    by (simp_all add: swap_start_def session2_def) (simp_all add: ref_state_def)
  show ?thesis
    apply (rule exI [of _ swap_platform], rule exI [of _ handshake_types], rule exI [of _ swap_start],
      rule exI [of _ swap_end], rule exI [of _ ref_key], rule exI [of _ ref_nonce], rule exI [of _ server_point],
      rule exI [of _ evil_point], rule exI [of _ "xor_key (fit 32 [1]) (fit 32 [9])"],
      rule exI [of _ "xor_key (fit 32 [1]) (fit 32 [6])"])
    by (intro conjI allI swap_laws attack_starts swap_run swap_secrets swap_other_key swap_signed_once s)
qed

section \<open>The Host process\<close>

text \<open>
  C31. In every run of the Host's main program, whatever the network, the server and the TA
  answer: a data message is only sent while the last word about keys was a successful
  handshake on the current connection, and it carries the nonce, the ciphertext and the counter
  that the TA returned from the command just before it.
\<close>

theorem data_follows_handshake:
  assumes "b64_laws H" "teec_laws H" "main_reach H args pc s" "i < length (log s)" "is_data (log s ! i)"
  shows "live (take i (log s)) \<and>
    (\<exists>zs ps qs device_id n64 c64. take i (log s) = zs @ [Invoked CMD_READ_AND_PROTECT ps TEE_SUCCESS qs] \<and>
       b64_encode H 32 (tmp_buffer (qs ! 0)) = Some n64 \<and>
       b64_encode H 900 (take (tmp_size (qs ! 1)) (tmp_buffer (qs ! 1))) = Some c64 \<and>
       log s ! i = Message [JString ''type'' (ascii ''data''), JString ''device_id'' device_id,
         JNumber ''seq'' (value_a (qs ! 2)), JString ''nonce'' n64, JString ''ciphertext'' c64])"
  using main_reach_inv [OF assms(1-3)] assms(4,5) by (simp add: main_inv_def events_ok_def data_ok_def)

theorem data_follows_handshake_witness:
  "\<exists>i < length (log host_pushed). is_data (log host_pushed ! i) \<and> live (take i (log host_pushed))"
  using host_round(2) data_follows_handshake [OF ref_b64 ref_teec host_reached]
  unfolding list_ex_length by blast

text \<open>
  C32. The buffers of the Host process keep their sizes in every run, its strings fit them, the
  nonce of an attested session fits its buffer, and no call into the TA names more bytes than
  its buffer has.
\<close>

theorem host_buffers_fit:
  assumes "b64_laws H" "main_reach H args pc s"
  shows "length (g_device_id s) < 64 \<and> length (g_server_host s) < 64 \<and> length (g_ak_handle s) < 32 \<and>
    length (g_nonce s) = NONCE_MAX \<and> length (g_server_ecdh_pub s) = ECDH_PUBKEY_SIZE \<and>
    length (g_server_identity_pub s) = ECDH_PUBKEY_SIZE \<and> length (g_server_sig s) = SERVER_SIG_SIZE \<and>
    (g_attested s \<longrightarrow> g_nonce_len s \<le> NONCE_MAX) \<and>
    (\<forall>c ps r qs p. Invoked c ps r qs \<in> set (log s) \<longrightarrow> p \<in> set ps \<longrightarrow> param_fits p)"
  using main_reach_wf [OF assms] by (fastforce simp: edge_wf_def sizes_def list_all_iff)

theorem host_buffers_fit_witness:
  "length (g_nonce host_pushed) = NONCE_MAX"
  using host_buffers_fit [OF ref_b64 host_reached] by blast

text \<open>
  C33. An attestation report leaves no temporary file behind on any path. A successful one ran
  two complete shell commands, never cut off by their buffer, both with status 0, and after
  them read the three files they were told to write: the encoded quote is the content of the
  message file, up to 1022 bytes, behind its own length, as the server's parser expects; the
  encoded signature is the content of the signature file, up to 512 bytes; and the PCR text is
  the content of the PCR file, up to 4095 bytes.
\<close>

theorem report_complete:
  assumes "run_state (create_attestation_report H hash ak ev) s = ((rc, ev'), t)"
    and "\<And>name w path. fst (env_mkstemp H name w) = Some path \<Longrightarrow> length path = length name"
    and "length ak < 32" "length hash = 32"
  shows "rc \<in> {0, - 1} \<and> (\<exists>es. log t = log s @ es \<and> temp_files es = unlinked es \<and>
    (rc = 0 \<longrightarrow> (\<exists>m sg a b c w1 w2 w3.
       env_mkstemp H (ascii ''/tmp/ciot_quote_msg_XXXXXX'') (hw s) = (Some a, w1) \<and>
       env_mkstemp H (ascii ''/tmp/ciot_quote_sig_XXXXXX'') w1 = (Some b, w2) \<and>
       env_mkstemp H (ascii ''/tmp/ciot_pcr_out_XXXXXX'') w2 = (Some c, w3) \<and>
       files_read H (quote_command ak (hash_hex hash) a b) (pcr_command c) a b c w3 m sg (pcr_values_text ev') \<and>
       b64_encode H 2048 (tpm2b m) = Some (quote_b64 ev') \<and>
       be_val (take 2 (tpm2b m)) = length m \<and> drop 2 (tpm2b m) = m \<and>
       b64_encode H 1024 sg = Some (signature_b64 ev') \<and> length (pcr_values_text ev') < 4096 \<and>
       es = [TempFile a, TempFile b, TempFile c, Shell (quote_command ak (hash_hex hash) a b), Shell (pcr_command c),
         Unlinked a, Unlinked b, Unlinked c])))"
proof -
  from create_report_run [OF assms(1)] obtain es where es: "log t = log s @ es" "temp_files es = unlinked es"
    "rc \<in> {0, - 1}" and ok: "rc = 0 \<Longrightarrow> report_ok H hash ak (hw s) ev' es" by blast
  show ?thesis
  proof (intro conjI exI [of _ es] es impI)
    assume "rc = 0"
    from ok [OF this] obtain a b c w1 w2 w3 where
      made: "env_mkstemp H (ascii ''/tmp/ciot_quote_msg_XXXXXX'') (hw s) = (Some a, w1)"
        "env_mkstemp H (ascii ''/tmp/ciot_quote_sig_XXXXXX'') w1 = (Some b, w2)"
        "env_mkstemp H (ascii ''/tmp/ciot_pcr_out_XXXXXX'') w2 = (Some c, w3)"
      and chain: "evidence_from H (snprintf 512 (quote_command ak (hash_hex hash) a b)) (snprintf 512 (pcr_command c)) a b c w3 ev'"
      and did: "es = [TempFile a, TempFile b, TempFile c, Shell (snprintf 512 (quote_command ak (hash_hex hash) a b)),
          Shell (snprintf 512 (pcr_command c)), Unlinked a, Unlinked b, Unlinked c]"
      unfolding report_ok_def by blast
    have "length a \<le> 64" "length b \<le> 64" "length c \<le> 64"
      using made assms(2) [of "ascii ''/tmp/ciot_quote_msg_XXXXXX''" "hw s" a]
        assms(2) [of "ascii ''/tmp/ciot_quote_sig_XXXXXX''" w1 b] assms(2) [of "ascii ''/tmp/ciot_pcr_out_XXXXXX''" w2 c]
      by simp_all
    then have whole: "snprintf 512 (quote_command ak (hash_hex hash) a b) = quote_command ak (hash_hex hash) a b"
      "snprintf 512 (pcr_command c) = pcr_command c"
      using commands_fit [of ak hash a b c] assms(3,4) by simp_all
    from chain obtain m sg where read: "files_read H (quote_command ak (hash_hex hash) a b) (pcr_command c) a b c w3 m sg (pcr_values_text ev')"
      and enc: "b64_encode H 2048 (tpm2b m) = Some (quote_b64 ev')" "b64_encode H 1024 sg = Some (signature_b64 ev')"
      unfolding evidence_from_def whole by blast
    note len = files_read_bounds [OF read]
    show "\<exists>m sg a b c w1 w2 w3. env_mkstemp H (ascii ''/tmp/ciot_quote_msg_XXXXXX'') (hw s) = (Some a, w1) \<and>
       env_mkstemp H (ascii ''/tmp/ciot_quote_sig_XXXXXX'') w1 = (Some b, w2) \<and>
       env_mkstemp H (ascii ''/tmp/ciot_pcr_out_XXXXXX'') w2 = (Some c, w3) \<and>
       files_read H (quote_command ak (hash_hex hash) a b) (pcr_command c) a b c w3 m sg (pcr_values_text ev') \<and>
       b64_encode H 2048 (tpm2b m) = Some (quote_b64 ev') \<and>
       be_val (take 2 (tpm2b m)) = length m \<and> drop 2 (tpm2b m) = m \<and>
       b64_encode H 1024 sg = Some (signature_b64 ev') \<and> length (pcr_values_text ev') < 4096 \<and>
       es = [TempFile a, TempFile b, TempFile c, Shell (quote_command ak (hash_hex hash) a b), Shell (pcr_command c),
         Unlinked a, Unlinked b, Unlinked c]"
      apply (rule exI [of _ m], rule exI [of _ sg], rule exI [of _ a], rule exI [of _ b], rule exI [of _ c])
      apply (rule exI [of _ w1], rule exI [of _ w2], rule exI [of _ w3])
      by (intro conjI made read enc did [unfolded whole] tpm2b_fields) (simp_all add: len)
  qed
qed

theorem report_complete_witness:
  "\<exists>ev t. run_state (create_attestation_report ref_host (zeros 32) (ascii ''0x8101000A'')
      \<lparr>quote_b64 = [], signature_b64 = [], pcr_values_text = []\<rparr>) \<lparr>hw = ([], ()), log = []\<rparr> = ((0, ev), t) \<and>
    temp_files (log t) = unlinked (log t) \<and> quote_b64 ev = base64 (tpm2b (ascii ''content'')) \<and>
    signature_b64 ev = base64 (ascii ''content'') \<and> pcr_values_text ev = ascii ''content''"
proof -
  let ?m = "create_attestation_report ref_host (zeros 32) (ascii ''0x8101000A'')
      \<lparr>quote_b64 = [], signature_b64 = [], pcr_values_text = []\<rparr>"
  obtain rc ev t where run: "run_state ?m \<lparr>hw = ([], ()), log = []\<rparr> = ((rc, ev), t)" by (metis prod.exhaust)
  have "length (ascii ''content'') = 7" by (simp add: ascii_def)
  then have "rc = 0"
    using run by (simp add: ref_host_def create_attestation_report_def quote_report_def encode_report_def read_text_file_def Let_def tpm2b_fields)
  with report_complete [OF run] obtain m sg a b c w where
    "b64_encode ref_host 2048 (tpm2b m) = Some (quote_b64 ev)" "b64_encode ref_host 1024 sg = Some (signature_b64 ev)"
    "files_read ref_host (quote_command (ascii ''0x8101000A'') (hash_hex (zeros 32)) a b) (pcr_command c) a b c w m sg (pcr_values_text ev)"
    and "temp_files (log t) = unlinked (log t)"
    by (auto simp: ref_host_def)
  with run \<open>rc = 0\<close> \<open>length (ascii ''content'') = 7\<close> show ?thesis
    by (auto simp: ref_host_def files_read_def split: if_splits)
qed

text \<open>
  Sending a line either delivers the line and its newline to the network and succeeds, or
  fails having delivered a proper prefix of them.
\<close>

theorem line_sent_or_prefix:
  assumes "run_state (net_send_line H conn line) s = (rc, t)"
  shows "\<exists>k \<le> length line + 1.
    tx_bytes (net_fd conn) (log t) = tx_bytes (net_fd conn) (log s) @ take k (line @ [10]) \<and>
    rc = (if k = length line + 1 then 0 else - 1)"
  using net_send_line_run [OF assms] by simp

theorem line_sent_or_prefix_witness:
  "tx_bytes 3 (log (snd (run_state (net_send_line ref_host \<lparr>net_fd = 3\<rparr> [7]) \<lparr>hw = ([], ()), log = []\<rparr>))) = [7, 10]"
proof -
  obtain rc t where run: "run_state (net_send_line ref_host \<lparr>net_fd = 3\<rparr> [7]) \<lparr>hw = ([], ()), log = []\<rparr> = (rc, t)"
    by (metis prod.exhaust)
  then have "rc = 0" by (simp add: net_send_line_def ref_host_def)
  with line_sent_or_prefix [OF run] run show ?thesis by (auto split: if_splits)
qed

text \<open>
  Receiving a line reads at most as many bytes as fit its buffer with the terminator; on
  success they are the bytes up to the first newline, and on failure none of them was one.
\<close>

theorem line_received_bounded:
  assumes "run_state (net_recv_line H conn cap) s = ((rc, line), t)" "0 < cap"
  shows "length line < cap \<and> 10 \<notin> set line \<and>
    (rc = int (length line) \<and> rx_bytes (net_fd conn) (log t) = rx_bytes (net_fd conn) (log s) @ line @ [10] \<or>
     rc = - 1 \<and> rx_bytes (net_fd conn) (log t) = rx_bytes (net_fd conn) (log s) @ line)"
  using recv_loop_run [of H "net_fd conn" cap "[]" s rc line t] assms by (auto simp: net_recv_line_def)

theorem line_received_bounded_witness:
  "length (snd (fst (run_state (net_recv_line ref_host \<lparr>net_fd = 3\<rparr> 2) \<lparr>hw = ([7, 7, 7], ()), log = []\<rparr>))) < 2"
  using line_received_bounded [of ref_host "\<lparr>net_fd = 3\<rparr>" 2 "\<lparr>hw = ([7, 7, 7], ()), log = []\<rparr>"]
  by (metis prod.collapse zero_less_numeral)

text \<open>
  A line one side sends is the line the other side receives, if it has no newline of its
  own and fits the receiver's buffer; what follows it stays to be read.
\<close>

theorem line_round_trip:
  assumes "run_state (net_send_line H conn line) s = (0, t)" "tx_bytes (net_fd conn) (log t) = tx_bytes (net_fd conn) (log s) @ stream"
    and "recv_queue E q" "q (hw r) = stream @ rest" "10 \<notin> set line" "length line + 1 < cap"
  shows "\<exists>u. run_state (net_recv_line E peer cap) r = ((int (length line), line), u) \<and> q (hw u) = rest"
proof -
  from net_send_line_run [OF assms(1)] assms(2) have "stream = line @ [10]" by (auto split: if_splits)
  with recv_loop_line [OF assms(3), of r line rest "[]" cap "net_fd peer"] assms(4-6)
  show ?thesis by (auto simp: net_recv_line_def)
qed

theorem line_round_trip_witness:
  "\<exists>u. run_state (net_recv_line ref_host \<lparr>net_fd = 3\<rparr> 16) \<lparr>hw = ([7, 8, 10, 9], ()), log = []\<rparr> =
     ((2, [7, 8]), u :: (bytes \<times> unit) host) \<and> fst (hw u) = [9]"
proof -
  let ?s = "\<lparr>hw = ([], ()), log = []\<rparr> :: (bytes \<times> unit) host"
  obtain rc t where run: "run_state (net_send_line ref_host \<lparr>net_fd = 3\<rparr> [7, 8]) ?s = (rc, t)"
    by (metis prod.exhaust)
  then have "rc = 0" "tx_bytes 3 (log t) = tx_bytes 3 (log ?s) @ [7, 8, 10]"
    by (auto simp: net_send_line_def tx_bytes_def ref_host_def)
  with run line_round_trip [of ref_host "\<lparr>net_fd = 3\<rparr>" "[7, 8]" ?s t "[7, 8, 10]" ref_host fst
      "\<lparr>hw = ([7, 8, 10, 9], ()), log = []\<rparr>" "[9]" 16 "\<lparr>net_fd = 3\<rparr>"] ref_recv
  show ?thesis by simp
qed

text \<open>
  The identity provisioning mode prints the base64 text of the key the TA returned and a
  newline, and nothing else, when it succeeds; when it fails it prints nothing.
\<close>

theorem identity_mode_prints_only_the_key:
  assumes "run_state (provision_ta_identity_mode H) s = (rc, t)"
  shows "\<exists>es. log t = log s @ es \<and> (rc = 1 \<and> stdout_bytes es = [] \<or>
    (\<exists>ps qs b. rc = 0 \<and> Invoked CMD_GENERATE_TA_IDENTITY ps TEE_SUCCESS qs \<in> set es \<and>
       b64_encode H 128 (tmp_buffer (qs ! 1)) = Some b \<and> stdout_bytes es = b @ [10]))"
  using identity_mode_run [OF assms] by simp

theorem identity_mode_prints_only_the_key_witness:
  "let t = snd (run_state (provision_ta_identity_mode ref_host) (edge_start ([], ())))
   in stdout_bytes (log t) = [] \<or> last (stdout_bytes (log t)) = 10"
proof -
  obtain rc t where run: "run_state (provision_ta_identity_mode ref_host) (edge_start ([], ())) = (rc, t)"
    by (metis prod.exhaust)
  from identity_mode_prints_only_the_key [OF run] run show ?thesis by (auto simp: edge_start_def Let_def)
qed

section \<open>The prober and the start of the daemon\<close>

text \<open>
  C38. The verdict of the prober is about the storage and not about its own history: an absent
  object and a leftover of its own are both reported as not found, the leftover being removed,
  and any other object as found with the bytes read; no handle stays open.
\<close>

theorem probe_verdict:
  assumes "working_storage V S" "undisturbed V P" "shm s \<noteq> []" "psize s ! 0 = length (shm s ! 0)"
    and "0 < psize s ! 0" "psize s ! 0 \<le> PROBE_OBJID_MAX"
    and "run_state (probe_invoke P S PROBE_CMD_OPEN_FOREIGN_OBJECT [PT_MEMREF_INPUT, PT_VALUE_OUTPUT, PT_NONE, PT_NONE]) s = (r, t)"
  shows "r = Ret TEE_SUCCESS \<and> n_persistent t = n_persistent s \<and>
    (case V (ext s) (shm s ! 0) of
       None \<Rightarrow> pvalue t = (pvalue s)[1 := (0xFFFF0008, 0)] \<and> V (ext t) = V (ext s)
     | Some c \<Rightarrow> if take 64 c = probe_marker
         then pvalue t = (pvalue s)[1 := (0xFFFF0008, 0)] \<and> V (ext t) = (V (ext s))(shm s ! 0 := None)
         else pvalue t = (pvalue s)[1 := (0, of_nat (min 64 (length c)))] \<and> V (ext t) = V (ext s))"
  using probe_foreign_run [OF assms(1-5), of r t] assms(6,7)
  by (auto simp: probe_invoke_def probe_answer_def probe_leaves_def split: option.splits)

theorem probe_verdict_witness:
  "pvalue (snd (run_state (probe_invoke still_platform map_storage PROBE_CMD_OPEN_FOREIGN_OBJECT
     [PT_MEMREF_INPUT, PT_VALUE_OUTPUT, PT_NONE, PT_NONE]) (probe_start [[1, 2, 3] \<mapsto> probe_marker]))) ! 1 = (0xFFFF0008, 0)"
proof -
  obtain r t where run: "run_state (probe_invoke still_platform map_storage PROBE_CMD_OPEN_FOREIGN_OBJECT
     [PT_MEMREF_INPUT, PT_VALUE_OUTPUT, PT_NONE, PT_NONE]) (probe_start [[1, 2, 3] \<mapsto> probe_marker]) = (r, t)"
    by (metis prod.exhaust)
  with probe_verdict [OF map_storage_works still_undisturbed _ _ _ _ run] show ?thesis
    by (simp add: probe_start_def)
qed

text \<open>
  The control of the prober reports success with the 19 bytes of its marker on working
  storage, whatever was stored under the name before, and leaves nothing under it.
\<close>

theorem probe_control_leaves_nothing:
  assumes "working_storage V S" "undisturbed V P" "shm s \<noteq> []" "psize s ! 0 = length (shm s ! 0)"
    and "0 < psize s ! 0" "psize s ! 0 \<le> PROBE_OBJID_MAX"
    and "run_state (probe_invoke P S PROBE_CMD_SELF_ROUNDTRIP [PT_MEMREF_INPUT, PT_VALUE_OUTPUT, PT_NONE, PT_NONE]) s = (r, t)"
  shows "r = Ret TEE_SUCCESS \<and> pvalue t = (pvalue s)[1 := (0, 19)] \<and>
    V (ext t) = (V (ext s))(shm s ! 0 := None) \<and> n_persistent t = n_persistent s"
  using self_roundtrip_run [OF assms(1-5), of r t] assms(6,7) by (simp add: probe_invoke_def)

theorem probe_control_leaves_nothing_witness:
  "ext (snd (run_state (probe_invoke still_platform map_storage PROBE_CMD_SELF_ROUNDTRIP
     [PT_MEMREF_INPUT, PT_VALUE_OUTPUT, PT_NONE, PT_NONE]) (probe_start [[1, 2, 3] \<mapsto> [5]]))) [1, 2, 3] = None"
proof -
  obtain r t where run: "run_state (probe_invoke still_platform map_storage PROBE_CMD_SELF_ROUNDTRIP
     [PT_MEMREF_INPUT, PT_VALUE_OUTPUT, PT_NONE, PT_NONE]) (probe_start [[1, 2, 3] \<mapsto> [5]]) = (r, t)"
    by (metis prod.exhaust)
  with probe_control_leaves_nothing [OF map_storage_works still_undisturbed _ _ _ _ run] show ?thesis
    by (simp add: probe_start_def)
qed

text \<open>
  The daemon enters its accept loop only with a port, a secret file of at least 32 bytes
  and a listening socket; its secret then is the first 32 bytes of that file, so a longer file
  is accepted, and the state is one the properties of the daemon start from.
\<close>

theorem daemon_starts_with_the_secret:
  assumes "run_state (daemon_main B args) (daemon_image d) = (Inr pc, t)"
  shows "\<exists>port path content. parse_args args (0, None) = (port, Some path) \<and> port \<noteq> 0 \<and>
    bo_file B path = Some content \<and> LINK_SECRET_SIZE \<le> length content \<and>
    daemon_reach H (take LINK_SECRET_SIZE content) pc t"
  using daemon_main_run [OF assms] by (metis daemon_reach.start)

theorem daemon_starts_with_the_secret_witness:
  "\<exists>t. run_state (daemon_main boot_ref boot_args) (daemon_image []) = (Inr Accepting, t) \<and>
     daemon_reach ref_os (replicate 32 7) Accepting t"
proof -
  obtain t where run: "run_state (daemon_main boot_ref boot_args) (daemon_image []) = (Inr Accepting, t)"
    using boot_runs by blast
  from daemon_starts_with_the_secret [OF run, of ref_os] have "daemon_reach ref_os (replicate 32 7) Accepting t"
    by (auto simp: boot_ref_def)
  with run show ?thesis by blast
qed

section \<open>Components together\<close>

text \<open>
  C6. The messages the server receives, in any run of the Host on top of the TA: of two data messages
  with no new key between them the later one has the larger counter, whatever other sessions
  of the TA, the network and the server do, and although commands fail or the TA panics.
\<close>

theorem pushed_counters_increase:
  assumes "platform_laws V P" "runs_ta H V P st" "b64_laws H" "teec_laws H" "main_reach H args pc s"
    and "i < j" "j < length (log s)"
    and "log s ! i = Message (JString n (ascii ''data'') # JString x d # JNumber y a # ms)"
    and "log s ! j = Message (JString n' (ascii ''data'') # JString x' d' # JNumber y' b # ms')"
    and "\<And>k. i < k \<Longrightarrow> k < j \<Longrightarrow> \<not> rekeyed (log s ! k)"
  shows "a < b"
  by (rule ta_host.pushed_rise [OF ta_host.intro [OF assms(1,2)] assms(3-10)])

theorem pushed_counters_increase_witness:
  "\<exists>s i j n x d y a ms n' x' d' y' b ms'. main_reach tee_host [] (Pushing 3) s \<and> i < j \<and> j < length (log s) \<and>
     log s ! i = Message (JString n (ascii ''data'') # JString x d # JNumber y a # ms) \<and>
     log s ! j = Message (JString n' (ascii ''data'') # JString x' d' # JNumber y' b # ms') \<and> a < b"
proof -
  obtain s i j n x d y ms n' x' d' y' ms' where run: "main_reach tee_host [] (Pushing 3) s" "i < j" "j < length (log s)"
    "log s ! i = Message (JString n (ascii ''data'') # JString x d # JNumber y 1 # ms)"
    "log s ! j = Message (JString n' (ascii ''data'') # JString x' d' # JNumber y' 2 # ms')"
    "\<forall>k. i < k \<longrightarrow> k < j \<longrightarrow> \<not> rekeyed (log s ! k)"
    using tee_two_messages by blast
  have "(1 :: u32) < 2"
    by (rule pushed_counters_increase [OF ref_laws tee_runs tee_b64 tee_teec run(1-5)]) (use run(6) in blast)
  with run(1-5) show ?thesis by blast
qed

text \<open>
  C17. Pairing works from end to end. On a device with no secret sealed and a sensor in its first
  connection, provisioning succeeds and seals the secret burned into the sensor, which closes
  its latch; an authentication after it succeeds. The daemon may take any part of
  the two seconds the pseudo-TA waits before it makes each of its moves.
\<close>

theorem pairing_succeeds:
  assumes "sensor_attached P hm D lag" "cooperative V D P"
    and "hm = (\<lambda>k c. Some (p_hmac P k c))" "\<And>k c. length (p_hmac P k c) = 32"
    and "V (ext s) SENSOR_PSK_OBJID = None" "D (ext s) = (Serving l, d)"
    and "\<not> authenticated l" "\<not> g_secret_served d" "\<not> g_secret_window_closed d" "length (g_secret d) = 32"
      "to_sensor (dext d) = []" "to_device (dext d) = []"
  shows "\<exists>t. run_state (TA_InvokeCommandEntryPoint P CMD_PROVISION_SENSOR_SECRET [PT_NONE, PT_NONE, PT_NONE, PT_NONE]) s =
      (Ret TEE_SUCCESS, t) \<and>
    V (ext t) = (V (ext s))(SENSOR_PSK_OBJID \<mapsto> g_secret d) \<and> g_secret_served (snd (D (ext t))) \<and>
    (\<forall>u types. ext u = ext t \<longrightarrow> (\<exists>v. run_state (TA_InvokeCommandEntryPoint P CMD_AUTHENTICATE_SENSOR types) u =
      (Ret TEE_SUCCESS, v) \<and> sensor_authenticated (sess v)))"
proof -
  obtain r t where run: "run_state (TA_InvokeCommandEntryPoint P CMD_PROVISION_SENSOR_SECRET [PT_NONE, PT_NONE, PT_NONE, PT_NONE]) s = (r, t)"
    by (metis prod.exhaust)
  note paired = wp_run [OF secure_line.pairing [OF secure_line.intro [OF assms(1,2)] assms(3-12)] run]
  have "\<exists>v. run_state (TA_InvokeCommandEntryPoint P CMD_AUTHENTICATE_SENSOR types) u =
      (Ret TEE_SUCCESS, v) \<and> sensor_authenticated (sess v)" if "ext u = ext t" for u types
  proof -
    obtain q v where "run_state (TA_InvokeCommandEntryPoint P CMD_AUTHENTICATE_SENSOR types) u = (q, v)" by (metis prod.exhaust)
    moreover from paired that have "wp (TA_InvokeCommandEntryPoint P CMD_AUTHENTICATE_SENSOR types)
      (\<lambda>r v. r = Ret TEE_SUCCESS \<and> sensor_authenticated (sess v)) u" by blast
    ultimately show ?thesis using wp_run by fastforce
  qed
  with run paired show ?thesis by blast
qed

theorem pairing_succeeds_witness:
  "\<exists>t v. run_state (TA_InvokeCommandEntryPoint wired CMD_PROVISION_SENSOR_SECRET [PT_NONE, PT_NONE, PT_NONE, PT_NONE]) unpaired =
     (Ret TEE_SUCCESS, t) \<and> fst (ext t) = [SENSOR_PSK_OBJID \<mapsto> fit 32 [9]] \<and>
     run_state (TA_InvokeCommandEntryPoint wired CMD_AUTHENTICATE_SENSOR []) t = (Ret TEE_SUCCESS, v) \<and>
     sensor_authenticated (sess v)"
proof -
  have start: "fst (ext unpaired) SENSOR_PSK_OBJID = None" "snd (ext unpaired) = (Serving serve_start, snd fresh_sensor)"
    "\<not> authenticated serve_start" "\<not> g_secret_served (snd fresh_sensor)" "\<not> g_secret_window_closed (snd fresh_sensor)"
    "length (g_secret (snd fresh_sensor)) = 32" "to_sensor (dext (snd fresh_sensor)) = []" "to_device (dext (snd fresh_sensor)) = []"
    by (simp_all add: unpaired_def fresh_sensor_def serve_start_def daemon_start_def)
  obtain t where t: "run_state (TA_InvokeCommandEntryPoint wired CMD_PROVISION_SENSOR_SECRET [PT_NONE, PT_NONE, PT_NONE, PT_NONE])
      unpaired = (Ret TEE_SUCCESS, t)" "fst (ext t) = (fst (ext unpaired))(SENSOR_PSK_OBJID \<mapsto> g_secret (snd fresh_sensor))"
    "\<forall>u types. ext u = ext t \<longrightarrow> (\<exists>v. run_state (TA_InvokeCommandEntryPoint wired CMD_AUTHENTICATE_SENSOR types) u =
      (Ret TEE_SUCCESS, v) \<and> sensor_authenticated (sess v))"
    using pairing_succeeds [OF wired.attached wired.coop _ _ start] by (auto simp: wired_hmac)
  from t(2) have "fst (ext t) = [SENSOR_PSK_OBJID \<mapsto> fit 32 [9]]"
    by (simp add: unpaired_def fresh_sensor_def daemon_start_def)
  with t(1) t(3) [rule_format, of t "[]"] show ?thesis by blast
qed

text \<open>
  C21. A sensor that sends nothing cannot hold a command of the pseudo-TA: each of the three
  returns COMMUNICATION after exactly the two seconds of one time-out.
\<close>

theorem silent_sensor_times_out:
  assumes "\<forall>e. \<not> fst (p_uart_have_rx P e)" "link_call cmd types ps"
  shows "\<exists>qs t. run_state (invoke_command P cmd types ps) s = ((TEE_ERROR_COMMUNICATION, qs), t) \<and>
    waited t = waited s + READ_TIMEOUT_MS"
proof -
  obtain r t where "run_state (invoke_command P cmd types ps) s = (r, t)" by (metis prod.exhaust)
  with wp_run [OF silent_command [OF assms] this] show ?thesis by (cases r) simp
qed

theorem silent_sensor_times_out_witness:
  "\<exists>qs t. run_state (invoke_command (ref_platform\<lparr>p_uart_have_rx := \<lambda>e. (False, e)\<rparr>) PTA_CMD_READ
     [PT_MEMREF_OUTPUT, PT_NONE, PT_NONE, PT_NONE] [\<lparr>mbuf = zeros 256, msize = 256\<rparr>, no_memref, no_memref, no_memref])
     (protect_start session3) = ((TEE_ERROR_COMMUNICATION, qs), t) \<and> waited t = 2000"
  using silent_sensor_times_out [of "ref_platform\<lparr>p_uart_have_rx := \<lambda>e. (False, e)\<rparr>" PTA_CMD_READ
     "[PT_MEMREF_OUTPUT, PT_NONE, PT_NONE, PT_NONE]" "[\<lparr>mbuf = zeros 256, msize = 256\<rparr>, no_memref, no_memref, no_memref]"
     "protect_start session3"]
  by (simp add: link_call_def protect_start_def ref_state_def)



text \<open>
  C34. A dead TA is for good. Once the TA has panicked, the push loop goes on with the session
  it holds for ever: no command succeeds again, no data message is sent, and the process
  neither ends nor opens a new session.
\<close>

theorem dead_session_never_recovers:
  assumes "target_dead_law H dead" "dead (hw s)" "run_state (main_steps H args n (Pushing i)) s = (pc, t)"
  shows "pc = Pushing i \<and> dead (hw t) \<and> (\<exists>es. log t = log s @ es \<and> (\<forall>e \<in> set es. \<not> is_data e \<and> \<not> succeeded e))"
proof -
  from dead_session.dead_rounds [OF dead_session.intro [OF assms(1)] assms(2,3)]
  have "pc = Pushing i" "dead (hw t)" "calm s t" "stays_dead dead s t" by simp_all
  then show ?thesis
    using assms(2) by (auto simp: calm_def calm_events_def stays_dead_def list_all_iff)
qed

theorem dead_session_never_recovers_witness:
  "\<exists>t es. run_state (main_steps tee_host [] 5 (Pushing 3)) (tee_pushing\<lparr>hw := ([10, 10], Dead)\<rparr>) = (Pushing 3, t) \<and>
     log t = log tee_pushing @ es \<and> (\<forall>e \<in> set es. \<not> is_data e \<and> \<not> succeeded e)"
proof -
  obtain pc t where run: "run_state (main_steps tee_host [] 5 (Pushing 3)) (tee_pushing\<lparr>hw := ([10, 10], Dead)\<rparr>) = (pc, t)"
    by (metis prod.exhaust)
  from dead_session_never_recovers [OF tee.law _ run] run show ?thesis by auto
qed

text \<open>
  C39. The configuration is what a reader of the file expects: for each key the last line that
  assigns it counts, the environment wins over the file, and a key that neither sets keeps its
  default. The file may have any contents with lines of at most 254 bytes and no NUL.
\<close>

theorem load_config_takes_last_assignment:
  assumes "file = fst (env_fopen H (ascii ''/etc/confidential_iot/device.conf'') (hw s))"
    and "\<And>content. file = Some content \<Longrightarrow> (\<forall>l \<in> set (split_lines content). length l < 255) \<and> 0 \<notin> set content"
    and "run_state (load_config H) s = (x, t)"
  shows "g_device_id t = (case configured H file ''CIOT_DEVICE_ID'' ''device_id'' of None \<Rightarrow> g_device_id s | Some v \<Rightarrow> snprintf 64 v) \<and>
    g_server_host t = (case configured H file ''CIOT_SERVER_HOST'' ''server_host'' of None \<Rightarrow> g_server_host s | Some v \<Rightarrow> snprintf 64 v) \<and>
    g_server_port t = (case configured H file ''CIOT_SERVER_PORT'' ''server_port'' of None \<Rightarrow> g_server_port s | Some v \<Rightarrow> word_of_int (atoi v)) \<and>
    g_ak_handle t = (case configured H file ''CIOT_AK_HANDLE'' ''ak_handle'' of None \<Rightarrow> g_ak_handle s | Some v \<Rightarrow> snprintf 32 v) \<and>
    g_admin_port t = (case configured H file ''CIOT_ADMIN_PORT'' ''admin_port'' of None \<Rightarrow> g_admin_port s | Some v \<Rightarrow> word_of_int (atoi v))"
  by (intro conjI; rule load_config_field [OF assms]) (simp_all add: settings env_settings_def)

theorem load_config_takes_last_assignment_witness:
  "let H = ref_host\<lparr>env_fopen := \<lambda>p w. (Some (ascii ''device_id=a'' @ [10] @ ascii ''#x'' @ [10] @ ascii ''device_id=b''), w),
         env_getenv := \<lambda>n. if n = ''CIOT_SERVER_PORT'' then Some (ascii ''9100'') else None\<rparr>;
       t = snd (run_state (load_config H) (edge_start ([], ())))
   in g_device_id t = ascii ''b'' \<and> g_server_port t = 9100 \<and> g_admin_port t = 8000"
proof -
  let ?file = "ascii ''device_id=a'' @ [10] @ ascii ''#x'' @ [10] @ ascii ''device_id=b''"
  let ?H = "ref_host\<lparr>env_fopen := \<lambda>p w. (Some ?file, w),
    env_getenv := \<lambda>n. if n = ''CIOT_SERVER_PORT'' then Some (ascii ''9100'') else None\<rparr>"
  obtain x t where run: "run_state (load_config ?H) (edge_start ([], ())) = (x, t)" by (metis prod.exhaust)
  have content: "(\<forall>l \<in> set (split_lines ?file). length l < 255) \<and> 0 \<notin> set ?file"
    "map_of (rev (file_settings ?file)) (ascii ''device_id'') = Some (ascii ''b'')"
    "map_of (rev (file_settings ?file)) (ascii ''admin_port'') = None" "atoi (ascii ''9100'') = 9100"
    "snprintf 64 (ascii ''b'') = ascii ''b''"
    by code_simp+
  show ?thesis
    using load_config_takes_last_assignment [OF _ _ run, of "Some ?file"] run content
    by (simp add: configured_def edge_start_def)
qed

end
